(* ===== verification/Prelude.thy ===== *)
theory Prelude
  imports Complex_Main "HOL-Library.Word" "HOL-Library.AList" "HOL-Library.Monad_Syntax"
begin

text \<open>
  What every component of the model shares: the names of the Go types, Go's integer
  conversions, loops whose body may panic, and the closed form of a loop that updates
  the cells of a heap one after the other.

  A Go panic is the value \<open>None\<close>; a Go \<open>error\<close> result is the left side of a sum.
\<close>

named_theorems go_defs "definitions of small Go helpers that proofs unfold together"
named_theorems inv_intros "preservation of a component's invariant by its operations"

section \<open>Types\<close>

type_synonym byte = "8 word"
type_synonym bytes = "8 word list"
type_synonym addr = nat

text \<open>Identifiers of rows and users are \<open>uint64\<close>; the code only compares them.\<close>

type_synonym uint64 = nat

text \<open>A \<open>time.Duration\<close> is a count of nanoseconds in an \<open>int64\<close>.\<close>

type_synonym duration = int

definition millisecond :: duration where
  "millisecond = 1000000"

definition second :: duration where
  "second = 1000000000"

text \<open>Go's signed 64-bit arithmetic wraps; its division truncates towards zero.\<close>

definition int64 :: "int \<Rightarrow> int" where
  "int64 x = (x + 2 ^ 63) mod 2 ^ 64 - 2 ^ 63"

definition go_quot :: "int \<Rightarrow> int \<Rightarrow> int" where
  "go_quot a b = sgn a * sgn b * (\<bar>a\<bar> div \<bar>b\<bar>)"

lemma int64_id: "- (2 ^ 63) \<le> x \<Longrightarrow> x < 2 ^ 63 \<Longrightarrow> int64 x = x"
  by (simp add: int64_def)

lemma int64_range: "- (2 ^ 63) \<le> int64 x \<and> int64 x < 2 ^ 63"
  unfolding int64_def using pos_mod_bound [of "2 ^ 64" "x + 2 ^ 63"] by simp

lemma go_quot_nonneg: "0 \<le> a \<Longrightarrow> 0 < b \<Longrightarrow> go_quot a b = a div b"
  by (cases "a = 0") (simp_all add: go_quot_def)

section \<open>Loops whose body may panic\<close>

fun for_each :: "('a \<Rightarrow> 's \<Rightarrow> 's option) \<Rightarrow> 'a list \<Rightarrow> 's \<Rightarrow> 's option" where
  "for_each f [] s = Some s"
| "for_each f (x # xs) s = Option.bind (f x s) (for_each f xs)"

lemma for_each_append:
  "for_each f (xs @ ys) s = Option.bind (for_each f xs s) (for_each f ys)"
proof (induction xs arbitrary: s)
  case Nil
  then show ?case by simp
next
  case (Cons x xs)
  then show ?case by (cases "f x s") simp_all
qed

lemma for_each_inv:
  assumes "\<And>x s. x \<in> set xs \<Longrightarrow> P s \<Longrightarrow> \<exists>s'. f x s = Some s' \<and> P s'"
    and "P s"
  shows "\<exists>s'. for_each f xs s = Some s' \<and> P s'"
  using assms
proof (induction xs arbitrary: s)
  case Nil
  then show ?case by simp
next
  case (Cons x xs)
  then obtain s' where "f x s = Some s'" "P s'" by force
  with Cons show ?case by simp
qed

section \<open>Heaps of cells\<close>

definition update_cell :: "('c \<Rightarrow> 'c option) \<Rightarrow> addr \<Rightarrow> (addr \<rightharpoonup> 'c) \<Rightarrow> (addr \<rightharpoonup> 'c) option" where
  "update_cell f a h =
     (case h a of None \<Rightarrow> None
      | Some c \<Rightarrow> (case f c of None \<Rightarrow> None | Some c' \<Rightarrow> Some (h(a \<mapsto> c'))))"

text \<open>
  A loop over distinct cells, each of which the body can update, never panics and
  updates every cell on its own: the order of the loop does not matter.
\<close>

lemma for_each_cells:
  assumes "distinct as"
    and "\<And>a. a \<in> set as \<Longrightarrow> \<exists>c c'. h a = Some c \<and> f c = Some c'"
  shows "for_each (update_cell f) as h
       = Some (\<lambda>a. if a \<in> set as then Option.bind (h a) f else h a)"
  using assms
proof (induction as arbitrary: h)
  case Nil
  then show ?case by simp
next
  case (Cons a as)
  from Cons.prems(2) [of a] obtain c c' where c: "h a = Some c" "f c = Some c'" by auto
  have "for_each (update_cell f) as (h(a \<mapsto> c'))
      = Some (\<lambda>b. if b \<in> set as then Option.bind ((h(a \<mapsto> c')) b) f else (h(a \<mapsto> c')) b)"
    using Cons.prems by (intro Cons.IH) auto
  moreover have "update_cell f a h = Some (h(a \<mapsto> c'))"
    using c by (simp add: update_cell_def)
  ultimately show ?case
    using c Cons.prems(1) by (auto simp: fun_eq_iff)
qed

section \<open>Association lists (Go maps that the code ranges over)\<close>

text \<open>
  A Go map that the code iterates is an association list with distinct keys; Go leaves the
  order of iteration unspecified, so no lemma depends on it.
\<close>

lemma set_alist_update:
  "distinct (map fst al) \<Longrightarrow>
   set (AList.update k v al) = insert (k, v) {p \<in> set al. fst p \<noteq> k}"
  by (induction al) force+

lemma set_alist_delete: "set (AList.delete k al) = {p \<in> set al. fst p \<noteq> k}"
  by (simp add: AList.delete_eq) auto

lemma map_of_mem:
  "distinct (map fst al) \<Longrightarrow> (k, v) \<in> set al \<longleftrightarrow> map_of al k = Some v"
  by (auto dest: map_of_SomeD)

lemma length_alist_update_fresh:
  "k \<notin> fst ` set al \<Longrightarrow> length (AList.update k v al) = Suc (length al)"
  by (induction al) auto

lemma length_alist_delete:
  "distinct (map fst al) \<Longrightarrow> k \<in> fst ` set al \<Longrightarrow>
   Suc (length (AList.delete k al)) = length al"
proof (induction al)
  case Nil
  then show ?case by simp
next
  case (Cons p al)
  show ?case
  proof (cases "fst p = k")
    case True
    with Cons.prems have "k \<notin> fst ` set al" by auto
    then have "AList.delete k al = al"
      by (simp add: AList.delete_eq filter_id_conv) force
    with True show ?thesis by (cases p) (simp add: AList.delete_eq)
  next
    case False
    with Cons show ?thesis by (cases p) (auto simp: AList.delete_eq)
  qed
qed

lemma alist_delete_update_fresh:
  "k \<notin> fst ` set al \<Longrightarrow> AList.delete k (AList.update k v al) = al"
proof (induction al)
  case Nil
  then show ?case by (simp add: AList.delete_eq)
next
  case (Cons p al)
  then show ?case by (cases p) (auto simp: AList.delete_eq)
qed

text \<open>A buffer that drops what does not fit.\<close>

lemma take_overflow: "take n (take n xs @ ys) = take n (xs @ ys)"
  by (cases "n \<le> length xs") simp_all

lemma take_drop_mid:
  "length xs = n \<Longrightarrow> length ys = m \<Longrightarrow> take m (drop n (xs @ ys @ zs)) = ys"
  by auto

end
