(* ===== verification/Go_Strings.thy ===== *)
theory Go_Strings
  imports Prelude "HOL-Library.Char_ord"
begin

text \<open>
  The functions of Go's \<open>strings\<close> and \<open>strconv\<close> packages that the server uses, on strings as
  lists of characters (bytes). White space is the ASCII white space.
\<close>

definition trim_left :: "(char \<Rightarrow> bool) \<Rightarrow> string \<Rightarrow> string" where
  "trim_left p s = dropWhile p s"

definition trim_right :: "(char \<Rightarrow> bool) \<Rightarrow> string \<Rightarrow> string" where
  "trim_right p s = rev (dropWhile p (rev s))"

definition trim :: "(char \<Rightarrow> bool) \<Rightarrow> string \<Rightarrow> string" where
  "trim p s = trim_right p (trim_left p s)"

definition is_space :: "char \<Rightarrow> bool" where
  "is_space c \<longleftrightarrow> c \<in> {CHR '' '', CHR 0x09, CHR 0x0A, CHR 0x0B, CHR 0x0C, CHR 0x0D}"

definition TrimSpace :: "string \<Rightarrow> string" where
  "TrimSpace = trim is_space"

fun Split :: "char \<Rightarrow> string \<Rightarrow> string list" where
  "Split sep [] = [[]]"
| "Split sep (c # s) =
     (if c = sep then [] # Split sep s
      else case Split sep s of [] \<Rightarrow> [[c]] | part # parts \<Rightarrow> (c # part) # parts)"

definition HasPrefix :: "string \<Rightarrow> string \<Rightarrow> bool" where
  "HasPrefix s pre \<longleftrightarrow> take (length pre) s = pre"

definition HasSuffix :: "string \<Rightarrow> string \<Rightarrow> bool" where
  "HasSuffix s suf \<longleftrightarrow> HasPrefix (rev s) (rev suf)"

definition is_digit :: "char \<Rightarrow> bool" where
  "is_digit c \<longleftrightarrow> 48 \<le> (of_char c :: nat) \<and> (of_char c :: nat) \<le> 57"

definition is_letter :: "char \<Rightarrow> bool" where
  "is_letter c \<longleftrightarrow> (97 \<le> (of_char c :: nat) \<and> (of_char c :: nat) \<le> 122) \<or>
                  (65 \<le> (of_char c :: nat) \<and> (of_char c :: nat) \<le> 90)"

definition digit_value :: "char \<Rightarrow> nat" where
  "digit_value c = of_char c - 48"

definition parse_digits :: "string \<Rightarrow> nat option" where
  "parse_digits s =
     (if s = [] \<or> \<not> list_all is_digit s then None
      else Some (foldl (\<lambda>n c. 10 * n + digit_value c) 0 s))"

text \<open>\<open>strconv.ParseUint(s, 10, 64)\<close>: digits only, an error above the range.\<close>

definition ParseUint :: "string \<Rightarrow> uint64 option" where
  "ParseUint s =
     (case parse_digits s of None \<Rightarrow> None
      | Some n \<Rightarrow> if n < 2 ^ 64 then Some n else None)"

text \<open>\<open>strconv.Atoi\<close>: an optional sign, digits, the range of \<open>int\<close>.\<close>

definition Atoi :: "string \<Rightarrow> int option" where
  "Atoi s =
     (let (sign, digits) = (case s of CHR ''-'' # ds \<Rightarrow> (-1, ds) | CHR ''+'' # ds \<Rightarrow> (1, ds)
                            | _ \<Rightarrow> (1, s))
      in case parse_digits digits of None \<Rightarrow> None
         | Some n \<Rightarrow> let i = sign * int n
                    in if - (2 ^ 63) \<le> i \<and> i < 2 ^ 63 then Some i else None)"

fun digits :: "nat \<Rightarrow> string" where
  "digits n = (if n < 10 then [char_of (48 + n)] else digits (n div 10) @ [char_of (48 + n mod 10)])"

declare digits.simps [simp del]

definition Itoa :: "int \<Rightarrow> string" where
  "Itoa i = (if i < 0 then CHR ''-'' # digits (nat (- i)) else digits (nat i))"

text \<open>
  The value that \<open>ParseUint\<close> and \<open>Atoi\<close> return when the caller ignores the error: 0 on a syntax
  error, the nearest bound when the number is too large (which ends the scan).
\<close>

fun scan_uint :: "nat \<Rightarrow> string \<Rightarrow> uint64" where
  "scan_uint n [] = n"
| "scan_uint n (c # s) =
     (if \<not> is_digit c then 0
      else let n' = 10 * n + digit_value c in if 2 ^ 64 \<le> n' then 2 ^ 64 - 1 else scan_uint n' s)"

definition ParseUint_value :: "string \<Rightarrow> uint64" where
  "ParseUint_value s = scan_uint 0 s"

definition Atoi_value :: "string \<Rightarrow> int" where
  "Atoi_value s =
     (let (neg, ds) = (case s of CHR ''-'' # ds \<Rightarrow> (True, ds) | CHR ''+'' # ds \<Rightarrow> (False, ds) | _ \<Rightarrow> (False, s));
          u = int (ParseUint_value ds)
      in if neg then - (min u (2 ^ 63)) else min u (2 ^ 63 - 1))"

section \<open>Facts\<close>

lemma Split_nonempty [simp]: "Split sep s \<noteq> []"
  by (cases s) (auto split: list.split)

lemma set_trim: "set (trim p s) \<subseteq> set s"
proof
  fix x assume "x \<in> set (trim p s)"
  then have "x \<in> set (rev (dropWhile p s))"
    by (auto simp: trim_def trim_right_def trim_left_def dest!: set_dropWhileD)
  then show "x \<in> set s" by (auto dest: set_dropWhileD)
qed

lemma trim_idem: "list_all (\<lambda>c. \<not> p c) s \<Longrightarrow> trim p s = s"
proof -
  assume a: "list_all (\<lambda>c. \<not> p c) s"
  have "dropWhile p xs = xs" if "list_all (\<lambda>c. \<not> p c) xs" for xs using that by (cases xs) auto
  from this [OF a] this [of "rev s"] a show ?thesis
    by (simp add: trim_def trim_left_def trim_right_def list_all_rev)
qed

lemma Split_no_sep: "sep \<notin> set s \<Longrightarrow> Split sep s = [s]"
  by (induction s) auto

lemma Split_parts: "part \<in> set (Split sep s) \<Longrightarrow> sep \<notin> set part"
proof (induction s arbitrary: part)
  case (Cons c s)
  show ?case
  proof (cases "c = sep")
    case True
    with Cons show ?thesis by auto
  next
    case False
    with Cons show ?thesis by (cases "Split sep s") auto
  qed
qed simp

lemma is_digit_char: "(k :: nat) < 10 \<Longrightarrow> is_digit (char_of (48 + k))"
  by (simp add: is_digit_def of_char_of take_bit_eq_mod)

lemma digits_digits: "list_all is_digit (digits n)"
proof (induction n rule: digits.induct)
  case (1 n)
  then show ?case
    by (subst digits.simps) (auto simp: is_digit_char)
qed

lemma parse_digits_digits: "parse_digits (digits n) = Some n"
proof -
  have "foldl (\<lambda>n c. 10 * n + digit_value c) 0 (digits n) = n"
  proof (induction n rule: digits.induct)
    case (1 n)
    then show ?case
      by (subst digits.simps) (auto simp: digit_value_def of_char_of take_bit_eq_mod)
  qed
  moreover have "digits n \<noteq> []" by (subst digits.simps) simp
  ultimately show ?thesis using digits_digits [of n] by (simp add: parse_digits_def)
qed

lemma ParseUint_digits: "n < 2 ^ 64 \<Longrightarrow> ParseUint (digits n) = Some n"
  by (simp add: ParseUint_def parse_digits_digits)

lemma ParseUint_range: "ParseUint s = Some n \<Longrightarrow> n < 2 ^ 64"
  by (auto simp: ParseUint_def split: option.splits if_splits)

lemma foldl_digits_mono: "n \<le> foldl (\<lambda>n c. 10 * n + digit_value c) n s"
proof (induction s arbitrary: n)
  case (Cons c s)
  have "n \<le> 10 * n + digit_value c" by simp
  also have "\<dots> \<le> foldl (\<lambda>n c. 10 * n + digit_value c) (10 * n + digit_value c) s" by (rule Cons)
  finally show ?case by simp
qed simp

lemma scan_uint_eq:
  assumes "list_all is_digit s" "foldl (\<lambda>n c. 10 * n + digit_value c) n s < 2 ^ 64"
  shows "scan_uint n s = foldl (\<lambda>n c. 10 * n + digit_value c) n s"
  using assms
proof (induction s arbitrary: n)
  case (Cons c s)
  from foldl_digits_mono [of "10 * n + digit_value c" s] Cons.prems(2)
  have "10 * n + digit_value c < 2 ^ 64" by simp
  with Cons show ?case by (simp add: Let_def)
qed simp

lemma ParseUint_value_eq: "ParseUint s = Some n \<Longrightarrow> ParseUint_value s = n"
  unfolding ParseUint_def ParseUint_value_def parse_digits_def
  using scan_uint_eq [of s 0] by (auto split: if_splits)

lemma scan_uint_bound: "n < 2 ^ 64 \<Longrightarrow> scan_uint n s < 2 ^ 64"
proof (induction s arbitrary: n)
  case (Cons c s)
  then show ?case by (cases "2 ^ 64 \<le> 10 * n + digit_value c") (simp_all add: Let_def)
qed simp

lemma ParseUint_value_bound: "ParseUint_value s < 2 ^ 64"
  unfolding ParseUint_value_def by (rule scan_uint_bound) simp

end
