(* ===== verification/Database.thy ===== *)
theory Database
  imports Go_Strings "HOL-Library.Multiset"
begin

text \<open>
  The rows of \<open>server/internal/model\<close> and the interface to the database. Gorm and SQLite are
  not part of the repository: a table is accessed through a \<open>driver\<close>, a record of functions
  that the model takes as an argument, and \<open>driver_ok\<close> states what their documentation
  promises (what a successful statement returns or changes; a statement that fails changes
  nothing). A statement may fail at any time, so the model is given one driver per statement
  it runs. An in-memory driver shows that the promises can be kept.
\<close>

section \<open>Rows\<close>

text \<open>A time is a count of nanoseconds, 0 the zero time.\<close>

type_synonym time = int

record user =
  u_ID :: uint64
  UserDisplayID :: string
  Username :: string
  PasswordHash :: string
  Nickname :: string
  AvatarURL :: string
  u_Role :: string
  IsActive :: bool
  u_CreatedAt :: time
  LastLoginAt :: "time option"

record room =
  r_ID :: uint64
  RoomCode :: string
  InviteCode :: string
  r_Name :: string
  OwnerID :: uint64
  MediaRoomName :: string
  r_CreatedAt :: time

record room_member =
  m_RoomID :: uint64
  m_UserID :: uint64
  m_Role :: string
  JoinedAt :: time

text \<open>\<open>Meta\<close> is a JSON object, kept as its text.\<close>

record message =
  msg_ID :: uint64
  msg_RoomID :: uint64
  SenderID :: uint64
  msg_Type :: string
  Content :: string
  Meta :: "string option"
  msg_CreatedAt :: time

record room_ingress =
  ing_ID :: uint64
  ing_RoomID :: uint64
  IngressID :: string
  StreamKey :: string
  RTMPURL :: string
  Label :: string
  ing_IsActive :: bool
  CreatedBy :: uint64
  ing_CreatedAt :: time

record friendship =
  RequesterID :: uint64
  AddresseeID :: uint64
  Status :: string
  f_CreatedAt :: time
  f_UpdatedAt :: time

record wg_peer =
  p_ID :: uint64
  p_RoomID :: uint64
  p_UserID :: uint64
  PublicKey :: string
  AssignedIP :: string
  LastHandshakeAt :: "time option"
  p_CreatedAt :: time

section \<open>Generated codes\<close>

text \<open>
  \<open>cryptorand.Int\<close>: \<open>rand max i\<close> is the i-th draw below \<open>max\<close>.
\<close>

type_synonym random = "nat \<Rightarrow> nat \<Rightarrow> nat"

definition random_ok :: "random \<Rightarrow> bool" where
  "random_ok rand \<longleftrightarrow> (\<forall>m i. 0 < m \<longrightarrow> rand m i < m)"

definition invite_chars :: string where
  "invite_chars = ''ABCDEFGHJKLMNPQRSTUVWXYZ23456789''"

definition GenerateInviteCode :: "random \<Rightarrow> string" where
  "GenerateInviteCode rand = map (\<lambda>i. invite_chars ! rand (length invite_chars) i) [0..<6]"

definition random_chars :: string where
  "random_chars = ''abcdefghijklmnopqrstuvwxyz0123456789''"

definition GenerateRandomString :: "random \<Rightarrow> nat \<Rightarrow> string" where
  "GenerateRandomString rand n = map (\<lambda>i. random_chars ! rand (length random_chars) i) [0..<n]"

definition GenerateDisplayID :: "random \<Rightarrow> string" where
  "GenerateDisplayID rand = Itoa (10000 + int (rand 90000 0))"

definition Room_BeforeCreate :: "random \<Rightarrow> random \<Rightarrow> room \<Rightarrow> room" where
  "Room_BeforeCreate rand1 rand2 r =
     (let r1 = (if RoomCode r = [] then r\<lparr>RoomCode := ''rm_'' @ GenerateRandomString rand1 8\<rparr> else r);
          r2 = (if InviteCode r1 = [] then r1\<lparr>InviteCode := GenerateInviteCode rand2\<rparr> else r1)
      in if MediaRoomName r2 = [] then r2\<lparr>MediaRoomName := ''nexusroom_'' @ RoomCode r2\<rparr> else r2)"

definition User_BeforeCreate :: "random \<Rightarrow> user \<Rightarrow> user" where
  "User_BeforeCreate rand u =
     (if UserDisplayID u = [] then u\<lparr>UserDisplayID := GenerateDisplayID rand\<rparr> else u)"

lemma invite_code_valid:
  assumes "random_ok rand"
  shows "length (GenerateInviteCode rand) = 6 \<and> set (GenerateInviteCode rand) \<subseteq> set invite_chars"
proof -
  have "0 < length invite_chars" by (simp add: invite_chars_def)
  with assms have "rand (length invite_chars) i < length invite_chars" for i
    unfolding random_ok_def by blast
  then show ?thesis by (auto simp: GenerateInviteCode_def)
qed

lemma display_id_five_digits:
  assumes "random_ok rand"
  shows "\<exists>n. GenerateDisplayID rand = digits n \<and> 10000 \<le> n \<and> n < 100000"
proof -
  from assms have "rand 90000 0 < 90000" unfolding random_ok_def by auto
  then show ?thesis
    by (intro exI [of _ "10000 + rand 90000 0"]) (simp add: GenerateDisplayID_def Itoa_def nat_add_distrib)
qed

section \<open>Drivers\<close>

datatype db_error = RecordNotFound | DbError string

record 'r driver =
  dCreate :: "'r \<Rightarrow> 'r list \<Rightarrow> db_error + ('r \<times> 'r list)"
  dFirst :: "('r \<Rightarrow> bool) \<Rightarrow> 'r list \<Rightarrow> db_error + 'r"
  dFind :: "('r \<Rightarrow> bool) \<Rightarrow> 'r list \<Rightarrow> db_error + 'r list"
  dOrdered :: "bool \<Rightarrow> nat \<Rightarrow> ('r \<Rightarrow> bool) \<Rightarrow> 'r list \<Rightarrow> db_error + 'r list"
  dPage :: "nat \<Rightarrow> nat \<Rightarrow> 'r list \<Rightarrow> db_error + 'r list"
  dCount :: "('r \<Rightarrow> bool) \<Rightarrow> 'r list \<Rightarrow> db_error + nat"
  dUpdate :: "('r \<Rightarrow> bool) \<Rightarrow> ('r \<Rightarrow> 'r) \<Rightarrow> 'r list \<Rightarrow> db_error + 'r list"
  dSave :: "'r \<Rightarrow> 'r list \<Rightarrow> db_error + 'r list"
  dDelete :: "('r \<Rightarrow> bool) \<Rightarrow> 'r list \<Rightarrow> db_error + 'r list"

text \<open>
  A table: how the database completes a new row (its key and the default values of the
  columns), the key, the order of the keys, and when two rows violate a unique index.
\<close>

record 'r schema =
  complete :: "'r \<Rightarrow> nat \<Rightarrow> time \<Rightarrow> 'r"
  id_of :: "'r \<Rightarrow> nat"
  same_key :: "'r \<Rightarrow> 'r \<Rightarrow> bool"
  clash :: "'r \<Rightarrow> 'r \<Rightarrow> bool"

definition create_ok :: "'r schema \<Rightarrow> 'r driver \<Rightarrow> bool" where
  "create_ok sc d \<longleftrightarrow> (\<forall>r rs r' rs'. dCreate d r rs = Inr (r', rs') \<longrightarrow>
     rs' = rs @ [r'] \<and> (\<forall>x \<in> set rs. \<not> clash sc x r') \<and>
     (\<exists>n now. r' = complete sc r n now \<and> 0 < n \<and> (\<forall>x \<in> set rs. id_of sc x < n)))"

definition first_ok :: "'r driver \<Rightarrow> bool" where
  "first_ok d \<longleftrightarrow> (\<forall>P rs.
     (\<forall>r. dFirst d P rs = Inr r \<longrightarrow> r \<in> set rs \<and> P r) \<and>
     (dFirst d P rs = Inl RecordNotFound \<longrightarrow> (\<forall>r \<in> set rs. \<not> P r)))"

definition find_ok :: "'r driver \<Rightarrow> bool" where
  "find_ok d \<longleftrightarrow> (\<forall>P rs xs. dFind d P rs = Inr xs \<longrightarrow> mset xs = mset (filter P rs))"

definition ordered_ok :: "'r schema \<Rightarrow> 'r driver \<Rightarrow> bool" where
  "ordered_ok sc d \<longleftrightarrow> (\<forall>desc n P rs xs. dOrdered d desc n P rs = Inr xs \<longrightarrow>
     (\<exists>ys. mset ys = mset (filter P rs) \<and> xs = take n ys \<and>
           sorted (map (id_of sc) (if desc then rev ys else ys))))"

definition page_ok :: "'r driver \<Rightarrow> bool" where
  "page_ok d \<longleftrightarrow> (\<forall>off n rs xs. dPage d off n rs = Inr xs \<longrightarrow>
     (\<exists>ys. mset ys = mset rs \<and> xs = take n (drop off ys)))"

definition count_ok :: "'r driver \<Rightarrow> bool" where
  "count_ok d \<longleftrightarrow> (\<forall>P rs n. dCount d P rs = Inr n \<longrightarrow> n = length (filter P rs))"

definition update_ok :: "'r driver \<Rightarrow> bool" where
  "update_ok d \<longleftrightarrow> (\<forall>P f rs rs'. dUpdate d P f rs = Inr rs' \<longrightarrow>
     rs' = map (\<lambda>r. if P r then f r else r) rs)"

definition save_ok :: "'r schema \<Rightarrow> 'r driver \<Rightarrow> bool" where
  "save_ok sc d \<longleftrightarrow> (\<forall>r rs rs'. dSave d r rs = Inr rs' \<longrightarrow>
     rs' = (if \<exists>x \<in> set rs. same_key sc x r
            then map (\<lambda>x. if same_key sc x r then r else x) rs else rs @ [r]))"

definition delete_ok :: "'r driver \<Rightarrow> bool" where
  "delete_ok d \<longleftrightarrow> (\<forall>P rs rs'. dDelete d P rs = Inr rs' \<longrightarrow> rs' = filter (\<lambda>r. \<not> P r) rs)"

definition driver_ok :: "'r schema \<Rightarrow> 'r driver \<Rightarrow> bool" where
  "driver_ok sc d \<longleftrightarrow> create_ok sc d \<and> first_ok d \<and> find_ok d \<and> ordered_ok sc d \<and> page_ok d \<and>
     count_ok d \<and> update_ok d \<and> save_ok sc d \<and> delete_ok d"

lemma driver_okD:
  assumes "driver_ok sc d"
  shows "dCreate d r rs = Inr (r', rs') \<Longrightarrow> rs' = rs @ [r'] \<and> (\<forall>x \<in> set rs. \<not> clash sc x r') \<and>
           (\<exists>n now. r' = complete sc r n now \<and> 0 < n \<and> (\<forall>x \<in> set rs. id_of sc x < n))"
    and "dFirst d P rs = Inr r \<Longrightarrow> r \<in> set rs \<and> P r"
    and "dFirst d P rs = Inl RecordNotFound \<Longrightarrow> r \<in> set rs \<Longrightarrow> \<not> P r"
    and "dFind d P rs = Inr xs \<Longrightarrow> mset xs = mset (filter P rs)"
    and "dCount d P rs = Inr n \<Longrightarrow> n = length (filter P rs)"
    and "dUpdate d P f rs = Inr rs' \<Longrightarrow> rs' = map (\<lambda>r. if P r then f r else r) rs"
    and "dDelete d P rs = Inr rs' \<Longrightarrow> rs' = filter (\<lambda>r. \<not> P r) rs"
    and "dSave d r rs = Inr rs' \<Longrightarrow> rs' = (if \<exists>x \<in> set rs. same_key sc x r
            then map (\<lambda>x. if same_key sc x r then r else x) rs else rs @ [r])"
    and "dOrdered d desc k P rs = Inr xs \<Longrightarrow> \<exists>ys. mset ys = mset (filter P rs) \<and> xs = take k ys \<and>
           sorted (map (id_of sc) (if desc then rev ys else ys))"
    and "dPage d off k rs = Inr xs \<Longrightarrow> \<exists>ys. mset ys = mset rs \<and> xs = take k (drop off ys)"
proof -
  from assms have ok: "create_ok sc d" "first_ok d" "find_ok d" "count_ok d" "update_ok d" "delete_ok d"
      "save_ok sc d" "ordered_ok sc d" "page_ok d"
    by (simp_all add: driver_ok_def)
  show "dCreate d r rs = Inr (r', rs') \<Longrightarrow> rs' = rs @ [r'] \<and> (\<forall>x \<in> set rs. \<not> clash sc x r') \<and>
           (\<exists>n now. r' = complete sc r n now \<and> 0 < n \<and> (\<forall>x \<in> set rs. id_of sc x < n))"
    using ok(1) unfolding create_ok_def by blast
  show "dFirst d P rs = Inr r \<Longrightarrow> r \<in> set rs \<and> P r"
    "dFirst d P rs = Inl RecordNotFound \<Longrightarrow> r \<in> set rs \<Longrightarrow> \<not> P r"
    using ok(2) unfolding first_ok_def by blast+
  show "dFind d P rs = Inr xs \<Longrightarrow> mset xs = mset (filter P rs)"
    using ok(3) unfolding find_ok_def by blast
  show "dCount d P rs = Inr n \<Longrightarrow> n = length (filter P rs)"
    using ok(4) unfolding count_ok_def by blast
  show "dUpdate d P f rs = Inr rs' \<Longrightarrow> rs' = map (\<lambda>r. if P r then f r else r) rs"
    using ok(5) unfolding update_ok_def by blast
  show "dDelete d P rs = Inr rs' \<Longrightarrow> rs' = filter (\<lambda>r. \<not> P r) rs"
    using ok(6) unfolding delete_ok_def by blast
  show "dSave d r rs = Inr rs' \<Longrightarrow> rs' = (if \<exists>x \<in> set rs. same_key sc x r
            then map (\<lambda>x. if same_key sc x r then r else x) rs else rs @ [r])"
    using ok(7) unfolding save_ok_def by blast
  show "dOrdered d desc k P rs = Inr xs \<Longrightarrow> \<exists>ys. mset ys = mset (filter P rs) \<and> xs = take k ys \<and>
           sorted (map (id_of sc) (if desc then rev ys else ys))"
    using ok(8) unfolding ordered_ok_def by blast
  show "dPage d off k rs = Inr xs \<Longrightarrow> \<exists>ys. mset ys = mset rs \<and> xs = take k (drop off ys)"
    using ok(9) unfolding page_ok_def by blast
qed

section \<open>The tables\<close>

definition user_schema :: "user schema" where
  "user_schema = \<lparr>complete = (\<lambda>u n now. u\<lparr>u_ID := n,
       u_Role := (if u_Role u = [] then ''user'' else u_Role u), IsActive := True,
       u_CreatedAt := now\<rparr>),
     id_of = u_ID, same_key = (\<lambda>x y. u_ID x = u_ID y),
     clash = (\<lambda>x y. u_ID x = u_ID y \<or> UserDisplayID x = UserDisplayID y \<or> Username x = Username y)\<rparr>"

definition room_schema :: "room schema" where
  "room_schema = \<lparr>complete = (\<lambda>r n now. r\<lparr>r_ID := n, r_CreatedAt := now\<rparr>), id_of = r_ID,
     same_key = (\<lambda>x y. r_ID x = r_ID y),
     clash = (\<lambda>x y. r_ID x = r_ID y \<or> RoomCode x = RoomCode y \<or> InviteCode x = InviteCode y \<or>
       MediaRoomName x = MediaRoomName y)\<rparr>"

definition member_schema :: "room_member schema" where
  "member_schema = \<lparr>complete = (\<lambda>m n now. m\<lparr>m_Role := (if m_Role m = [] then ''member'' else m_Role m),
       JoinedAt := now\<rparr>),
     id_of = (\<lambda>_. 0), same_key = (\<lambda>x y. m_RoomID x = m_RoomID y \<and> m_UserID x = m_UserID y),
     clash = (\<lambda>x y. m_RoomID x = m_RoomID y \<and> m_UserID x = m_UserID y)\<rparr>"

definition message_schema :: "message schema" where
  "message_schema = \<lparr>complete = (\<lambda>m n now. m\<lparr>msg_ID := n\<rparr>), id_of = msg_ID,
     same_key = (\<lambda>x y. msg_ID x = msg_ID y), clash = (\<lambda>x y. msg_ID x = msg_ID y)\<rparr>"

definition ingress_schema :: "room_ingress schema" where
  "ingress_schema = \<lparr>complete = (\<lambda>i n now. i\<lparr>ing_ID := n, ing_CreatedAt := now\<rparr>), id_of = ing_ID,
     same_key = (\<lambda>x y. ing_ID x = ing_ID y),
     clash = (\<lambda>x y. ing_ID x = ing_ID y \<or> IngressID x = IngressID y \<or> StreamKey x = StreamKey y)\<rparr>"

definition friendship_schema :: "friendship schema" where
  "friendship_schema = \<lparr>complete = (\<lambda>f n now. f\<lparr>Status := (if Status f = [] then ''pending'' else Status f),
       f_CreatedAt := now, f_UpdatedAt := now\<rparr>),
     id_of = (\<lambda>_. 0),
     same_key = (\<lambda>x y. RequesterID x = RequesterID y \<and> AddresseeID x = AddresseeID y),
     clash = (\<lambda>x y. RequesterID x = RequesterID y \<and> AddresseeID x = AddresseeID y)\<rparr>"

definition peer_schema :: "wg_peer schema" where
  "peer_schema = \<lparr>complete = (\<lambda>p n now. p\<lparr>p_ID := n, p_CreatedAt := now\<rparr>), id_of = p_ID,
     same_key = (\<lambda>x y. p_ID x = p_ID y), clash = (\<lambda>x y. p_ID x = p_ID y)\<rparr>"

lemmas schema_defs = user_schema_def room_schema_def member_schema_def message_schema_def
  ingress_schema_def friendship_schema_def peer_schema_def

record gorm =
  g_users :: "user driver"
  g_rooms :: "room driver"
  g_members :: "room_member driver"
  g_messages :: "message driver"
  g_ingresses :: "room_ingress driver"
  g_friendships :: "friendship driver"
  g_peers :: "wg_peer driver"
  g_rooms_join :: "(room \<Rightarrow> room_member \<Rightarrow> bool) \<Rightarrow> room list \<Rightarrow> room_member list \<Rightarrow> db_error + room list"
  g_users_join :: "(user \<Rightarrow> friendship \<Rightarrow> bool) \<Rightarrow> user list \<Rightarrow> friendship list \<Rightarrow> db_error + user list"
  g_refs_join :: "(room_ingress \<Rightarrow> room \<Rightarrow> bool) \<Rightarrow> room_ingress list \<Rightarrow> room list
                    \<Rightarrow> db_error + (room_ingress \<times> room) list"

text \<open>The inner joins return one row per matching pair.\<close>

definition joins_ok :: "gorm \<Rightarrow> bool" where
  "joins_ok g \<longleftrightarrow>
     (\<forall>P xs ys zs. g_rooms_join g P xs ys = Inr zs \<longrightarrow>
        mset zs = mset (map fst (filter (\<lambda>(x, y). P x y) (List.product xs ys)))) \<and>
     (\<forall>P xs ys zs. g_users_join g P xs ys = Inr zs \<longrightarrow>
        mset zs = mset (map fst (filter (\<lambda>(x, y). P x y) (List.product xs ys)))) \<and>
     (\<forall>P xs ys zs. g_refs_join g P xs ys = Inr zs \<longrightarrow>
        mset zs = mset (filter (\<lambda>(x, y). P x y) (List.product xs ys)))"

definition gorm_ok :: "gorm \<Rightarrow> bool" where
  "gorm_ok g \<longleftrightarrow> driver_ok user_schema (g_users g) \<and> driver_ok room_schema (g_rooms g) \<and>
     driver_ok member_schema (g_members g) \<and> driver_ok message_schema (g_messages g) \<and>
     driver_ok ingress_schema (g_ingresses g) \<and> driver_ok friendship_schema (g_friendships g) \<and>
     driver_ok peer_schema (g_peers g) \<and> joins_ok g"

lemma gorm_okD:
  assumes "gorm_ok g"
  shows "driver_ok user_schema (g_users g)" "driver_ok room_schema (g_rooms g)"
    "driver_ok member_schema (g_members g)" "driver_ok message_schema (g_messages g)"
    "driver_ok ingress_schema (g_ingresses g)" "driver_ok friendship_schema (g_friendships g)"
    "driver_ok peer_schema (g_peers g)" "joins_ok g"
  using assms by (simp_all add: gorm_ok_def)

record database =
  t_users :: "user list"
  t_rooms :: "room list"
  t_members :: "room_member list"
  t_messages :: "message list"
  t_ingresses :: "room_ingress list"
  t_friendships :: "friendship list"
  t_peers :: "wg_peer list"

definition empty_db :: database where
  "empty_db = \<lparr>t_users = [], t_rooms = [], t_members = [], t_messages = [], t_ingresses = [],
     t_friendships = [], t_peers = []\<rparr>"

section \<open>An in-memory driver\<close>

definition max_id :: "'r schema \<Rightarrow> 'r list \<Rightarrow> nat" where
  "max_id sc rs = fold max (map (id_of sc) rs) 0"

lemma max_id_ge: "x \<in> set rs \<Longrightarrow> id_of sc x \<le> max_id sc rs"
proof -
  have "\<And>k. k \<le> fold max ns k \<and> (\<forall>n \<in> set ns. n \<le> fold max ns k)" for ns :: "nat list"
  proof (induction ns)
    case (Cons n ns)
    from Cons [of "max n k"] show ?case by auto
  qed simp
  then show "x \<in> set rs \<Longrightarrow> id_of sc x \<le> max_id sc rs" by (auto simp: max_id_def)
qed

definition mem_driver :: "'r schema \<Rightarrow> 'r driver" where
  "mem_driver sc = \<lparr>
     dCreate = (\<lambda>r rs. let r' = complete sc r (Suc (max_id sc rs)) 0
                       in if list_ex (\<lambda>x. clash sc x r') rs then Inl (DbError ''UNIQUE'')
                          else Inr (r', rs @ [r'])),
     dFirst = (\<lambda>P rs. case find P rs of None \<Rightarrow> Inl RecordNotFound | Some r \<Rightarrow> Inr r),
     dFind = (\<lambda>P rs. Inr (filter P rs)),
     dOrdered = (\<lambda>desc n P rs. let ys = sort_key (id_of sc) (filter P rs)
                               in Inr (take n (if desc then rev ys else ys))),
     dPage = (\<lambda>off n rs. Inr (take n (drop off rs))),
     dCount = (\<lambda>P rs. Inr (length (filter P rs))),
     dUpdate = (\<lambda>P f rs. Inr (map (\<lambda>r. if P r then f r else r) rs)),
     dSave = (\<lambda>r rs. Inr (if list_ex (\<lambda>x. same_key sc x r) rs
                          then map (\<lambda>x. if same_key sc x r then r else x) rs else rs @ [r])),
     dDelete = (\<lambda>P rs. Inr (filter (\<lambda>r. \<not> P r) rs))\<rparr>"

lemma mem_driver_ok: "driver_ok sc (mem_driver sc)"
proof -
  have "create_ok sc (mem_driver sc)"
    unfolding create_ok_def mem_driver_def
    by (auto simp: Let_def list_ex_iff less_Suc_eq_le max_id_ge split: if_splits
        intro!: exI [of _ "Suc (max_id sc _)"])
  moreover have "first_ok (mem_driver sc)"
    by (auto simp: first_ok_def mem_driver_def find_Some_iff find_None_iff split: option.splits)
  moreover have "ordered_ok sc (mem_driver sc)"
    unfolding ordered_ok_def
  proof (intro allI impI)
    fix desc n P rs xs
    assume a: "dOrdered (mem_driver sc) desc n P rs = Inr xs"
    let ?ys = "sort_key (id_of sc) (filter P rs)"
    show "\<exists>ys. mset ys = mset (filter P rs) \<and> xs = take n ys \<and>
          sorted (map (id_of sc) (if desc then rev ys else ys))"
      using a by (intro exI [of _ "if desc then rev ?ys else ?ys"]) (auto simp: mem_driver_def Let_def)
  qed
  ultimately show ?thesis
    by (auto simp: driver_ok_def find_ok_def page_ok_def count_ok_def update_ok_def save_ok_def
        delete_ok_def mem_driver_def list_ex_iff)
qed

definition mem_gorm :: gorm where
  "mem_gorm = \<lparr>g_users = mem_driver user_schema, g_rooms = mem_driver room_schema,
     g_members = mem_driver member_schema, g_messages = mem_driver message_schema,
     g_ingresses = mem_driver ingress_schema, g_friendships = mem_driver friendship_schema,
     g_peers = mem_driver peer_schema,
     g_rooms_join = (\<lambda>P xs ys. Inr (map fst (filter (\<lambda>(x, y). P x y) (List.product xs ys)))),
     g_users_join = (\<lambda>P xs ys. Inr (map fst (filter (\<lambda>(x, y). P x y) (List.product xs ys)))),
     g_refs_join = (\<lambda>P xs ys. Inr (filter (\<lambda>(x, y). P x y) (List.product xs ys)))\<rparr>"

lemma mem_gorm_ok: "gorm_ok mem_gorm"
  by (simp add: gorm_ok_def mem_gorm_def mem_driver_ok joins_ok_def)

lemma mem_gorm_all: "\<forall>i. gorm_ok ((\<lambda>_. mem_gorm) (i :: nat))"
  by (simp add: mem_gorm_ok)

text \<open>The same functions one by one, to evaluate an operation on a concrete database.\<close>

lemma mem_gorm_sel:
  "g_users mem_gorm = mem_driver user_schema" "g_rooms mem_gorm = mem_driver room_schema"
  "g_members mem_gorm = mem_driver member_schema" "g_messages mem_gorm = mem_driver message_schema"
  "g_ingresses mem_gorm = mem_driver ingress_schema" "g_friendships mem_gorm = mem_driver friendship_schema"
  "g_peers mem_gorm = mem_driver peer_schema"
  by (simp_all add: mem_gorm_def)

lemma mem_driver_sel:
  "dCreate (mem_driver sc) r rs = (let r' = complete sc r (Suc (max_id sc rs)) 0
     in if list_ex (\<lambda>x. clash sc x r') rs then Inl (DbError ''UNIQUE'') else Inr (r', rs @ [r']))"
  "dFirst (mem_driver sc) P rs = (case find P rs of None \<Rightarrow> Inl RecordNotFound | Some r \<Rightarrow> Inr r)"
  "dFind (mem_driver sc) P rs = Inr (filter P rs)"
  "dCount (mem_driver sc) P rs = Inr (length (filter P rs))"
  "dUpdate (mem_driver sc) P f rs = Inr (map (\<lambda>r. if P r then f r else r) rs)"
  "dDelete (mem_driver sc) P rs = Inr (filter (\<lambda>r. \<not> P r) rs)"
  by (simp_all add: mem_driver_def)

lemmas mem_simps = mem_gorm_sel mem_driver_sel schema_defs max_id_def

lemmas mem_defs = mem_gorm_def mem_driver_def schema_defs max_id_def

end
