(* ===== verification/Repositories.thy ===== *)
theory Repositories
  imports Database
begin

text \<open>
  \<open>server/internal/repository\<close>: the queries of the server, one definition per method, over
  the database interface. A method that runs several statements takes a driver for each of
  them (\<open>g 0\<close>, \<open>g 1\<close>, ...); the result is an error or a value, and the database afterwards.
  \<open>Preload\<close> is the further queries that gorm runs and the assignment of their rows.
\<close>

type_synonym 'a db_result = "db_error + 'a"

definition with_rows :: "('r list \<Rightarrow> database) \<Rightarrow> database \<Rightarrow> 'r list db_result \<Rightarrow> unit db_result \<times> database" where
  "with_rows put db res = (case res of Inl err \<Rightarrow> (Inl err, db) | Inr rs \<Rightarrow> (Inr (), put rs))"

section \<open>Users\<close>

definition User_Create :: "random \<Rightarrow> gorm \<Rightarrow> user \<Rightarrow> database \<Rightarrow> user db_result \<times> database" where
  "User_Create rand g u db =
     (case dCreate (g_users g) (User_BeforeCreate rand u) (t_users db) of
        Inl err \<Rightarrow> (Inl err, db)
      | Inr (u', us) \<Rightarrow> (Inr u', db\<lparr>t_users := us\<rparr>))"

definition User_FindByID :: "gorm \<Rightarrow> uint64 \<Rightarrow> database \<Rightarrow> user db_result" where
  "User_FindByID g i db = dFirst (g_users g) (\<lambda>u. u_ID u = i) (t_users db)"

definition User_FindByUsername :: "gorm \<Rightarrow> string \<Rightarrow> database \<Rightarrow> user db_result" where
  "User_FindByUsername g n db = dFirst (g_users g) (\<lambda>u. Username u = n) (t_users db)"

definition User_FindByDisplayID :: "gorm \<Rightarrow> string \<Rightarrow> database \<Rightarrow> user db_result" where
  "User_FindByDisplayID g n db = dFirst (g_users g) (\<lambda>u. UserDisplayID u = n) (t_users db)"

definition update_users :: "gorm \<Rightarrow> (user \<Rightarrow> bool) \<Rightarrow> (user \<Rightarrow> user) \<Rightarrow> database \<Rightarrow> unit db_result \<times> database" where
  "update_users g P f db = with_rows (\<lambda>us. db\<lparr>t_users := us\<rparr>) db (dUpdate (g_users g) P f (t_users db))"

definition User_Update :: "gorm \<Rightarrow> user \<Rightarrow> database \<Rightarrow> unit db_result \<times> database" where
  "User_Update g u db = with_rows (\<lambda>us. db\<lparr>t_users := us\<rparr>) db (dSave (g_users g) u (t_users db))"

definition User_UpdateLastLogin :: "gorm \<Rightarrow> time \<Rightarrow> uint64 \<Rightarrow> database \<Rightarrow> unit db_result \<times> database" where
  "User_UpdateLastLogin g now i = update_users g (\<lambda>u. u_ID u = i) (\<lambda>u. u\<lparr>LastLoginAt := Some now\<rparr>)"

definition User_UpdateProfile :: "gorm \<Rightarrow> uint64 \<Rightarrow> string \<Rightarrow> string \<Rightarrow> database \<Rightarrow> unit db_result \<times> database" where
  "User_UpdateProfile g i nickname avatarURL =
     update_users g (\<lambda>u. u_ID u = i)
       (\<lambda>u. let u1 = (if nickname \<noteq> [] then u\<lparr>Nickname := nickname\<rparr> else u)
            in if avatarURL \<noteq> [] then u1\<lparr>AvatarURL := avatarURL\<rparr> else u1)"

definition User_SetActive :: "gorm \<Rightarrow> uint64 \<Rightarrow> bool \<Rightarrow> database \<Rightarrow> unit db_result \<times> database" where
  "User_SetActive g i active = update_users g (\<lambda>u. u_ID u = i) (\<lambda>u. u\<lparr>IsActive := active\<rparr>)"

text \<open>The error of the counting query is ignored; the total is then 0.\<close>

definition count_or_zero :: "nat db_result \<Rightarrow> nat" where
  "count_or_zero res = (case res of Inl _ \<Rightarrow> 0 | Inr n \<Rightarrow> n)"

text \<open>
  The offset is computed in 64 bits; gorm leaves out an offset that is not positive. The page
  sizes that the server asks for are positive.
\<close>

definition page_offset :: "int \<Rightarrow> int \<Rightarrow> nat" where
  "page_offset page pageSize = nat (int64 (int64 (page - 1) * pageSize))"

definition User_List :: "(nat \<Rightarrow> gorm) \<Rightarrow> int \<Rightarrow> int \<Rightarrow> database \<Rightarrow> user list db_result \<times> nat" where
  "User_List g page pageSize db =
     (let offset = page_offset page pageSize;
          total = count_or_zero (dCount (g_users (g 0)) (\<lambda>_. True) (t_users db))
      in (dPage (g_users (g 1)) offset (nat pageSize) (t_users db), total))"

section \<open>Preloading\<close>

definition zero_user :: user where
  "zero_user = \<lparr>u_ID = 0, UserDisplayID = [], Username = [], PasswordHash = [], Nickname = [],
     AvatarURL = [], u_Role = [], IsActive = False, u_CreatedAt = 0, LastLoginAt = None\<rparr>"

definition user_or_zero :: "user list \<Rightarrow> uint64 \<Rightarrow> user" where
  "user_or_zero us i = (case find (\<lambda>u. u_ID u = i) us of None \<Rightarrow> zero_user | Some u \<Rightarrow> u)"

definition preload_users :: "gorm \<Rightarrow> ('a \<Rightarrow> uint64) \<Rightarrow> 'a list \<Rightarrow> database \<Rightarrow> ('a \<times> user) list db_result" where
  "preload_users g key xs db =
     (case dFind (g_users g) (\<lambda>u. u_ID u \<in> key ` set xs) (t_users db) of
        Inl err \<Rightarrow> Inl err
      | Inr us \<Rightarrow> Inr (map (\<lambda>x. (x, user_or_zero us (key x))) xs))"

section \<open>Rooms\<close>

record room_view =
  rv_room :: room
  rv_Owner :: user
  rv_Members :: "(room_member \<times> user) list"

definition Room_Create :: "random \<Rightarrow> random \<Rightarrow> gorm \<Rightarrow> room \<Rightarrow> database \<Rightarrow> room db_result \<times> database" where
  "Room_Create rand1 rand2 g r db =
     (case dCreate (g_rooms g) (Room_BeforeCreate rand1 rand2 r) (t_rooms db) of
        Inl err \<Rightarrow> (Inl err, db)
      | Inr (r', rs) \<Rightarrow> (Inr r', db\<lparr>t_rooms := rs\<rparr>))"

definition Room_FindByID :: "(nat \<Rightarrow> gorm) \<Rightarrow> uint64 \<Rightarrow> database \<Rightarrow> room_view db_result" where
  "Room_FindByID g i db =
     (case dFirst (g_rooms (g 0)) (\<lambda>r. r_ID r = i) (t_rooms db) of Inl err \<Rightarrow> Inl err
      | Inr r \<Rightarrow>
     (case preload_users (g 1) OwnerID [r] db of Inl err \<Rightarrow> Inl err
      | Inr owners \<Rightarrow>
     (case dFind (g_members (g 2)) (\<lambda>m. m_RoomID m = r_ID r) (t_members db) of Inl err \<Rightarrow> Inl err
      | Inr ms \<Rightarrow>
     (case preload_users (g 3) m_UserID ms db of Inl err \<Rightarrow> Inl err
      | Inr members \<Rightarrow>
          Inr \<lparr>rv_room = r, rv_Owner = snd (hd owners), rv_Members = members\<rparr>))))"

definition Room_FindByInviteCode :: "gorm \<Rightarrow> string \<Rightarrow> database \<Rightarrow> room db_result" where
  "Room_FindByInviteCode g code db = dFirst (g_rooms g) (\<lambda>r. InviteCode r = code) (t_rooms db)"

definition Room_FindByRoomCode :: "gorm \<Rightarrow> string \<Rightarrow> database \<Rightarrow> room db_result" where
  "Room_FindByRoomCode g code db = dFirst (g_rooms g) (\<lambda>r. RoomCode r = code) (t_rooms db)"

definition Room_Update :: "gorm \<Rightarrow> room \<Rightarrow> database \<Rightarrow> unit db_result \<times> database" where
  "Room_Update g r db = with_rows (\<lambda>rs. db\<lparr>t_rooms := rs\<rparr>) db (dSave (g_rooms g) r (t_rooms db))"

text \<open>A transaction: any error rolls everything back (a failed commit is like a failed last statement).\<close>

definition Room_Delete :: "(nat \<Rightarrow> gorm) \<Rightarrow> uint64 \<Rightarrow> database \<Rightarrow> unit db_result \<times> database" where
  "Room_Delete g i db =
     (case dDelete (g_members (g 0)) (\<lambda>m. m_RoomID m = i) (t_members db) of Inl err \<Rightarrow> (Inl err, db)
      | Inr ms \<Rightarrow>
     (case dDelete (g_messages (g 1)) (\<lambda>m. msg_RoomID m = i) (t_messages db) of Inl err \<Rightarrow> (Inl err, db)
      | Inr msgs \<Rightarrow>
     (case dDelete (g_ingresses (g 2)) (\<lambda>x. ing_RoomID x = i) (t_ingresses db) of Inl err \<Rightarrow> (Inl err, db)
      | Inr ings \<Rightarrow>
     (case dDelete (g_peers (g 3)) (\<lambda>p. p_RoomID p = i) (t_peers db) of Inl err \<Rightarrow> (Inl err, db)
      | Inr peers \<Rightarrow>
     (case dDelete (g_rooms (g 4)) (\<lambda>r. r_ID r = i) (t_rooms db) of Inl err \<Rightarrow> (Inl err, db)
      | Inr rs \<Rightarrow>
          (Inr (), db\<lparr>t_members := ms, t_messages := msgs, t_ingresses := ings, t_peers := peers,
                      t_rooms := rs\<rparr>))))))"

definition Room_List :: "(nat \<Rightarrow> gorm) \<Rightarrow> int \<Rightarrow> int \<Rightarrow> database \<Rightarrow> (room \<times> user) list db_result \<times> nat" where
  "Room_List g page pageSize db =
     (let offset = page_offset page pageSize;
          total = count_or_zero (dCount (g_rooms (g 0)) (\<lambda>_. True) (t_rooms db))
      in (case dPage (g_rooms (g 1)) offset (nat pageSize) (t_rooms db) of
            Inl err \<Rightarrow> Inl err | Inr rs \<Rightarrow> preload_users (g 2) OwnerID rs db, total))"

definition Room_ListByUser :: "(nat \<Rightarrow> gorm) \<Rightarrow> uint64 \<Rightarrow> database \<Rightarrow> (room \<times> user) list db_result" where
  "Room_ListByUser g i db =
     (case g_rooms_join (g 0) (\<lambda>r m. r_ID r = m_RoomID m \<and> m_UserID m = i) (t_rooms db) (t_members db) of
        Inl err \<Rightarrow> Inl err | Inr rs \<Rightarrow> preload_users (g 1) OwnerID rs db)"

definition AddMember :: "gorm \<Rightarrow> uint64 \<Rightarrow> uint64 \<Rightarrow> string \<Rightarrow> database \<Rightarrow> unit db_result \<times> database" where
  "AddMember g roomID userID role db =
     (case dCreate (g_members g) \<lparr>m_RoomID = roomID, m_UserID = userID, m_Role = role, JoinedAt = 0\<rparr>
             (t_members db) of
        Inl err \<Rightarrow> (Inl err, db)
      | Inr (m, ms) \<Rightarrow> (Inr (), db\<lparr>t_members := ms\<rparr>))"

definition RemoveMember :: "gorm \<Rightarrow> uint64 \<Rightarrow> uint64 \<Rightarrow> database \<Rightarrow> unit db_result \<times> database" where
  "RemoveMember g roomID userID db =
     with_rows (\<lambda>ms. db\<lparr>t_members := ms\<rparr>) db
       (dDelete (g_members g) (\<lambda>m. m_RoomID m = roomID \<and> m_UserID m = userID) (t_members db))"

text \<open>The error of the query is ignored: the count stays 0 and the answer is no.\<close>

definition IsMember :: "gorm \<Rightarrow> uint64 \<Rightarrow> uint64 \<Rightarrow> database \<Rightarrow> bool" where
  "IsMember g roomID userID db =
     (0 < count_or_zero
        (dCount (g_members g) (\<lambda>m. m_RoomID m = roomID \<and> m_UserID m = userID) (t_members db)))"

definition GetMember :: "gorm \<Rightarrow> uint64 \<Rightarrow> uint64 \<Rightarrow> database \<Rightarrow> room_member db_result" where
  "GetMember g roomID userID db =
     dFirst (g_members g) (\<lambda>m. m_RoomID m = roomID \<and> m_UserID m = userID) (t_members db)"

section \<open>Messages\<close>

definition Message_Create :: "gorm \<Rightarrow> message \<Rightarrow> database \<Rightarrow> message db_result \<times> database" where
  "Message_Create g m db =
     (case dCreate (g_messages g) m (t_messages db) of
        Inl err \<Rightarrow> (Inl err, db)
      | Inr (m', ms) \<Rightarrow> (Inr m', db\<lparr>t_messages := ms\<rparr>))"

definition Message_FindByID :: "(nat \<Rightarrow> gorm) \<Rightarrow> uint64 \<Rightarrow> database \<Rightarrow> (message \<times> user) db_result" where
  "Message_FindByID g i db =
     (case dFirst (g_messages (g 0)) (\<lambda>m. msg_ID m = i) (t_messages db) of Inl err \<Rightarrow> Inl err
      | Inr m \<Rightarrow> (case preload_users (g 1) SenderID [m] db of Inl err \<Rightarrow> Inl err | Inr xs \<Rightarrow> Inr (hd xs)))"

definition find_messages ::
  "(nat \<Rightarrow> gorm) \<Rightarrow> bool \<Rightarrow> nat \<Rightarrow> (message \<Rightarrow> bool) \<Rightarrow> database \<Rightarrow> (message \<times> user) list db_result" where
  "find_messages g desc limit P db =
     (case dOrdered (g_messages (g 0)) desc limit P (t_messages db) of Inl err \<Rightarrow> Inl err
      | Inr ms \<Rightarrow> preload_users (g 1) SenderID ms db)"

definition GetMessagesAfter ::
  "(nat \<Rightarrow> gorm) \<Rightarrow> uint64 \<Rightarrow> uint64 \<Rightarrow> nat \<Rightarrow> database \<Rightarrow> (message \<times> user) list db_result" where
  "GetMessagesAfter g roomID afterID limit db =
     find_messages g False limit (\<lambda>m. msg_RoomID m = roomID \<and> msg_ID m > afterID) db"

text \<open>The loop that reverses the slice in place is \<open>rev\<close>.\<close>

definition GetMessagesBefore ::
  "(nat \<Rightarrow> gorm) \<Rightarrow> uint64 \<Rightarrow> uint64 \<Rightarrow> nat \<Rightarrow> database \<Rightarrow> (message \<times> user) list db_result" where
  "GetMessagesBefore g roomID beforeID limit db =
     map_sum id rev (find_messages g True limit (\<lambda>m. msg_RoomID m = roomID \<and> msg_ID m < beforeID) db)"

definition GetLatestMessages ::
  "(nat \<Rightarrow> gorm) \<Rightarrow> uint64 \<Rightarrow> nat \<Rightarrow> database \<Rightarrow> (message \<times> user) list db_result" where
  "GetLatestMessages g roomID limit db =
     map_sum id rev (find_messages g True limit (\<lambda>m. msg_RoomID m = roomID) db)"

definition Message_Count :: "gorm \<Rightarrow> database \<Rightarrow> nat" where
  "Message_Count g db = count_or_zero (dCount (g_messages g) (\<lambda>_. True) (t_messages db))"

text \<open>\<open>cutoff\<close> is \<open>now.AddDate(0, 0, -retentionDays)\<close>.\<close>

definition CleanupOldMessages :: "gorm \<Rightarrow> (int \<Rightarrow> time) \<Rightarrow> int \<Rightarrow> database \<Rightarrow> unit db_result \<times> database" where
  "CleanupOldMessages g cutoff retentionDays db =
     (if retentionDays \<le> 0 then (Inr (), db)
      else with_rows (\<lambda>ms. db\<lparr>t_messages := ms\<rparr>) db
        (dDelete (g_messages g) (\<lambda>m. msg_CreatedAt m < cutoff (- retentionDays)) (t_messages db)))"

section \<open>Ingresses\<close>

definition Ingress_Create :: "gorm \<Rightarrow> room_ingress \<Rightarrow> database \<Rightarrow> room_ingress db_result \<times> database" where
  "Ingress_Create g i db =
     (case dCreate (g_ingresses g) i (t_ingresses db) of
        Inl err \<Rightarrow> (Inl err, db)
      | Inr (i', xs) \<Rightarrow> (Inr i', db\<lparr>t_ingresses := xs\<rparr>))"

definition Ingress_FindByID :: "gorm \<Rightarrow> uint64 \<Rightarrow> database \<Rightarrow> room_ingress db_result" where
  "Ingress_FindByID g i db = dFirst (g_ingresses g) (\<lambda>x. ing_ID x = i) (t_ingresses db)"

definition FindByIngressID :: "gorm \<Rightarrow> string \<Rightarrow> database \<Rightarrow> room_ingress db_result" where
  "FindByIngressID g i db = dFirst (g_ingresses g) (\<lambda>x. IngressID x = i) (t_ingresses db)"

definition FindByStreamKey :: "gorm \<Rightarrow> string \<Rightarrow> database \<Rightarrow> room_ingress db_result" where
  "FindByStreamKey g k db = dFirst (g_ingresses g) (\<lambda>x. StreamKey x = k) (t_ingresses db)"

definition ExistsByStreamKey :: "gorm \<Rightarrow> string \<Rightarrow> database \<Rightarrow> bool \<times> db_error option" where
  "ExistsByStreamKey g k db =
     (case dCount (g_ingresses g) (\<lambda>x. StreamKey x = k) (t_ingresses db) of
        Inl err \<Rightarrow> (False, Some err) | Inr n \<Rightarrow> (0 < n, None))"

definition Ingress_ListByRoom :: "gorm \<Rightarrow> uint64 \<Rightarrow> database \<Rightarrow> room_ingress list db_result" where
  "Ingress_ListByRoom g i db = dFind (g_ingresses g) (\<lambda>x. ing_RoomID x = i) (t_ingresses db)"

definition Ingress_Delete :: "gorm \<Rightarrow> uint64 \<Rightarrow> database \<Rightarrow> unit db_result \<times> database" where
  "Ingress_Delete g i db =
     with_rows (\<lambda>xs. db\<lparr>t_ingresses := xs\<rparr>) db (dDelete (g_ingresses g) (\<lambda>x. ing_ID x = i) (t_ingresses db))"

definition Ingress_SetActive :: "gorm \<Rightarrow> uint64 \<Rightarrow> bool \<Rightarrow> database \<Rightarrow> unit db_result \<times> database" where
  "Ingress_SetActive g i active db =
     with_rows (\<lambda>xs. db\<lparr>t_ingresses := xs\<rparr>) db
       (dUpdate (g_ingresses g) (\<lambda>x. ing_ID x = i) (\<lambda>x. x\<lparr>ing_IsActive := active\<rparr>) (t_ingresses db))"

record stream_room_ref =
  ref_StreamKey :: string
  ref_RoomID :: uint64
  ref_RoomName :: string
  ref_Label :: string

definition ListRoomRefsByStreamKeys :: "gorm \<Rightarrow> string list \<Rightarrow> database \<Rightarrow> stream_room_ref list db_result" where
  "ListRoomRefsByStreamKeys g streamKeys db =
     (if length streamKeys = 0 then Inr []
      else map_sum id (map (\<lambda>(i, r). \<lparr>ref_StreamKey = StreamKey i, ref_RoomID = ing_RoomID i,
                                      ref_RoomName = r_Name r, ref_Label = Label i\<rparr>))
        (g_refs_join g (\<lambda>i r. r_ID r = ing_RoomID i \<and> StreamKey i \<in> set streamKeys)
           (t_ingresses db) (t_rooms db)))"

section \<open>Friendships\<close>

definition between :: "uint64 \<Rightarrow> uint64 \<Rightarrow> friendship \<Rightarrow> bool" where
  "between a b f \<longleftrightarrow> (RequesterID f = a \<and> AddresseeID f = b) \<or> (RequesterID f = b \<and> AddresseeID f = a)"

definition Friendship_Create :: "gorm \<Rightarrow> friendship \<Rightarrow> database \<Rightarrow> unit db_result \<times> database" where
  "Friendship_Create g f db =
     (case dCreate (g_friendships g) f (t_friendships db) of
        Inl err \<Rightarrow> (Inl err, db)
      | Inr (f', fs) \<Rightarrow> (Inr (), db\<lparr>t_friendships := fs\<rparr>))"

definition FindByUsers :: "gorm \<Rightarrow> uint64 \<Rightarrow> uint64 \<Rightarrow> database \<Rightarrow> friendship db_result" where
  "FindByUsers g a b db = dFirst (g_friendships g) (between a b) (t_friendships db)"

definition UpdateStatus :: "gorm \<Rightarrow> time \<Rightarrow> uint64 \<Rightarrow> uint64 \<Rightarrow> string \<Rightarrow> database \<Rightarrow> unit db_result \<times> database" where
  "UpdateStatus g now requesterID addresseeID status db =
     with_rows (\<lambda>fs. db\<lparr>t_friendships := fs\<rparr>) db
       (dUpdate (g_friendships g) (\<lambda>f. RequesterID f = requesterID \<and> AddresseeID f = addresseeID)
          (\<lambda>f. f\<lparr>Status := status, f_UpdatedAt := now\<rparr>) (t_friendships db))"

definition ListFriends :: "gorm \<Rightarrow> uint64 \<Rightarrow> database \<Rightarrow> user list db_result" where
  "ListFriends g i db =
     g_users_join g (\<lambda>u f. (RequesterID f = i \<and> AddresseeID f = u_ID u \<and> Status f = ''accepted'') \<or>
                          (AddresseeID f = i \<and> RequesterID f = u_ID u \<and> Status f = ''accepted''))
       (t_users db) (t_friendships db)"

definition Repo_ListPendingRequests :: "(nat \<Rightarrow> gorm) \<Rightarrow> uint64 \<Rightarrow> database \<Rightarrow> (friendship \<times> user) list db_result" where
  "Repo_ListPendingRequests g i db =
     (case dFind (g_friendships (g 0)) (\<lambda>f. AddresseeID f = i \<and> Status f = ''pending'') (t_friendships db) of
        Inl err \<Rightarrow> Inl err | Inr fs \<Rightarrow> preload_users (g 1) RequesterID fs db)"

definition DeleteFriendship :: "gorm \<Rightarrow> uint64 \<Rightarrow> uint64 \<Rightarrow> database \<Rightarrow> unit db_result \<times> database" where
  "DeleteFriendship g a b db =
     with_rows (\<lambda>fs. db\<lparr>t_friendships := fs\<rparr>) db (dDelete (g_friendships g) (between a b) (t_friendships db))"

section \<open>VLAN peers\<close>

definition Peer_Create :: "gorm \<Rightarrow> wg_peer \<Rightarrow> database \<Rightarrow> wg_peer db_result \<times> database" where
  "Peer_Create g p db =
     (case dCreate (g_peers g) p (t_peers db) of
        Inl err \<Rightarrow> (Inl err, db)
      | Inr (p', ps) \<Rightarrow> (Inr p', db\<lparr>t_peers := ps\<rparr>))"

definition FindByRoomAndUser :: "gorm \<Rightarrow> uint64 \<Rightarrow> uint64 \<Rightarrow> database \<Rightarrow> wg_peer db_result" where
  "FindByRoomAndUser g roomID userID db =
     dFirst (g_peers g) (\<lambda>p. p_RoomID p = roomID \<and> p_UserID p = userID) (t_peers db)"

definition Peer_Update :: "gorm \<Rightarrow> wg_peer \<Rightarrow> database \<Rightarrow> unit db_result \<times> database" where
  "Peer_Update g p db = with_rows (\<lambda>ps. db\<lparr>t_peers := ps\<rparr>) db (dSave (g_peers g) p (t_peers db))"

definition Peer_ListByRoom :: "(nat \<Rightarrow> gorm) \<Rightarrow> uint64 \<Rightarrow> database \<Rightarrow> (wg_peer \<times> user) list db_result" where
  "Peer_ListByRoom g i db =
     (case dFind (g_peers (g 0)) (\<lambda>p. p_RoomID p = i) (t_peers db) of
        Inl err \<Rightarrow> Inl err | Inr ps \<Rightarrow> preload_users (g 1) p_UserID ps db)"

definition Peer_Delete :: "gorm \<Rightarrow> uint64 \<Rightarrow> uint64 \<Rightarrow> database \<Rightarrow> unit db_result \<times> database" where
  "Peer_Delete g roomID userID db =
     with_rows (\<lambda>ps. db\<lparr>t_peers := ps\<rparr>) db
       (dDelete (g_peers g) (\<lambda>p. p_RoomID p = roomID \<and> p_UserID p = userID) (t_peers db))"

definition CountByRoom :: "gorm \<Rightarrow> uint64 \<Rightarrow> database \<Rightarrow> nat db_result" where
  "CountByRoom g i db = dCount (g_peers g) (\<lambda>p. p_RoomID p = i) (t_peers db)"

text \<open>\<open>Pluck\<close>: one column of the rows found.\<close>

definition GetAllAssignedIPs :: "gorm \<Rightarrow> uint64 \<Rightarrow> database \<Rightarrow> string list db_result" where
  "GetAllAssignedIPs g i db =
     map_sum id (map AssignedIP) (dFind (g_peers g) (\<lambda>p. p_RoomID p = i) (t_peers db))"

section \<open>Facts\<close>

definition member :: "uint64 \<Rightarrow> uint64 \<Rightarrow> database \<Rightarrow> bool" where
  "member roomID userID db \<longleftrightarrow> (\<exists>m \<in> set (t_members db). m_RoomID m = roomID \<and> m_UserID m = userID)"

text \<open>Whatever the database does, a yes is the truth.\<close>

lemma IsMember_sound: "gorm_ok g \<Longrightarrow> IsMember g roomID userID db \<Longrightarrow> member roomID userID db"
  using driver_okD(5) [OF gorm_okD(3)]
  by (fastforce simp: IsMember_def count_or_zero_def member_def filter_empty_conv split: sum.splits)

lemma IsMember_complete:
  assumes "gorm_ok g" "member roomID userID db"
    and "\<exists>n. dCount (g_members g) (\<lambda>m. m_RoomID m = roomID \<and> m_UserID m = userID) (t_members db) = Inr n"
  shows "IsMember g roomID userID db"
proof -
  from assms(3) obtain n where
    n: "dCount (g_members g) (\<lambda>m. m_RoomID m = roomID \<and> m_UserID m = userID) (t_members db) = Inr n" by blast
  from driver_okD(5) [OF gorm_okD(3) [OF assms(1)] n] assms(2) show ?thesis
    by (auto simp: IsMember_def count_or_zero_def n member_def filter_empty_conv)
qed

lemma with_rows_cases:
  "with_rows put db res = (r, db') \<Longrightarrow> (\<exists>err. r = Inl err \<and> db' = db) \<or> (\<exists>rs. res = Inr rs \<and> r = Inr () \<and> db' = put rs)"
  by (auto simp: with_rows_def split: sum.splits)

lemma AddMember_cases:
  assumes "gorm_ok g" "AddMember g roomID userID role db = (r, db')"
  shows "(\<exists>err. r = Inl err \<and> db' = db) \<or>
     (r = Inr () \<and> \<not> member roomID userID db \<and> (\<exists>m. m_RoomID m = roomID \<and> m_UserID m = userID \<and>
        m_Role m = (if role = [] then ''member'' else role) \<and> db' = db\<lparr>t_members := t_members db @ [m]\<rparr>))"
proof (cases "dCreate (g_members g) \<lparr>m_RoomID = roomID, m_UserID = userID, m_Role = role, JoinedAt = 0\<rparr> (t_members db)")
  case (Inl err)
  with assms(2) show ?thesis by (auto simp: AddMember_def)
next
  case (Inr p)
  obtain m ms where p: "p = (m, ms)" by fastforce
  from driver_okD(1) [OF gorm_okD(3) [OF assms(1)] Inr [unfolded p]] obtain now where
    ms: "ms = t_members db @ [m]" "\<forall>x \<in> set (t_members db). \<not> clash member_schema x m"
    and m: "m = complete member_schema \<lparr>m_RoomID = roomID, m_UserID = userID, m_Role = role, JoinedAt = 0\<rparr> 0 now"
    by (auto simp: member_schema_def)
  from assms(2) Inr p have r: "r = Inr ()" "db' = db\<lparr>t_members := ms\<rparr>" by (auto simp: AddMember_def)
  have "m_RoomID m = roomID" "m_UserID m = userID" "m_Role m = (if role = [] then ''member'' else role)"
    by (simp_all add: m member_schema_def)
  moreover from this ms(2) have "\<not> member roomID userID db" by (auto simp: member_schema_def member_def)
  ultimately show ?thesis using r ms(1) by (intro disjI2 conjI exI [of _ m]) auto
qed

lemma RemoveMember_cases:
  assumes "gorm_ok g" "RemoveMember g roomID userID db = (r, db')"
  shows "(\<exists>err. r = Inl err \<and> db' = db) \<or>
     (r = Inr () \<and> db' = db\<lparr>t_members := filter (\<lambda>m. \<not> (m_RoomID m = roomID \<and> m_UserID m = userID)) (t_members db)\<rparr>)"
  using with_rows_cases [OF assms(2) [unfolded RemoveMember_def]]
    driver_okD(7) [OF gorm_okD(3) [OF assms(1)]] by blast

definition purge_room :: "uint64 \<Rightarrow> database \<Rightarrow> database" where
  "purge_room i db = db\<lparr>
     t_members := filter (\<lambda>m. m_RoomID m \<noteq> i) (t_members db),
     t_messages := filter (\<lambda>m. msg_RoomID m \<noteq> i) (t_messages db),
     t_ingresses := filter (\<lambda>x. ing_RoomID x \<noteq> i) (t_ingresses db),
     t_peers := filter (\<lambda>p. p_RoomID p \<noteq> i) (t_peers db),
     t_rooms := filter (\<lambda>r. r_ID r \<noteq> i) (t_rooms db)\<rparr>"

lemma Room_Delete_cases:
  assumes "\<forall>k. gorm_ok (g k)" "Room_Delete g i db = (r, db')"
  shows "(\<exists>err. r = Inl err \<and> db' = db) \<or> (r = Inr () \<and> db' = purge_room i db)"
proof (cases r)
  case (Inl err)
  with assms(2) show ?thesis by (auto simp: Room_Delete_def split: sum.splits)
next
  case (Inr u)
  with assms(2) obtain ms msgs ings peers rs where
    d: "dDelete (g_members (g 0)) (\<lambda>m. m_RoomID m = i) (t_members db) = Inr ms"
      "dDelete (g_messages (g 1)) (\<lambda>m. msg_RoomID m = i) (t_messages db) = Inr msgs"
      "dDelete (g_ingresses (g 2)) (\<lambda>x. ing_RoomID x = i) (t_ingresses db) = Inr ings"
      "dDelete (g_peers (g 3)) (\<lambda>p. p_RoomID p = i) (t_peers db) = Inr peers"
      "dDelete (g_rooms (g 4)) (\<lambda>r. r_ID r = i) (t_rooms db) = Inr rs"
    and db': "db' = db\<lparr>t_members := ms, t_messages := msgs, t_ingresses := ings, t_peers := peers, t_rooms := rs\<rparr>"
    by (auto simp: Room_Delete_def split: sum.splits)
  note ok = gorm_okD [OF spec [OF assms(1)]]
  from driver_okD(7) [OF ok(3) d(1)] driver_okD(7) [OF ok(4) d(2)] driver_okD(7) [OF ok(5) d(3)]
    driver_okD(7) [OF ok(7) d(4)] driver_okD(7) [OF ok(2) d(5)] Inr show ?thesis
    by (simp add: db' purge_room_def)
qed

text \<open>Preloading keeps the rows and their order.\<close>

lemma preload_users_fst: "preload_users g key xs db = Inr ys \<Longrightarrow> map fst ys = xs"
  by (auto simp: preload_users_def o_def split: sum.splits)

lemma Room_FindByID_room:
  assumes "\<forall>k. gorm_ok (g k)" "Room_FindByID g i db = Inr v"
  shows "rv_room v \<in> set (t_rooms db)" "r_ID (rv_room v) = i"
    "mset (map fst (rv_Members v)) = mset (filter (\<lambda>m. m_RoomID m = i) (t_members db))"
proof -
  from assms(2) obtain r owners ms where
    r: "dFirst (g_rooms (g 0)) (\<lambda>r. r_ID r = i) (t_rooms db) = Inr r" "rv_room v = r"
    and ms: "dFind (g_members (g 2)) (\<lambda>m. m_RoomID m = r_ID r) (t_members db) = Inr ms"
      "preload_users (g 3) m_UserID ms db = Inr (rv_Members v)"
    by (auto simp: Room_FindByID_def split: sum.splits)
  from driver_okD(2) [OF gorm_okD(2) [OF spec [OF assms(1)]] r(1)] r(2)
  show "rv_room v \<in> set (t_rooms db)" "r_ID (rv_room v) = i" by simp_all
  then show "mset (map fst (rv_Members v)) = mset (filter (\<lambda>m. m_RoomID m = i) (t_members db))"
    using driver_okD(4) [OF gorm_okD(3) [OF spec [OF assms(1)]] ms(1)] preload_users_fst [OF ms(2)] r(2)
    by simp
qed

text \<open>A page of messages: what is in it and what is not.\<close>

lemma find_messages_asc:
  assumes "\<forall>k. gorm_ok (g k)" "find_messages g False limit P db = Inr ms"
  shows "\<exists>ys. mset ys = mset (filter P (t_messages db)) \<and> map fst ms = take limit ys \<and> sorted (map msg_ID ys)"
proof -
  from assms(2) obtain xs where "dOrdered (g_messages (g 0)) False limit P (t_messages db) = Inr xs"
    "preload_users (g 1) SenderID xs db = Inr ms" by (auto simp: find_messages_def split: sum.splits)
  with driver_okD(9) [OF gorm_okD(4) [OF spec [OF assms(1)]], of 0 False limit P] preload_users_fst
  show ?thesis by (fastforce simp: message_schema_def)
qed

lemma find_messages_desc:
  assumes "\<forall>k. gorm_ok (g k)" "find_messages g True limit P db = Inr ms"
  shows "\<exists>ys. mset ys = mset (filter P (t_messages db)) \<and> map fst (rev ms) = rev (take limit (rev ys)) \<and>
           sorted (map msg_ID ys)"
proof -
  from assms(2) obtain xs where "dOrdered (g_messages (g 0)) True limit P (t_messages db) = Inr xs"
    "preload_users (g 1) SenderID xs db = Inr ms" by (auto simp: find_messages_def split: sum.splits)
  with driver_okD(9) [OF gorm_okD(4) [OF spec [OF assms(1)]], of 0 True limit P] preload_users_fst
  obtain ys where "mset ys = mset (filter P (t_messages db))" "map fst ms = take limit ys"
    "sorted (map msg_ID (rev ys))" by (fastforce simp: message_schema_def)
  then show ?thesis by (intro exI [of _ "rev ys"]) (simp add: rev_map [symmetric])
qed

end
