(* ===== verification/Go_Json.thy ===== *)
theory Go_Json
  imports Go_Strings
begin

text \<open>
  The part of Go's \<open>encoding/json\<close> that the server uses: decoding a value into a struct. The
  text is given parsed, as a value of \<open>json\<close>; \<open>JFrac\<close> is a number that is not written as an
  integer. A key sets the field whose tag it equals up to the case of ASCII letters, a later key
  wins, \<open>null\<close> leaves a field that is not a pointer as it is, and any mismatch of types is an
  error of the whole.
\<close>

datatype json = JNull | JBool bool | JNum int | JFrac string | JStr string | JArr "json list"
  | JObj "(string \<times> json) list"

definition lower_char :: "char \<Rightarrow> char" where
  "lower_char c = (let n = of_char c :: nat in if 65 \<le> n \<and> n \<le> 90 then char_of (n + 32) else c)"

text \<open>\<open>strings.ToLower\<close> on ASCII text.\<close>

definition ToLower :: "string \<Rightarrow> string" where
  "ToLower = map lower_char"

type_synonym 'a field_decoder = "json \<Rightarrow> 'a \<Rightarrow> 'a option"

definition as_uint64 :: "uint64 field_decoder" where
  "as_uint64 v cur = (case v of JNull \<Rightarrow> Some cur
     | JNum n \<Rightarrow> if 0 \<le> n \<and> n < 2 ^ 64 then Some (nat n) else None | _ \<Rightarrow> None)"

definition as_string :: "string field_decoder" where
  "as_string v cur = (case v of JNull \<Rightarrow> Some cur | JStr s \<Rightarrow> Some s | _ \<Rightarrow> None)"

definition as_bool :: "bool field_decoder" where
  "as_bool v cur = (case v of JNull \<Rightarrow> Some cur | JBool b \<Rightarrow> Some b | _ \<Rightarrow> None)"

text \<open>A pointer to a map, which \<open>null\<close> sets to nil, and a \<open>json.RawMessage\<close>, which takes anything.\<close>

definition as_object :: "(string \<times> json) list option field_decoder" where
  "as_object v cur = (case v of JNull \<Rightarrow> Some None | JObj kvs \<Rightarrow> Some (Some kvs) | _ \<Rightarrow> None)"

definition as_raw :: "json option field_decoder" where
  "as_raw v cur = Some (Some v)"

fun decode_values :: "'a field_decoder \<Rightarrow> json list \<Rightarrow> 'a \<Rightarrow> 'a option" where
  "decode_values dec [] cur = Some cur"
| "decode_values dec (v # vs) cur =
     (case dec v cur of None \<Rightarrow> None | Some cur' \<Rightarrow> decode_values dec vs cur')"

definition decode_field :: "'a field_decoder \<Rightarrow> 'a \<Rightarrow> string \<Rightarrow> json \<Rightarrow> 'a option" where
  "decode_field dec zero name j =
     (case j of
        JNull \<Rightarrow> Some zero
      | JObj kvs \<Rightarrow> decode_values dec (map snd (filter (\<lambda>(k, v). ToLower k = name) kvs)) zero
      | _ \<Rightarrow> None)"

text \<open>A field written once, under its own name, is read back.\<close>

lemma decode_field_once:
  assumes "ToLower name = name" "\<forall>(k, v) \<in> set kvs. ToLower k \<noteq> name"
    "dec v zero = Some x"
  shows "decode_field dec zero name (JObj ((name, v) # kvs)) = Some x"
proof -
  have "filter (\<lambda>(k, v). ToLower k = name) kvs = []" using assms(2) by (auto simp: filter_empty_conv)
  with assms(1,3) show ?thesis by (simp add: decode_field_def)
qed

end
