(* ===== verification/Http_Api.thy ===== *)
theory Http_Api
  imports Repositories Go_Json
begin

text \<open>
  What the handlers of \<open>server/internal/api\<close> share: the responses of \<open>pkg/util/response.go\<close>, the
  tokens of \<open>pkg/jwt\<close>, the middleware of \<open>internal/api/middleware\<close> and the reading of a request.
  A body arrives parsed (\<open>None\<close>: not JSON). The data of a response is the JSON value that the
  handler builds, the text for the user is left out. Gin, the validator, the JWT library, bcrypt
  and uuid are not part of the repository: they are the functions of the record \<open>env\<close>.
\<close>

section \<open>Responses\<close>

record response =
  resp_status :: int
  resp_code :: int
  resp_data :: json

definition mapCodeToHTTPStatus :: "int \<Rightarrow> int" where
  "mapCodeToHTTPStatus code =
     (if code = 20000 then 200
      else if 40001 \<le> code \<and> code < 40100 then 400
      else if 40101 \<le> code \<and> code < 40300 then 401
      else if 40301 \<le> code \<and> code < 40400 then 403
      else if 40401 \<le> code \<and> code < 40900 then 404
      else if 40901 \<le> code \<and> code < 50000 then 409
      else if 50001 \<le> code then 500
      else 500)"

definition Success :: "json \<Rightarrow> response" where
  "Success d = \<lparr>resp_status = 200, resp_code = 20000, resp_data = d\<rparr>"

definition Error :: "int \<Rightarrow> response" where
  "Error code = \<lparr>resp_status = mapCodeToHTTPStatus code, resp_code = code, resp_data = JNull\<rparr>"

definition ErrorWithStatus :: "int \<Rightarrow> int \<Rightarrow> response" where
  "ErrorWithStatus httpStatus code = \<lparr>resp_status = httpStatus, resp_code = code, resp_data = JNull\<rparr>"

definition JUint :: "uint64 \<Rightarrow> json" where
  "JUint n = JNum (int n)"

section \<open>Tokens\<close>

record claims =
  cl_UserID :: uint64
  cl_Username :: string
  cl_Role :: string
  cl_ExpiresAt :: time
  cl_IssuedAt :: time

datatype signing_method = HMAC string | OtherMethod string

text \<open>The library: a parsed token comes with its claims and with whether it is valid.\<close>

record jwt_lib =
  NewNumericDate :: "time \<Rightarrow> time"
  SignedString :: "signing_method \<Rightarrow> claims \<Rightarrow> string \<Rightarrow> string + string"
  ParseWithClaims :: "time \<Rightarrow> string \<Rightarrow> (signing_method \<Rightarrow> string option) \<Rightarrow> string + (claims \<times> bool)"

record auth_config =
  JWTSecret :: string
  JWTExpireHours :: int
  AdminToken :: string

definition hour :: duration where
  "hour = 3600 * second"

definition GenerateToken ::
  "jwt_lib \<Rightarrow> auth_config \<Rightarrow> time \<Rightarrow> time \<Rightarrow> uint64 \<Rightarrow> string \<Rightarrow> string \<Rightarrow> string + string" where
  "GenerateToken lib cfg now now' userID username role =
     SignedString lib (HMAC ''HS256'')
       \<lparr>cl_UserID = userID, cl_Username = username, cl_Role = role,
        cl_ExpiresAt = NewNumericDate lib (now + int64 (JWTExpireHours cfg * hour)),
        cl_IssuedAt = NewNumericDate lib now'\<rparr>
       (JWTSecret cfg)"

fun key_of :: "auth_config \<Rightarrow> signing_method \<Rightarrow> string option" where
  "key_of cfg (HMAC alg) = Some (JWTSecret cfg)"
| "key_of cfg (OtherMethod alg) = None"

definition ParseToken :: "jwt_lib \<Rightarrow> auth_config \<Rightarrow> time \<Rightarrow> string \<Rightarrow> string + claims" where
  "ParseToken lib cfg now tokenString =
     (case ParseWithClaims lib now tokenString (key_of cfg) of
        Inl err \<Rightarrow> Inl err
      | Inr (claims, valid) \<Rightarrow> if valid then Inr claims else Inl ''invalid token'')"

text \<open>
  What the documentation of the library promises: dates are cut to the second; a signed token is
  accepted with the same key and claims before it expires, and is an error from then on; a
  token is never accepted when the key function gives no key.
\<close>

definition jwt_ok :: "jwt_lib \<Rightarrow> bool" where
  "jwt_ok lib \<longleftrightarrow>
     (\<forall>t. NewNumericDate lib t = t - t mod second) \<and>
     (\<forall>alg claims key tok now kf.
        SignedString lib (HMAC alg) claims key = Inr tok \<longrightarrow> kf (HMAC alg) = Some key \<longrightarrow>
        (if now < cl_ExpiresAt claims then ParseWithClaims lib now tok kf = Inr (claims, True)
         else \<exists>err. ParseWithClaims lib now tok kf = Inl err)) \<and>
     (\<forall>now tok. \<exists>err. ParseWithClaims lib now tok (\<lambda>_. None) = Inl err)"

lemma jwt_okD:
  assumes "jwt_ok lib"
  shows "NewNumericDate lib t = t - t mod second"
    and "SignedString lib (HMAC alg) claims key = Inr tok \<Longrightarrow> kf (HMAC alg) = Some key \<Longrightarrow>
         now < cl_ExpiresAt claims \<Longrightarrow> ParseWithClaims lib now tok kf = Inr (claims, True)"
    and "SignedString lib (HMAC alg) claims key = Inr tok \<Longrightarrow> kf (HMAC alg) = Some key \<Longrightarrow>
         cl_ExpiresAt claims \<le> now \<Longrightarrow> \<exists>err. ParseWithClaims lib now tok kf = Inl err"
  using assms unfolding jwt_ok_def by (blast, metis, metis not_le)

section \<open>Middleware\<close>

text \<open>The values a request carries along; an absent one reads as zero or empty.\<close>

record gin_context =
  cx_userID :: "uint64 option"
  cx_username :: "string option"
  cx_role :: "string option"

definition no_context :: gin_context where
  "no_context = \<lparr>cx_userID = None, cx_username = None, cx_role = None\<rparr>"

definition the_userID :: "gin_context \<Rightarrow> uint64" where
  "the_userID cx = (case cx_userID cx of None \<Rightarrow> 0 | Some i \<Rightarrow> i)"

definition the_role :: "gin_context \<Rightarrow> string" where
  "the_role cx = (case cx_role cx of None \<Rightarrow> [] | Some r \<Rightarrow> r)"

text \<open>\<open>strings.SplitN(s, sep, 2)\<close>\<close>

definition SplitN2 :: "char \<Rightarrow> string \<Rightarrow> string list" where
  "SplitN2 sep s =
     (case dropWhile (\<lambda>c. c \<noteq> sep) s of [] \<Rightarrow> [s] | _ # rest \<Rightarrow> [takeWhile (\<lambda>c. c \<noteq> sep) s, rest])"

definition AuthMiddleware ::
  "jwt_lib \<Rightarrow> auth_config \<Rightarrow> time \<Rightarrow> string \<Rightarrow> gin_context \<Rightarrow> response + gin_context" where
  "AuthMiddleware lib cfg now authHeader cx =
     (if authHeader = [] then Inl (ErrorWithStatus 401 40101)
      else let parts = SplitN2 CHR '' '' authHeader in
      if \<not> (length parts = 2 \<and> parts ! 0 = ''Bearer'') then Inl (ErrorWithStatus 401 40101)
      else case ParseToken lib cfg now (parts ! 1) of
             Inl err \<Rightarrow> Inl (ErrorWithStatus 401 40101)
           | Inr claims \<Rightarrow> Inr (cx\<lparr>cx_userID := Some (cl_UserID claims),
                                 cx_username := Some (cl_Username claims), cx_role := Some (cl_Role claims)\<rparr>))"

definition AdminMiddleware :: "gin_context \<Rightarrow> response + gin_context" where
  "AdminMiddleware cx =
     (if cx_role cx \<noteq> Some ''super_admin'' then Inl (ErrorWithStatus 403 40302) else Inr cx)"

section \<open>Requests\<close>

text \<open>
  The validator judges a field by the tag written in the source. \<open>ShouldBindJSON\<close> decodes the body
  and, for the fields that have a \<open>binding\<close> tag, asks it too.
\<close>

datatype field = FString string | FUint uint64 | FStruct "field list"

type_synonym validator = "string \<Rightarrow> field \<Rightarrow> bool"

definition bind_string :: "string \<Rightarrow> json option \<Rightarrow> string option" where
  "bind_string name body = Option.bind body (decode_field as_string [] name)"

text \<open>
  The outside of a handler: one driver per statement, clock readings, draws, fresh uuids, the
  libraries, and how a time is written in JSON.
\<close>

record env =
  e_gorm :: "nat \<Rightarrow> gorm"
  e_valid :: validator
  e_clock :: "nat \<Rightarrow> time"
  e_rand :: "nat \<Rightarrow> random"
  e_uuid :: "nat \<Rightarrow> string"
  e_jwt :: jwt_lib
  e_hash :: "string \<Rightarrow> string + string"
  e_compare :: "string \<Rightarrow> string \<Rightarrow> bool"
  e_time :: "time \<Rightarrow> json"

definition env_ok :: "env \<Rightarrow> bool" where
  "env_ok w \<longleftrightarrow> (\<forall>k. gorm_ok (e_gorm w k))"

lemma env_okD: "env_ok w \<Longrightarrow> gorm_ok (e_gorm w k)"
  by (simp add: env_ok_def)

definition later :: "nat \<Rightarrow> (nat \<Rightarrow> 'a) \<Rightarrow> nat \<Rightarrow> 'a" where
  "later n g k = g (n + k)"

lemma env_ok_later: "env_ok w \<Longrightarrow> \<forall>k. gorm_ok (later n (e_gorm w) k)"
  by (simp add: env_ok_def later_def)

section \<open>Facts\<close>

text \<open>Every code in use has the status that its first three digits say.\<close>

definition codes :: "int set" where
  "codes = {40001, 40101, 40301, 40302, 40401, 40901, 50001}"

definition well_formed :: "response \<Rightarrow> bool" where
  "well_formed r \<longleftrightarrow>
     (resp_status r = 200 \<and> resp_code r = 20000) \<or>
     (resp_code r \<in> codes \<and> resp_status r = resp_code r div 100 \<and> resp_data r = JNull)"

lemma well_formed_Success [simp, intro]: "well_formed (Success d)"
  by (simp add: well_formed_def Success_def)

lemma well_formed_Error [simp]: "code \<noteq> 20000 \<Longrightarrow> well_formed (Error code) \<longleftrightarrow> code \<in> codes"
  by (auto simp: well_formed_def Error_def codes_def mapCodeToHTTPStatus_def)

lemma well_formed_ErrorWithStatus [simp]:
  "well_formed (ErrorWithStatus status code) \<longleftrightarrow> (status = 200 \<and> code = 20000) \<or> (code \<in> codes \<and> status = code div 100)"
  by (simp add: well_formed_def ErrorWithStatus_def)

lemma in_codes [simp]:
  "40001 \<in> codes" "40101 \<in> codes" "40301 \<in> codes" "40302 \<in> codes" "40401 \<in> codes" "40901 \<in> codes" "50001 \<in> codes"
  by (simp_all add: codes_def)

lemma resp_sel [simp]:
  "resp_status (Success d) = 200" "resp_code (Success d) = 20000" "resp_data (Success d) = d"
  "resp_code (Error code) = code" "resp_status (ErrorWithStatus status code) = status"
  "resp_code (ErrorWithStatus status code) = code"
  by (simp_all add: Success_def Error_def ErrorWithStatus_def)

lemma Success_inj [simp]: "Success d = Success d' \<longleftrightarrow> d = d'"
  by (simp add: Success_def)

lemma Success_not_Error [simp]:
  "code \<noteq> 20000 \<Longrightarrow> Success d \<noteq> Error code" "code \<noteq> 20000 \<Longrightarrow> Error code \<noteq> Success d"
  "Success d = ErrorWithStatus s code \<longleftrightarrow> s = 200 \<and> code = 20000 \<and> d = JNull"
  "ErrorWithStatus s code = Success d \<longleftrightarrow> s = 200 \<and> code = 20000 \<and> d = JNull"
  by (auto simp: Success_def Error_def ErrorWithStatus_def mapCodeToHTTPStatus_def)

lemma SplitN2_sep: "sep \<notin> set s \<Longrightarrow> SplitN2 sep (s @ sep # t) = [s, t]"
proof -
  assume "sep \<notin> set s"
  then have "dropWhile (\<lambda>c. c \<noteq> sep) (s @ sep # t) = sep # t" "takeWhile (\<lambda>c. c \<noteq> sep) (s @ sep # t) = s"
    by (induction s) auto
  then show ?thesis by (simp add: SplitN2_def)
qed

text \<open>A token that was generated opens the door to the same user until it expires, and not after.\<close>

lemma token_accepted:
  assumes "jwt_ok lib" "GenerateToken lib cfg now now' userID username role = Inr tok"
    and "t < now + int64 (JWTExpireHours cfg * hour) - second"
  shows "AuthMiddleware lib cfg t (''Bearer '' @ tok) cx =
           Inr (cx\<lparr>cx_userID := Some userID, cx_username := Some username, cx_role := Some role\<rparr>)"
proof -
  let ?e = "now + int64 (JWTExpireHours cfg * hour)"
  let ?c = "\<lparr>cl_UserID = userID, cl_Username = username, cl_Role = role,
        cl_ExpiresAt = NewNumericDate lib ?e, cl_IssuedAt = NewNumericDate lib now'\<rparr>"
  have "?e mod second < second" by (simp add: second_def)
  with assms(3) have "t < ?e - ?e mod second" by linarith
  then have "t < cl_ExpiresAt ?c" by (simp add: jwt_okD(1) [OF assms(1)])
  with assms(1,2) have "ParseWithClaims lib t tok (key_of cfg) = Inr (?c, True)"
    by (intro jwt_okD(2) [where key = "JWTSecret cfg" and alg = "''HS256''"]) (auto simp: GenerateToken_def)
  then have "ParseToken lib cfg t tok = Inr ?c" by (simp add: ParseToken_def)
  moreover have "SplitN2 CHR '' '' (''Bearer '' @ tok) = [''Bearer'', tok]"
    using SplitN2_sep [of "CHR '' ''" "''Bearer''" tok] by simp
  ultimately show ?thesis by (simp add: AuthMiddleware_def)
qed

lemma token_expires:
  assumes "jwt_ok lib" "GenerateToken lib cfg now now' userID username role = Inr tok"
    and "now + int64 (JWTExpireHours cfg * hour) \<le> t"
  shows "AuthMiddleware lib cfg t (''Bearer '' @ tok) cx = Inl (ErrorWithStatus 401 40101)"
proof -
  let ?e = "now + int64 (JWTExpireHours cfg * hour)"
  let ?c = "\<lparr>cl_UserID = userID, cl_Username = username, cl_Role = role,
        cl_ExpiresAt = NewNumericDate lib ?e, cl_IssuedAt = NewNumericDate lib now'\<rparr>"
  have "0 \<le> ?e mod second" by (simp add: second_def)
  with assms(3) have "cl_ExpiresAt ?c \<le> t" by (simp add: jwt_okD(1) [OF assms(1)])
  with assms(1,2) have "\<exists>err. ParseWithClaims lib t tok (key_of cfg) = Inl err"
    by (intro jwt_okD(3) [where key = "JWTSecret cfg" and alg = "''HS256''" and claims = ?c]) (auto simp: GenerateToken_def)
  then have "\<exists>err. ParseToken lib cfg t tok = Inl err" by (auto simp: ParseToken_def)
  moreover have "SplitN2 CHR '' '' (''Bearer '' @ tok) = [''Bearer'', tok]"
    using SplitN2_sep [of "CHR '' ''" "''Bearer''" tok] by simp
  ultimately show ?thesis by (auto simp: AuthMiddleware_def)
qed

end
