(* ===== verification/Go_Net.thy ===== *)
theory Go_Net
  imports Go_Strings
begin

text \<open>
  The part of Go's \<open>net\<close> package that the server uses: parsing and printing of IP addresses,
  CIDR prefixes and the address classes. An address is either four bytes or eight 16-bit
  groups; \<open>To4\<close> also accepts the IPv4-mapped IPv6 form.
\<close>

unbundle bit_operations_syntax

datatype ip = V4 byte byte byte byte | V6 "16 word list"

section \<open>Parsing\<close>

text \<open>An octet: one to three digits, no leading zero, at most 255.\<close>

definition parse_octet :: "string \<Rightarrow> byte option" where
  "parse_octet s =
     (case parse_digits s of None \<Rightarrow> None
      | Some n \<Rightarrow> if 255 < n \<or> (1 < length s \<and> hd s = CHR ''0'') then None else Some (of_nat n))"

definition parse_v4 :: "string \<Rightarrow> ip option" where
  "parse_v4 s =
     (case Split (CHR ''.'') s of
        [a, b, c, d] \<Rightarrow>
          (case (parse_octet a, parse_octet b, parse_octet c, parse_octet d) of
             (Some w, Some x, Some y, Some z) \<Rightarrow> Some (V4 w x y z)
           | _ \<Rightarrow> None)
      | _ \<Rightarrow> None)"

definition hex_value :: "char \<Rightarrow> nat option" where
  "hex_value c =
     (let n = of_char c :: nat
      in if 48 \<le> n \<and> n \<le> 57 then Some (n - 48)
         else if 97 \<le> n \<and> n \<le> 102 then Some (n - 87)
         else if 65 \<le> n \<and> n \<le> 70 then Some (n - 55) else None)"

definition is_hex :: "char \<Rightarrow> bool" where
  "is_hex c \<longleftrightarrow> hex_value c \<noteq> None"

definition hex_number :: "string \<Rightarrow> nat" where
  "hex_number s = foldl (\<lambda>n c. 16 * n + the (hex_value c)) 0 s"

text \<open>
  The loop over the groups: \<open>gs\<close> are the groups read so far, \<open>e\<close> is where \<open>::\<close> stood. The
  loop runs while fewer than eight groups are read, so the fuel of nine is enough.
\<close>

fun v6_groups :: "nat \<Rightarrow> 16 word list \<Rightarrow> nat option \<Rightarrow> string \<Rightarrow> (16 word list \<times> nat option) option" where
  "v6_groups 0 gs e s = None"
| "v6_groups (Suc fuel) gs e s =
     (if 8 \<le> length gs then (if s = [] then Some (gs, e) else None)
      else
        let hex = takeWhile is_hex s; rest = dropWhile is_hex s
        in if hex = [] \<or> 4 < length hex then None
           else if rest \<noteq> [] \<and> hd rest = CHR ''.'' then
             (if (e = None \<and> length gs \<noteq> 6) \<or> 6 < length gs then None
              else case parse_v4 s of
                Some (V4 w x y z) \<Rightarrow>
                  Some (gs @ [push_bit 8 (ucast w) OR ucast x, push_bit 8 (ucast y) OR ucast z], e)
              | _ \<Rightarrow> None)
           else
             let gs' = gs @ [of_nat (hex_number hex)]
             in case rest of
                  [] \<Rightarrow> Some (gs', e)
                | c # [] \<Rightarrow> None
                | c # d # t \<Rightarrow>
                    if c \<noteq> CHR '':'' then None
                    else if d = CHR '':'' then
                      (if e \<noteq> None then None
                       else if t = [] then Some (gs', Some (length gs'))
                       else v6_groups fuel gs' (Some (length gs')) t)
                    else v6_groups fuel gs' e (d # t))"

definition expand_v6 :: "16 word list \<Rightarrow> nat option \<Rightarrow> ip option" where
  "expand_v6 gs e =
     (if length gs < 8
      then case e of None \<Rightarrow> None
         | Some k \<Rightarrow> Some (V6 (take k gs @ replicate (8 - length gs) 0 @ drop k gs))
      else if e \<noteq> None then None else Some (V6 gs))"

definition parse_v6 :: "string \<Rightarrow> ip option" where
  "parse_v6 s =
     (if take 2 s = ''::'' then
        (if drop 2 s = [] then Some (V6 (replicate 8 0))
         else case v6_groups 9 [] (Some 0) (drop 2 s) of None \<Rightarrow> None
            | Some (gs, e) \<Rightarrow> expand_v6 gs e)
      else case v6_groups 9 [] None s of None \<Rightarrow> None | Some (gs, e) \<Rightarrow> expand_v6 gs e)"

text \<open>\<open>net.ParseIP\<close>: the first of dot, colon and percent decides; a zone is refused.\<close>

definition ParseIP :: "string \<Rightarrow> ip option" where
  "ParseIP s =
     (case find (\<lambda>c. c \<in> {CHR ''.'', CHR '':'', CHR ''%''}) s of
        Some c \<Rightarrow>
          if c = CHR ''.'' then parse_v4 s
          else if c = CHR '':'' \<and> CHR ''%'' \<notin> set s then parse_v6 s else None
      | None \<Rightarrow> None)"

fun To4 :: "ip \<Rightarrow> ip option" where
  "To4 (V4 a b c d) = Some (V4 a b c d)"
| "To4 (V6 gs) =
     (if length gs = 8 \<and> take 6 gs = [0, 0, 0, 0, 0, 0xffff]
      then Some (V4 (ucast (drop_bit 8 (gs ! 6))) (ucast (gs ! 6))
                    (ucast (drop_bit 8 (gs ! 7))) (ucast (gs ! 7))) else None)"

definition dotted :: "byte \<Rightarrow> byte \<Rightarrow> byte \<Rightarrow> byte \<Rightarrow> string" where
  "dotted a b c d = digits (unat a) @ ''.'' @ digits (unat b) @ ''.'' @ digits (unat c) @ ''.'' @ digits (unat d)"

text \<open>\<open>ip.To4().String()\<close>, the only use of \<open>String\<close>.\<close>

definition IPv4_String :: "ip \<Rightarrow> string option" where
  "IPv4_String i = (case To4 i of Some (V4 a b c d) \<Rightarrow> Some (dotted a b c d) | _ \<Rightarrow> None)"

section \<open>CIDR prefixes\<close>

definition mask_byte :: "nat \<Rightarrow> byte \<Rightarrow> byte" where
  "mask_byte ones b = (b AND NOT (mask (8 - min 8 ones)))"

definition mask_group :: "nat \<Rightarrow> 16 word \<Rightarrow> 16 word" where
  "mask_group ones g = (g AND NOT (mask (16 - min 16 ones)))"

fun mask_ip :: "nat \<Rightarrow> ip \<Rightarrow> ip" where
  "mask_ip n (V4 a b c d) =
     V4 (mask_byte n a) (mask_byte (n - 8) b) (mask_byte (n - 16) c) (mask_byte (n - 24) d)"
| "mask_ip n (V6 gs) = V6 (map (\<lambda>(i, g). mask_group (n - 16 * i) g) (enumerate 0 gs))"

text \<open>\<open>net.ParseCIDR\<close>: the address, the masked network address and the prefix length.\<close>

definition ParseCIDR :: "string \<Rightarrow> (ip \<times> ip \<times> nat) option" where
  "ParseCIDR s =
     (let addr = takeWhile (\<lambda>c. c \<noteq> CHR ''/'') s;
          mask = dropWhile (\<lambda>c. c \<noteq> CHR ''/'') s
      in if mask = [] then None
         else case ParseIP addr of None \<Rightarrow> None
         | Some i \<Rightarrow>
             (case parse_digits (tl mask) of None \<Rightarrow> None
              | Some n \<Rightarrow>
                  if (case i of V4 _ _ _ _ \<Rightarrow> 32 | V6 _ \<Rightarrow> 128) < n then None
                  else Some (i, mask_ip n i, n)))"

section \<open>Address classes of IPv4\<close>

definition IsLoopback :: "byte \<Rightarrow> bool" where
  "IsLoopback a \<longleftrightarrow> a = 127"

definition IsLinkLocalUnicast :: "byte \<Rightarrow> byte \<Rightarrow> bool" where
  "IsLinkLocalUnicast a b \<longleftrightarrow> a = 169 \<and> b = 254"

definition IsMulticast :: "byte \<Rightarrow> bool" where
  "IsMulticast a \<longleftrightarrow> a AND 0xf0 = 0xe0"

definition IsPrivate :: "byte \<Rightarrow> byte \<Rightarrow> bool" where
  "IsPrivate a b \<longleftrightarrow> a = 10 \<or> (a = 172 \<and> b AND 0xf0 = 16) \<or> (a = 192 \<and> b = 168)"

definition IsGlobalUnicast :: "byte \<Rightarrow> byte \<Rightarrow> byte \<Rightarrow> byte \<Rightarrow> bool" where
  "IsGlobalUnicast a b c d \<longleftrightarrow>
     [a, b, c, d] \<noteq> [255, 255, 255, 255] \<and> [a, b, c, d] \<noteq> [0, 0, 0, 0] \<and>
     \<not> IsLoopback a \<and> \<not> IsMulticast a \<and> \<not> IsLinkLocalUnicast a b"

section \<open>Printing and parsing\<close>

lemma digits_leading: "n \<noteq> 0 \<Longrightarrow> hd (digits n) \<noteq> CHR ''0''"
proof (induction n rule: digits.induct)
  case (1 n)
  have char: "char_of (48 + n) \<noteq> CHR ''0''" if "n < 10" "n \<noteq> 0"
  proof
    assume "char_of (48 + n) = CHR ''0''"
    then have "of_char (char_of (48 + n) :: char) = (48 :: nat)" by simp
    with that show False by (simp add: of_char_of take_bit_eq_mod)
  qed
  have "digits (n div 10) \<noteq> []" by (subst digits.simps) simp
  with 1 char show ?case by (subst digits.simps) auto
qed

lemma parse_octet_digits: "parse_octet (digits (unat a)) = Some a"
proof -
  have "unat a < 256" using unsigned_less [of a, where ?'a = nat] by simp
  moreover have "length (digits 0) = 1" by (subst digits.simps) simp
  ultimately show ?thesis
    using digits_leading [of "unat a"]
    by (cases "unat a = 0") (auto simp: parse_octet_def parse_digits_digits unat_eq_zero)
qed

lemma dot_not_digit: "CHR ''.'' \<notin> set (digits n)" "CHR ''/'' \<notin> set (digits n)"
  using digits_digits [of n] by (auto simp: list_all_iff is_digit_def)

lemma Split_append: "sep \<notin> set s \<Longrightarrow> Split sep (s @ sep # t) = s # Split sep t"
  by (induction s) auto

lemma ParseIP_dotted: "ParseIP (dotted a b c d) = Some (V4 a b c d)"
proof -
  let ?s = "dotted a b c d"
  have "Split (CHR ''.'') ?s = [digits (unat a), digits (unat b), digits (unat c), digits (unat d)]"
    by (simp add: dotted_def Split_append Split_no_sep dot_not_digit)
  then have v4: "parse_v4 ?s = Some (V4 a b c d)" by (simp add: parse_v4_def parse_octet_digits)
  have none: "find (\<lambda>c. c \<in> {CHR ''.'', CHR '':'', CHR ''%''}) (digits n @ CHR ''.'' # t) = Some (CHR ''.'')" for n and t
  proof -
    have "\<forall>c \<in> set (digits n). c \<notin> {CHR ''.'', CHR '':'', CHR ''%''}"
      using digits_digits [of n] by (auto simp: list_all_iff is_digit_def)
    moreover have "find P (xs @ x # t) = Some x" if "\<forall>c \<in> set xs. \<not> P c" "P x" for P xs x t
      using that by (induction xs) auto
    note this [of "digits n" "\<lambda>c. c \<in> {CHR ''.'', CHR '':'', CHR ''%''}" "CHR ''.''" t]
    ultimately show ?thesis by blast
  qed
  show ?thesis using none [of "unat a"] v4 by (simp add: ParseIP_def dotted_def)
qed

lemma IPv4_String_iff:
  "IPv4_String i = Some s \<longleftrightarrow> (\<exists>a b c d. To4 i = Some (V4 a b c d) \<and> s = dotted a b c d)"
  unfolding IPv4_String_def by (cases "To4 i"; cases "the (To4 i)") auto

lemma dotted_nonempty [simp]: "dotted a b c d \<noteq> []" "[] \<noteq> dotted a b c d"
  by (simp_all add: dotted_def)

lemma IPv4_String_parse: "IPv4_String i = Some s \<Longrightarrow> ParseIP s = To4 i"
  by (auto simp: IPv4_String_iff ParseIP_dotted)

end
