(* ===== verification/Wireguard.thy ===== *)
theory Wireguard
  imports Repositories Go_Net
begin

text \<open>
  \<open>server/internal/wg/coordinator.go\<close>: the WireGuard interface of the server and the peers of
  the virtual network. The keys of \<open>wgtypes\<close>, the device behind \<open>wgctrl\<close>, commands and files
  are parameters. The device is the list of the configurations it accepted, in order. The code
  slices \<open>publicKeyStr[:8]\<close> for its log, which panics on a shorter text: the value \<open>None\<close>.
\<close>

section \<open>State\<close>

record wg_config =
  ServerIP :: string
  ListenPort :: int
  ServerPrivateKey :: string
  PrivateKeyPath :: string
  Subnet :: string
  GatewayIP :: string

record 'k wgtypes =
  ParseKey :: "string \<Rightarrow> 'k option"
  GeneratePrivateKey :: "string + 'k"
  KeyString :: "'k \<Rightarrow> string"
  PublicKeyOf :: "'k \<Rightarrow> 'k"

text \<open>
  What \<open>wgtypes\<close> documents: a key is 32 bytes in base64, so its text is not short and has no
  white space, and the text of a key parses to that key.
\<close>

definition wgtypes_ok :: "'k wgtypes \<Rightarrow> bool" where
  "wgtypes_ok ty \<longleftrightarrow>
     (\<forall>s k. ParseKey ty s = Some k \<longrightarrow> 8 \<le> length s) \<and>
     (\<forall>k. ParseKey ty (KeyString ty k) = Some k \<and> list_all (\<lambda>c. \<not> is_space c) (KeyString ty k))"

datatype 'k device_config = SetInterface 'k int | PutPeer 'k ip | DropPeer 'k

type_synonym 'k device = "'k device_config \<Rightarrow> string option"

record 'k coordinator =
  co_cfg :: wg_config
  co_client :: bool
  co_device :: "'k device_config list"

datatype wg_error =
    InvalidPersistedKey | ReadKeyFailed string | GenerateFailed string | MkdirFailed string
  | PersistFailed string | CreateInterfaceFailed string | ClientFailed string | InvalidServerKey
  | ConfigureFailed string | InvalidSubnet | BringUpFailed string | AllocatedIPsFailed db_error
  | OnlyIPv4 | NoAvailableIP | UpdateKeyFailed db_error | CreatePeerFailed db_error

definition NewCoordinator :: "wg_config \<Rightarrow> 'k coordinator" where
  "NewCoordinator cfg = \<lparr>co_cfg = cfg, co_client = False, co_device = []\<rparr>"

section \<open>The key of the server\<close>

datatype file_read = FileContent string | NotExist | FileError string

datatype os_effect = Ran "string list" | Wrote string string

record wg_os =
  RunCommand :: "string list \<Rightarrow> string option"
  os_ReadFile :: "string \<Rightarrow> file_read"
  MkdirParent :: "string \<Rightarrow> string option"
  os_WriteFile :: "string \<Rightarrow> string option"
  SocketSeen :: "nat \<Rightarrow> bool"
  wgctrl_New :: "string option"

definition key_path :: "wg_config \<Rightarrow> string" where
  "key_path cfg =
     (let p = TrimSpace (PrivateKeyPath cfg) in if p = [] then ''./data/wireguard.key'' else p)"

definition loadOrCreatePrivateKey ::
  "'k wgtypes \<Rightarrow> wg_os \<Rightarrow> wg_config \<Rightarrow> wg_error option \<times> wg_config \<times> os_effect list" where
  "loadOrCreatePrivateKey ty os cfg =
     (if TrimSpace (ServerPrivateKey cfg) \<noteq> [] then (None, cfg, [])
      else
        let keyPath = key_path cfg
        in case os_ReadFile os keyPath of
             FileContent data \<Rightarrow>
               let keyText = TrimSpace data
               in if ParseKey ty keyText = None then (Some InvalidPersistedKey, cfg, [])
                  else (None, cfg\<lparr>ServerPrivateKey := keyText\<rparr>, [])
           | FileError err \<Rightarrow> (Some (ReadKeyFailed err), cfg, [])
           | NotExist \<Rightarrow>
          (case GeneratePrivateKey ty of
             Inl err \<Rightarrow> (Some (GenerateFailed err), cfg, [])
           | Inr key \<Rightarrow>
          (case MkdirParent os keyPath of
             Some err \<Rightarrow> (Some (MkdirFailed err), cfg, [])
           | None \<Rightarrow>
          (case os_WriteFile os keyPath of
             Some err \<Rightarrow> (Some (PersistFailed err), cfg, [])
           | None \<Rightarrow> (None, cfg\<lparr>ServerPrivateKey := KeyString ty key\<rparr>,
                        [Wrote keyPath (KeyString ty key @ [CHR 0x0A])])))))"

section \<open>The interface\<close>

definition createInterface :: "wg_os \<Rightarrow> wg_error option \<times> os_effect list" where
  "createInterface os =
     (let add = [''ip'', ''link'', ''add'', ''dev'', ''wg0'', ''type'', ''wireguard''];
          userspace = [''wireguard-go'', ''wg0'']
      in if RunCommand os add = None then (None, [Ran add])
         else case RunCommand os userspace of
                Some err \<Rightarrow> (Some (CreateInterfaceFailed err), [Ran add, Ran userspace])
              | None \<Rightarrow>
                  if list_ex (SocketSeen os) [0..<20] then (None, [Ran add, Ran userspace])
                  else (Some (CreateInterfaceFailed ''socket''), [Ran add, Ran userspace]))"

definition ensureProcSysctl :: "wg_os \<Rightarrow> string \<Rightarrow> string \<Rightarrow> string option \<times> os_effect list" where
  "ensureProcSysctl os path expected =
     (if (case os_ReadFile os path of FileContent current \<Rightarrow> TrimSpace current = expected | _ \<Rightarrow> False)
      then (None, [])
      else case os_WriteFile os path of
             Some err \<Rightarrow> (Some err, [])
           | None \<Rightarrow> (None, [Wrote path expected]))"

text \<open>The code ranges over a map of the three settings, in any order; failures are only logged.\<close>

definition sysctl_settings :: "(string \<times> string) list" where
  "sysctl_settings = [(''/proc/sys/net/ipv4/ip_forward'', ''1''),
     (''/proc/sys/net/ipv4/conf/all/rp_filter'', ''0''),
     (''/proc/sys/net/ipv4/conf/wg0/rp_filter'', ''0'')]"

definition iptables_commands :: "string list list" where
  "iptables_commands = map ((#) ''iptables'')
     [[''-P'', ''FORWARD'', ''ACCEPT''], [''-F'', ''FORWARD''],
      [''-A'', ''FORWARD'', ''-i'', ''wg0'', ''-o'', ''wg0'', ''-j'', ''ACCEPT''],
      [''-A'', ''FORWARD'', ''-i'', ''wg0'', ''-j'', ''ACCEPT''],
      [''-A'', ''FORWARD'', ''-o'', ''wg0'', ''-m'', ''state'', ''--state'', ''RELATED,ESTABLISHED'',
       ''-j'', ''ACCEPT''],
      [''-L'', ''FORWARD'', ''-n'', ''-v'']]"

text \<open>\<open>reloadPeers\<close> only logs: the device learns of a peer when it joins again.\<close>

definition reloadPeers :: "'k coordinator \<Rightarrow> wg_error option \<times> 'k coordinator" where [simp]:
  "reloadPeers c = (None, c)"

definition InitInterface ::
  "'k wgtypes \<Rightarrow> wg_os \<Rightarrow> 'k device \<Rightarrow> 'k coordinator \<Rightarrow> wg_error option \<times> 'k coordinator \<times> os_effect list" where
  "InitInterface ty os ConfigureDevice c =
     (case loadOrCreatePrivateKey ty os (co_cfg c) of
        (Some err, cfg, eff0) \<Rightarrow> (Some err, c\<lparr>co_cfg := cfg\<rparr>, eff0)
      | (None, cfg, eff0) \<Rightarrow>
     (let c1 = c\<lparr>co_cfg := cfg\<rparr> in
      case createInterface os of
        (Some err, eff1) \<Rightarrow> (Some err, c1, eff0 @ eff1)
      | (None, eff1) \<Rightarrow>
     (case wgctrl_New os of
        Some err \<Rightarrow> (Some (ClientFailed err), c1, eff0 @ eff1)
      | None \<Rightarrow>
     (case ParseKey ty (ServerPrivateKey cfg) of
        None \<Rightarrow> (Some InvalidServerKey, c1\<lparr>co_client := False\<rparr>, eff0 @ eff1)
      | Some privateKey \<Rightarrow>
     (case ConfigureDevice (SetInterface privateKey (ListenPort cfg)) of
        Some err \<Rightarrow> (Some (ConfigureFailed err), c1\<lparr>co_client := False\<rparr>, eff0 @ eff1)
      | None \<Rightarrow>
     (let c2 = c1\<lparr>co_client := True,
                   co_device := co_device c @ [SetInterface privateKey (ListenPort cfg)]\<rparr> in
      case ParseCIDR (Subnet cfg) of
        None \<Rightarrow> (Some InvalidSubnet, c2, eff0 @ eff1)
      | Some (_, _, ones) \<Rightarrow>
     (let addr = GatewayIP cfg @ ''/'' @ digits ones;
          up = [''ip'', ''link'', ''set'', ''wg0'', ''up''];
          eff2 = eff0 @ eff1 @ [Ran [''ip'', ''addr'', ''flush'', ''dev'', ''wg0''],
                   Ran [''ip'', ''addr'', ''add'', addr, ''dev'', ''wg0''], Ran up] in
      case RunCommand os up of
        Some err \<Rightarrow> (Some (BringUpFailed err), c2, eff2)
      | None \<Rightarrow>
          (None, snd (reloadPeers c2), eff2 @ concat (map (\<lambda>(path, val). snd (ensureProcSysctl os path val)) sysctl_settings)
                      @ map Ran iptables_commands))))))))"

text \<open>\<open>GetServerConfig\<close>\<close>

record server_config =
  ServerPublicKey :: string
  ServerEndpoint :: string
  sc_ListenPort :: int
  sc_DNS :: string

definition GetServerConfig :: "'k wgtypes \<Rightarrow> 'k coordinator \<Rightarrow> server_config" where
  "GetServerConfig ty c =
     (let cfg = co_cfg c;
          serverPublicKey =
            (if ServerPrivateKey cfg \<noteq> []
             then case ParseKey ty (ServerPrivateKey cfg) of
                    Some privateKey \<Rightarrow> KeyString ty (PublicKeyOf ty privateKey) | None \<Rightarrow> []
             else [])
      in \<lparr>ServerPublicKey = serverPublicKey,
          ServerEndpoint = ServerIP cfg @ '':'' @ Itoa (ListenPort cfg),
          sc_ListenPort = ListenPort cfg, sc_DNS = GatewayIP cfg\<rparr>)"

section \<open>Addresses\<close>

definition AllocateIP :: "gorm \<Rightarrow> wg_config \<Rightarrow> uint64 \<Rightarrow> database \<Rightarrow> wg_error + string" where
  "AllocateIP g cfg roomID db =
     (case ParseCIDR (Subnet cfg) of None \<Rightarrow> Inl InvalidSubnet
      | Some (_, ipNet, ones) \<Rightarrow>
     (case GetAllAssignedIPs g roomID db of Inl err \<Rightarrow> Inl (AllocatedIPsFailed err)
      | Inr usedIPs \<Rightarrow>
     (let usedSet = map (\<lambda>s. hd (Split (CHR ''/'') s)) usedIPs @ [GatewayIP cfg] in
      case To4 ipNet of
        Some (V4 a b c d) \<Rightarrow>
          (case find (\<lambda>candidate. candidate \<notin> set usedSet)
                  (map (\<lambda>i. dotted a b c (of_nat i)) [2..<255]) of
             Some candidate \<Rightarrow> Inr (candidate @ ''/'' @ digits ones)
           | None \<Rightarrow> Inl NoAvailableIP)
      | _ \<Rightarrow> Inl OnlyIPv4)))"

section \<open>Peers\<close>

definition addPeerToDevice ::
  "'k wgtypes \<Rightarrow> 'k device \<Rightarrow> string \<Rightarrow> string \<Rightarrow> 'k coordinator \<Rightarrow> 'k coordinator option" where
  "addPeerToDevice ty ConfigureDevice publicKeyStr assignedIP c =
     (if \<not> co_client c then Some c
      else case ParseKey ty publicKeyStr of None \<Rightarrow> Some c
      | Some pubKey \<Rightarrow>
     (case ParseCIDR assignedIP of None \<Rightarrow> Some c
      | Some (i, _, _) \<Rightarrow>
          let c' = (if ConfigureDevice (PutPeer pubKey i) = None
                    then c\<lparr>co_device := co_device c @ [PutPeer pubKey i]\<rparr> else c)
          in if length publicKeyStr < 8 then None else Some c'))"

definition removePeerFromDevice ::
  "'k wgtypes \<Rightarrow> 'k device \<Rightarrow> string \<Rightarrow> 'k coordinator \<Rightarrow> 'k coordinator option" where
  "removePeerFromDevice ty ConfigureDevice publicKeyStr c =
     (if \<not> co_client c then Some c
      else case ParseKey ty publicKeyStr of None \<Rightarrow> Some c
      | Some pubKey \<Rightarrow>
          if ConfigureDevice (DropPeer pubKey) \<noteq> None then Some c
          else if length publicKeyStr < 8 then None
          else Some (c\<lparr>co_device := co_device c @ [DropPeer pubKey]\<rparr>))"

definition RegisterPeer ::
  "(nat \<Rightarrow> gorm) \<Rightarrow> 'k wgtypes \<Rightarrow> 'k device \<Rightarrow> uint64 \<Rightarrow> uint64 \<Rightarrow> string \<Rightarrow> database \<Rightarrow> 'k coordinator
     \<Rightarrow> ((wg_error + wg_peer) \<times> database \<times> 'k coordinator) option" where
  "RegisterPeer g ty dev roomID userID publicKey db c =
     (case FindByRoomAndUser (g 0) roomID userID db of
        Inr existing \<Rightarrow>
          if PublicKey existing \<noteq> publicKey then
            (let oldKey = PublicKey existing; peer = existing\<lparr>PublicKey := publicKey\<rparr> in
             case Peer_Update (g 1) peer db of
               (Inl err, db1) \<Rightarrow> Some (Inl (UpdateKeyFailed err), db1, c)
             | (Inr _, db1) \<Rightarrow> do {
                 c1 \<leftarrow> removePeerFromDevice ty dev oldKey c;
                 c2 \<leftarrow> addPeerToDevice ty dev (PublicKey peer) (AssignedIP peer) c1;
                 Some (Inr peer, db1, c2)
               })
          else do {
            c1 \<leftarrow> addPeerToDevice ty dev (PublicKey existing) (AssignedIP existing) c;
            Some (Inr existing, db, c1)
          }
      | Inl _ \<Rightarrow>
     (case AllocateIP (g 1) (co_cfg c) roomID db of
        Inl err \<Rightarrow> Some (Inl err, db, c)
      | Inr assignedIP \<Rightarrow>
     (case Peer_Create (g 2) \<lparr>p_ID = 0, p_RoomID = roomID, p_UserID = userID, PublicKey = publicKey,
             AssignedIP = assignedIP, LastHandshakeAt = None, p_CreatedAt = 0\<rparr> db of
        (Inl err, db1) \<Rightarrow> Some (Inl (CreatePeerFailed err), db1, c)
      | (Inr peer, db1) \<Rightarrow> do {
          c1 \<leftarrow> addPeerToDevice ty dev publicKey assignedIP c;
          Some (Inr peer, db1, c1)
        })))"

definition UnregisterPeer ::
  "(nat \<Rightarrow> gorm) \<Rightarrow> 'k wgtypes \<Rightarrow> 'k device \<Rightarrow> uint64 \<Rightarrow> uint64 \<Rightarrow> database \<Rightarrow> 'k coordinator
     \<Rightarrow> (unit db_result \<times> database \<times> 'k coordinator) option" where
  "UnregisterPeer g ty dev roomID userID db c = do {
     c1 \<leftarrow> (case FindByRoomAndUser (g 0) roomID userID db of
              Inr peer \<Rightarrow> removePeerFromDevice ty dev (PublicKey peer) c
            | Inl _ \<Rightarrow> Some c);
     (case Peer_Delete (g 1) roomID userID db of (res, db1) \<Rightarrow> Some (res, db1, c1))
   }"

definition GetPeers :: "(nat \<Rightarrow> gorm) \<Rightarrow> uint64 \<Rightarrow> database \<Rightarrow> (wg_peer \<times> user) list db_result" where
  "GetPeers g roomID = Peer_ListByRoom g roomID"


section \<open>The addresses of a room\<close>

definition vlan_net :: "wg_config \<Rightarrow> (byte \<times> byte \<times> byte \<times> nat) option" where
  "vlan_net cfg =
     (case ParseCIDR (Subnet cfg) of
        Some (_, ipNet, ones) \<Rightarrow> (case To4 ipNet of Some (V4 a b c d) \<Rightarrow> Some (a, b, c, ones) | _ \<Rightarrow> None)
      | None \<Rightarrow> None)"

definition host_of :: "string \<Rightarrow> string" where
  "host_of s = hd (Split (CHR ''/'') s)"

definition in_use :: "wg_config \<Rightarrow> uint64 \<Rightarrow> database \<Rightarrow> string \<Rightarrow> bool" where
  "in_use cfg roomID db host \<longleftrightarrow> host = GatewayIP cfg \<or>
     host \<in> (host_of \<circ> AssignedIP) ` {p \<in> set (t_peers db). p_RoomID p = roomID}"

definition host_address :: "byte \<times> byte \<times> byte \<times> nat \<Rightarrow> nat \<Rightarrow> string" where
  "host_address net k = (case net of (a, b, c, ones) \<Rightarrow> dotted a b c (of_nat k))"

definition prefix_address :: "byte \<times> byte \<times> byte \<times> nat \<Rightarrow> nat \<Rightarrow> string" where
  "prefix_address net k = host_address net k @ ''/'' @ digits (snd (snd (snd net)))"

lemma host_of_prefix [simp]: "host_of (prefix_address net k) = host_address net k"
proof -
  obtain a b c ones where net: "net = (a, b, c, ones)" by (cases net)
  have "CHR ''/'' \<notin> set (dotted a b c d)" for d by (auto simp: dotted_def dot_not_digit)
  then show ?thesis
    by (simp add: net host_of_def prefix_address_def host_address_def Split_append)
qed

lemma dotted_inj: "dotted a b c d = dotted a' b' c' d' \<longleftrightarrow> a = a' \<and> b = b' \<and> c = c' \<and> d = d'"
  by (metis ParseIP_dotted ip.inject(1) option.inject)

lemma byte_of_nat_inj: "k < 256 \<Longrightarrow> j < 256 \<Longrightarrow> (of_nat k :: byte) = of_nat j \<longleftrightarrow> k = j"
proof -
  have "unat (of_nat i :: byte) = i" if "i < 256" for i
    using that by (intro of_nat_inverse [OF refl]) simp
  then show "k < 256 \<Longrightarrow> j < 256 \<Longrightarrow> (of_nat k :: byte) = of_nat j \<longleftrightarrow> k = j" by metis
qed

lemma host_address_inj: "k < 256 \<Longrightarrow> j < 256 \<Longrightarrow> host_address net k = host_address net j \<longleftrightarrow> k = j"
  by (cases net) (simp add: host_address_def dotted_inj byte_of_nat_inj)

lemma find_first_index:
  "find P (map f [m..<n]) = (if \<exists>k. m \<le> k \<and> k < n \<and> P (f k)
     then Some (f (LEAST k. m \<le> k \<and> k < n \<and> P (f k))) else None)"
proof (cases "\<exists>k. m \<le> k \<and> k < n \<and> P (f k)")
  case True
  let ?k = "LEAST k. m \<le> k \<and> k < n \<and> P (f k)"
  from LeastI_ex [OF True] have k: "m \<le> ?k" "?k < n" "P (f ?k)" by simp_all
  have "\<not> P (f j)" if "m \<le> j" "j < ?k" for j using not_less_Least [OF that(2)] that k(2) by auto
  with k have "find P (map f [m..<n]) = Some (f ?k)"
    unfolding find_Some_iff by (intro exI [of _ "?k - m"]) auto
  with True show ?thesis by simp
next
  case False
  then show ?thesis by (auto simp: find_None_iff)
qed

text \<open>
  What \<open>AllocateIP\<close> answers once the subnet is known and the peers of the room are read.
\<close>

lemma AllocateIP_eq:
  assumes "gorm_ok g" "vlan_net cfg = Some net" "GetAllAssignedIPs g roomID db = Inr usedIPs"
  shows "AllocateIP g cfg roomID db =
    (if \<exists>k. 2 \<le> k \<and> k < 255 \<and> \<not> in_use cfg roomID db (host_address net k)
     then Inr (prefix_address net (LEAST k. 2 \<le> k \<and> k < 255 \<and> \<not> in_use cfg roomID db (host_address net k)))
     else Inl NoAvailableIP)"
proof -
  obtain a b c ones where net: "net = (a, b, c, ones)" by (cases net)
  with assms(2) obtain i ipNet d where s: "ParseCIDR (Subnet cfg) = Some (i, ipNet, ones)"
    "To4 ipNet = Some (V4 a b c d)"
    by (auto simp: vlan_net_def split: option.splits ip.splits)
  from assms(3) obtain ps where ps: "dFind (g_peers g) (\<lambda>p. p_RoomID p = roomID) (t_peers db) = Inr ps"
    "usedIPs = map AssignedIP ps"
    by (auto simp: GetAllAssignedIPs_def map_sum_def split: sum.splits)
  from driver_okD(4) [OF gorm_okD(7) [OF assms(1)] ps(1)]
  have "set ps = {p \<in> set (t_peers db). p_RoomID p = roomID}"
    by (metis set_filter set_mset_mset)
  then have used: "host \<in> set (map (\<lambda>s. hd (Split (CHR ''/'') s)) usedIPs @ [GatewayIP cfg])
      \<longleftrightarrow> in_use cfg roomID db host" for host
    by (auto simp: in_use_def ps(2) host_of_def)
  have f: "find (\<lambda>candidate. \<not> in_use cfg roomID db candidate) (map (\<lambda>i. dotted a b c (of_nat i)) [2..<255])
    = (if \<exists>k. 2 \<le> k \<and> k < 255 \<and> \<not> in_use cfg roomID db (host_address net k)
       then Some (host_address net (LEAST k. 2 \<le> k \<and> k < 255 \<and> \<not> in_use cfg roomID db (host_address net k)))
       else None)"
  proof -
    have h: "(\<lambda>i. dotted a b c (of_nat i)) = host_address net" by (simp add: fun_eq_iff net host_address_def)
    show ?thesis unfolding h by (rule find_first_index)
  qed
  have "AllocateIP g cfg roomID db =
    (case find (\<lambda>candidate. \<not> in_use cfg roomID db candidate) (map (\<lambda>i. dotted a b c (of_nat i)) [2..<255]) of
       Some candidate \<Rightarrow> Inr (candidate @ ''/'' @ digits (snd (snd (snd net)))) | None \<Rightarrow> Inl NoAvailableIP)"
    unfolding AllocateIP_def s assms(3) used option.case sum.case prod.case Let_def ip.case net snd_conv ..
  then show ?thesis unfolding f prefix_address_def by (simp split: if_split) blast
qed

lemma AllocateIP_cases:
  assumes "gorm_ok g" "AllocateIP g cfg roomID db = Inr s"
  obtains net k where "vlan_net cfg = Some net" "2 \<le> k" "k < 255" "s = prefix_address net k"
    "\<not> in_use cfg roomID db (host_address net k)"
    "\<And>i. 2 \<le> i \<Longrightarrow> i < k \<Longrightarrow> in_use cfg roomID db (host_address net i)"
proof -
  from assms(2) obtain net where net: "vlan_net cfg = Some net"
    by (auto simp: AllocateIP_def vlan_net_def Let_def split: option.splits sum.splits ip.splits)
  from assms(2) obtain used where used: "GetAllAssignedIPs g roomID db = Inr used"
    by (auto simp: AllocateIP_def split: option.splits sum.splits)
  let ?P = "\<lambda>k. 2 \<le> k \<and> k < 255 \<and> \<not> in_use cfg roomID db (host_address net k)"
  from AllocateIP_eq [OF assms(1) net used] assms(2) have ex: "\<exists>k. ?P k"
    and s: "s = prefix_address net (LEAST k. ?P k)" by (auto split: if_splits)
  note least = LeastI_ex [OF ex]
  show ?thesis
  proof (rule that [OF net _ _ s])
    fix i assume "2 \<le> i" "i < (LEAST k. ?P k)"
    with not_less_Least [of i ?P] least show "in_use cfg roomID db (host_address net i)" by auto
  qed (use least in simp_all)
qed

section \<open>The device\<close>

lemma addPeer_ok:
  assumes "wgtypes_ok ty"
  shows "\<exists>c'. addPeerToDevice ty dev key s c = Some c' \<and> co_cfg c' = co_cfg c \<and> co_client c' = co_client c"
  using assms by (auto simp: addPeerToDevice_def wgtypes_ok_def not_less Let_def split: option.splits)

lemma removePeer_ok:
  assumes "wgtypes_ok ty"
  shows "\<exists>c'. removePeerFromDevice ty dev key c = Some c' \<and> co_cfg c' = co_cfg c \<and> co_client c' = co_client c"
  using assms by (auto simp: removePeerFromDevice_def wgtypes_ok_def not_less split: option.splits)

text \<open>
  The rows and the coordinator after the two operations; neither panics.
\<close>

lemma Peer_Create_cases:
  assumes "gorm_ok g" "Peer_Create g p db = (r, db')"
  shows "(\<exists>err. r = Inl err \<and> db' = db) \<or>
     (\<exists>n now. r = Inr (p\<lparr>p_ID := n, p_CreatedAt := now\<rparr>) \<and> (\<forall>x \<in> set (t_peers db). p_ID x < n) \<and>
        db' = db\<lparr>t_peers := t_peers db @ [p\<lparr>p_ID := n, p_CreatedAt := now\<rparr>]\<rparr>)"
proof (cases "dCreate (g_peers g) p (t_peers db)")
  case (Inl err)
  with assms(2) show ?thesis by (auto simp: Peer_Create_def)
next
  case (Inr x)
  obtain q qs where x: "x = (q, qs)" by fastforce
  from driver_okD(1) [OF gorm_okD(7) [OF assms(1)] Inr [unfolded x]] assms(2) Inr x show ?thesis
    by (auto simp: Peer_Create_def peer_schema_def)
qed

lemma RegisterPeer_cases:
  assumes "\<forall>i. gorm_ok (g i)" "wgtypes_ok ty"
  obtains res db' c' where "RegisterPeer g ty dev roomID userID key db c = Some (res, db', c')"
    "co_cfg c' = co_cfg c" "co_client c' = co_client c"
    "db' = db \<or>
     (\<exists>p \<in> set (t_peers db). p_RoomID p = roomID \<and> p_UserID p = userID \<and> res = Inr (p\<lparr>PublicKey := key\<rparr>) \<and>
        db' = db\<lparr>t_peers := map (\<lambda>x. if p_ID x = p_ID p then p\<lparr>PublicKey := key\<rparr> else x) (t_peers db)\<rparr>) \<or>
     (\<exists>p s. AllocateIP (g 1) (co_cfg c) roomID db = Inr s \<and> AssignedIP p = s \<and> p_RoomID p = roomID \<and>
        p_UserID p = userID \<and> PublicKey p = key \<and> res = Inr p \<and> (\<forall>x \<in> set (t_peers db). p_ID x < p_ID p) \<and>
        db' = db\<lparr>t_peers := t_peers db @ [p]\<rparr>)"
proof (cases "FindByRoomAndUser (g 0) roomID userID db")
  case (Inr p)
  from driver_okD(2) [OF gorm_okD(7) [OF spec [OF assms(1)]] Inr [unfolded FindByRoomAndUser_def]]
  have p: "p \<in> set (t_peers db)" "p_RoomID p = roomID" "p_UserID p = userID" by simp_all
  show ?thesis
  proof (cases "PublicKey p = key")
    case True
    obtain c1 where "addPeerToDevice ty dev key (AssignedIP p) c = Some c1"
      "co_cfg c1 = co_cfg c" "co_client c1 = co_client c"
      using addPeer_ok [OF assms(2)] by metis
    with True Inr show ?thesis by (intro that [of "Inr p" db c1]) (simp_all add: RegisterPeer_def)
  next
    case False
    obtain r db1 where u: "Peer_Update (g 1) (p\<lparr>PublicKey := key\<rparr>) db = (r, db1)" by fastforce
    obtain c1 where c1: "removePeerFromDevice ty dev (PublicKey p) c = Some c1"
      "co_cfg c1 = co_cfg c" "co_client c1 = co_client c"
      using removePeer_ok [OF assms(2)] by metis
    obtain c2 where c2: "addPeerToDevice ty dev key (AssignedIP p) c1 = Some c2"
      "co_cfg c2 = co_cfg c1" "co_client c2 = co_client c1"
      using addPeer_ok [OF assms(2)] by metis
    from with_rows_cases [OF u [unfolded Peer_Update_def]] show ?thesis
    proof (elim disjE exE conjE)
      fix err assume "r = Inl err" "db1 = db"
      with False Inr u show ?thesis
        by (intro that [of "Inl (UpdateKeyFailed err)" db c]) (simp_all add: RegisterPeer_def)
    next
      fix rs assume rs: "dSave (g_peers (g 1)) (p\<lparr>PublicKey := key\<rparr>) (t_peers db) = Inr rs" "r = Inr ()"
        "db1 = db\<lparr>t_peers := rs\<rparr>"
      from driver_okD(8) [OF gorm_okD(7) [OF spec [OF assms(1)]] rs(1)] p(1)
      have "rs = map (\<lambda>x. if p_ID x = p_ID p then p\<lparr>PublicKey := key\<rparr> else x) (t_peers db)"
        by (auto simp: peer_schema_def)
      with rs False Inr u c1 c2 p show ?thesis
        by (intro that [of "Inr (p\<lparr>PublicKey := key\<rparr>)" db1 c2]) (auto simp: RegisterPeer_def Let_def)
    qed
  qed
next
  case (Inl err)
  show ?thesis
  proof (cases "AllocateIP (g 1) (co_cfg c) roomID db")
    case (Inl e)
    with \<open>FindByRoomAndUser _ _ _ _ = Inl err\<close> show ?thesis
      by (intro that [of "Inl e" db c]) (simp_all add: RegisterPeer_def)
  next
    case (Inr s)
    let ?p = "\<lparr>p_ID = 0, p_RoomID = roomID, p_UserID = userID, PublicKey = key, AssignedIP = s,
      LastHandshakeAt = None, p_CreatedAt = 0\<rparr>"
    obtain r db1 where cr: "Peer_Create (g 2) ?p db = (r, db1)" by fastforce
    obtain c1 where "addPeerToDevice ty dev key s c = Some c1"
      "co_cfg c1 = co_cfg c" "co_client c1 = co_client c"
      using addPeer_ok [OF assms(2)] by metis
    with Peer_Create_cases [OF spec [OF assms(1)] cr] Inl Inr cr show ?thesis
      by (elim disjE exE conjE) (rule that, auto simp: RegisterPeer_def)+
  qed
qed

lemma UnregisterPeer_cases:
  assumes "\<forall>i. gorm_ok (g i)" "wgtypes_ok ty"
  obtains res db' c' where "UnregisterPeer g ty dev roomID userID db c = Some (res, db', c')"
    "co_cfg c' = co_cfg c" "co_client c' = co_client c"
    "(\<exists>err. res = Inl err \<and> db' = db) \<or>
     (res = Inr () \<and> db' = db\<lparr>t_peers := filter (\<lambda>p. \<not> (p_RoomID p = roomID \<and> p_UserID p = userID)) (t_peers db)\<rparr>)"
proof -
  obtain c1 where c1: "(case FindByRoomAndUser (g 0) roomID userID db of
        Inr peer \<Rightarrow> removePeerFromDevice ty dev (PublicKey peer) c | Inl _ \<Rightarrow> Some c) = Some c1"
    "co_cfg c1 = co_cfg c" "co_client c1 = co_client c"
    using removePeer_ok [OF assms(2)] by (cases "FindByRoomAndUser (g 0) roomID userID db") force+
  obtain r db1 where d: "Peer_Delete (g 1) roomID userID db = (r, db1)" by fastforce
  from with_rows_cases [OF d [unfolded Peer_Delete_def]]
    driver_okD(7) [OF gorm_okD(7) [OF spec [OF assms(1)]]]
  have "(\<exists>err. r = Inl err \<and> db1 = db) \<or>
     (r = Inr () \<and> db1 = db\<lparr>t_peers := filter (\<lambda>p. \<not> (p_RoomID p = roomID \<and> p_UserID p = userID)) (t_peers db)\<rparr>)"
    by blast
  with c1 d show ?thesis by (intro that [of r db1 c1]) (simp_all add: UnregisterPeer_def)
qed

section \<open>The peers over time\<close>

text \<open>
  The states of the peers' table under any sequence of the operations, each with a database
  that may fail at any statement, and of the deletion of rooms.
\<close>

inductive vlan_reachable :: "'k wgtypes \<Rightarrow> wg_config \<Rightarrow> database \<Rightarrow> 'k coordinator \<Rightarrow> bool"
  for ty :: "'k wgtypes" and cfg :: wg_config where
  vlan_start: "t_peers db = [] \<Longrightarrow> co_cfg c = cfg \<Longrightarrow> vlan_reachable ty cfg db c"
| vlan_register: "vlan_reachable ty cfg db c \<Longrightarrow> \<forall>i. gorm_ok (g i) \<Longrightarrow>
    RegisterPeer g ty dev roomID userID key db c = Some (res, db', c') \<Longrightarrow> vlan_reachable ty cfg db' c'"
| vlan_unregister: "vlan_reachable ty cfg db c \<Longrightarrow> \<forall>i. gorm_ok (g i) \<Longrightarrow>
    UnregisterPeer g ty dev roomID userID db c = Some (dres, db', c') \<Longrightarrow> vlan_reachable ty cfg db' c'"
| vlan_room_deleted: "vlan_reachable ty cfg db c \<Longrightarrow> \<forall>i. gorm_ok (g i) \<Longrightarrow>
    Room_Delete g roomID db = (dres, db') \<Longrightarrow> vlan_reachable ty cfg db' c"

definition vlan_address :: "wg_config \<Rightarrow> string \<Rightarrow> bool" where
  "vlan_address cfg s \<longleftrightarrow> (\<exists>net k. vlan_net cfg = Some net \<and> 2 \<le> k \<and> k < 255 \<and>
     s = prefix_address net k \<and> host_address net k \<noteq> GatewayIP cfg)"

definition room_addresses :: "uint64 \<Rightarrow> wg_peer list \<Rightarrow> string list" where
  "room_addresses roomID ps = map AssignedIP (filter (\<lambda>p. p_RoomID p = roomID) ps)"

definition vlan_inv :: "wg_config \<Rightarrow> wg_peer list \<Rightarrow> bool" where
  "vlan_inv cfg ps \<longleftrightarrow> distinct (map p_ID ps) \<and> (\<forall>p \<in> set ps. vlan_address cfg (AssignedIP p)) \<and>
     (\<forall>roomID. distinct (room_addresses roomID ps))"

lemma vlan_inv_filter: "vlan_inv cfg ps \<Longrightarrow> vlan_inv cfg (filter P ps)"
proof -
  have "filter (\<lambda>p. p_RoomID p = roomID) (filter P ps) = filter P (filter (\<lambda>p. p_RoomID p = roomID) ps)" for roomID
    by (simp add: conj_commute)
  then show "vlan_inv cfg ps \<Longrightarrow> ?thesis"
    by (simp add: vlan_inv_def room_addresses_def distinct_map_filter del: filter_filter)
qed

text \<open>A new row with a free address, and a row that only changes its key.\<close>

lemma vlan_inv_new:
  assumes "vlan_inv cfg (t_peers db)" "\<forall>x \<in> set (t_peers db). p_ID x < p_ID p"
    and "gorm_ok g" "AllocateIP g cfg (p_RoomID p) db = Inr (AssignedIP p)"
  shows "vlan_inv cfg (t_peers db @ [p])"
proof -
  from AllocateIP_cases [OF assms(3,4)] obtain net k where k: "vlan_net cfg = Some net" "2 \<le> k" "k < 255"
    "AssignedIP p = prefix_address net k" "\<not> in_use cfg (p_RoomID p) db (host_address net k)" by metis
  have "vlan_address cfg (AssignedIP p)" using k by (auto simp: vlan_address_def in_use_def)
  have new: "AssignedIP p \<noteq> AssignedIP q" if "q \<in> set (t_peers db)" "p_RoomID q = p_RoomID p" for q
  proof
    assume "AssignedIP p = AssignedIP q"
    then have "host_of (AssignedIP q) = host_address net k" using k(4) by (metis host_of_prefix)
    with that have "in_use cfg (p_RoomID p) db (host_address net k)"
      unfolding in_use_def by (intro disjI2 image_eqI [of _ _ q]) auto
    with k(5) show False ..
  qed
  have "AssignedIP p \<notin> set (room_addresses (p_RoomID p) (t_peers db))"
    using new by (auto simp: room_addresses_def)
  with \<open>vlan_address cfg (AssignedIP p)\<close> assms(1,2) show ?thesis
    by (auto simp: vlan_inv_def room_addresses_def)
qed

lemma vlan_inv_rekey:
  assumes "vlan_inv cfg ps" "p \<in> set ps"
  shows "vlan_inv cfg (map (\<lambda>x. if p_ID x = p_ID p then p\<lparr>PublicKey := key\<rparr> else x) ps)" (is "vlan_inv cfg (map ?f ps)")
proof -
  from assms have same: "x = p" if "x \<in> set ps" "p_ID x = p_ID p" for x
    using that by (auto simp: vlan_inv_def distinct_map dest: inj_onD)
  have f: "p_ID (?f x) = p_ID x \<and> p_RoomID (?f x) = p_RoomID x \<and> AssignedIP (?f x) = AssignedIP x" if "x \<in> set ps" for x
    using same [OF that] by auto
  have "room_addresses roomID (map ?f xs) = room_addresses roomID xs" if "set xs \<subseteq> set ps" for roomID xs
    using that
  proof (induction xs)
    case (Cons x xs)
    with f [of x] show ?case by (simp add: room_addresses_def)
  qed (simp add: room_addresses_def)
  moreover have ids: "map p_ID (map ?f ps) = map p_ID ps" unfolding map_map using f by (intro map_cong) auto
  moreover have "\<forall>p \<in> set (map ?f ps). vlan_address cfg (AssignedIP p)"
    using f assms by (auto simp: vlan_inv_def simp del: if_image_distrib)
  ultimately show ?thesis using assms(1) unfolding vlan_inv_def ids by simp
qed

text \<open>One step of each operation.\<close>

lemma RegisterPeer_vlan:
  assumes "\<forall>i. gorm_ok (g i)" "wgtypes_ok ty" "vlan_inv (co_cfg c) (t_peers db)"
    and "RegisterPeer g ty dev roomID userID key db c = Some (res, db', c')"
  shows "vlan_inv (co_cfg c') (t_peers db') \<and> co_cfg c' = co_cfg c"
proof (rule RegisterPeer_cases [OF assms(1,2), of dev roomID userID key db c])
  fix r d e
  assume a: "RegisterPeer g ty dev roomID userID key db c = Some (r, d, e)" "co_cfg e = co_cfg c" and
    cases: "d = db \<or>
     (\<exists>p \<in> set (t_peers db). p_RoomID p = roomID \<and> p_UserID p = userID \<and> r = Inr (p\<lparr>PublicKey := key\<rparr>) \<and>
        d = db\<lparr>t_peers := map (\<lambda>x. if p_ID x = p_ID p then p\<lparr>PublicKey := key\<rparr> else x) (t_peers db)\<rparr>) \<or>
     (\<exists>p s. AllocateIP (g 1) (co_cfg c) roomID db = Inr s \<and> AssignedIP p = s \<and> p_RoomID p = roomID \<and>
        p_UserID p = userID \<and> PublicKey p = key \<and> r = Inr p \<and> (\<forall>x \<in> set (t_peers db). p_ID x < p_ID p) \<and>
        d = db\<lparr>t_peers := t_peers db @ [p]\<rparr>)"
  from cases assms(3) have "vlan_inv (co_cfg c) (t_peers d)"
    by (elim disjE bexE exE conjE) (auto intro: vlan_inv_rekey vlan_inv_new [OF _ _ spec [OF assms(1)]])
  with a assms(4) show ?thesis by simp
qed

lemma UnregisterPeer_vlan:
  assumes "\<forall>i. gorm_ok (g i)" "wgtypes_ok ty" "vlan_inv (co_cfg c) (t_peers db)"
    and "UnregisterPeer g ty dev roomID userID db c = Some (res, db', c')"
  shows "vlan_inv (co_cfg c') (t_peers db') \<and> co_cfg c' = co_cfg c"
proof -
  obtain r d e where "UnregisterPeer g ty dev roomID userID db c = Some (r, d, e)" "co_cfg e = co_cfg c"
    "(\<exists>err. r = Inl err \<and> d = db) \<or>
     (r = Inr () \<and> d = db\<lparr>t_peers := filter (\<lambda>p. \<not> (p_RoomID p = roomID \<and> p_UserID p = userID)) (t_peers db)\<rparr>)"
    by (rule UnregisterPeer_cases [OF assms(1,2)]) blast
  with assms(3,4) show ?thesis by (auto intro: vlan_inv_filter)
qed

lemma Room_Delete_vlan:
  assumes "\<forall>i. gorm_ok (g i)" "vlan_inv cfg (t_peers db)" "Room_Delete g roomID db = (res, db')"
  shows "vlan_inv cfg (t_peers db')"
  using Room_Delete_cases [OF assms(1,3)] assms(2) by (auto simp: purge_room_def intro: vlan_inv_filter)

lemma vlan_inv_empty: "vlan_inv cfg []"
  by (simp add: vlan_inv_def room_addresses_def)

lemma vlan_reachable_inv:
  assumes "vlan_reachable ty cfg db c" "wgtypes_ok ty"
  shows "vlan_inv cfg (t_peers db) \<and> co_cfg c = cfg"
  using assms(1)
proof induction
  case (vlan_start db c)
  then show ?case by (simp add: vlan_inv_empty)
next
  case (vlan_register db c g dev roomID userID key res db' c')
  with RegisterPeer_vlan [OF vlan_register(2) assms(2) _ vlan_register(3)] show ?case by auto
next
  case (vlan_unregister db c g dev roomID userID dres db' c')
  with UnregisterPeer_vlan [OF vlan_unregister(2) assms(2) _ vlan_unregister(3)] show ?case by auto
next
  case (vlan_room_deleted db c g roomID dres db')
  with Room_Delete_vlan [OF vlan_room_deleted(2) _ vlan_room_deleted(3)] show ?case by blast
qed

lemma rooms_share_addresses:
  assumes "gorm_ok g" "vlan_net cfg = Some net" "t_peers db = []"
    and "GetAllAssignedIPs g r1 db = Inr u1" "GetAllAssignedIPs g r2 db = Inr u2"
  shows "AllocateIP g cfg r1 db = AllocateIP g cfg r2 db"
proof -
  have "in_use cfg r1 db = in_use cfg r2 db" using assms(3) by (simp add: in_use_def fun_eq_iff)
  then show ?thesis unfolding AllocateIP_eq [OF assms(1,2,4)] AllocateIP_eq [OF assms(1,2,5)] by (rule arg_cong)
qed

section \<open>Properties\<close>

definition demo_wg :: wg_config where
  "demo_wg = \<lparr>ServerIP = ''203.0.113.9'', ListenPort = 51820, ServerPrivateKey = [], PrivateKeyPath = [],
     Subnet = ''10.0.8.0/24'', GatewayIP = ''10.0.8.1''\<rparr>"

definition demo_keys :: "bool wgtypes" where
  "demo_keys = \<lparr>ParseKey = (\<lambda>s. if 8 \<le> length s then Some (hd s = CHR ''1'') else None),
     GeneratePrivateKey = Inr True, KeyString = (\<lambda>k. replicate 8 (if k then CHR ''1'' else CHR ''0'')),
     PublicKeyOf = Not\<rparr>"

definition demo_peers :: database where
  "demo_peers = empty_db\<lparr>t_peers := [\<lparr>p_ID = 1, p_RoomID = 7, p_UserID = 3, PublicKey = ''03-key-x'',
     AssignedIP = ''10.0.8.2/24'', LastHandshakeAt = None, p_CreatedAt = 0\<rparr>]\<rparr>"

text \<open>
  C15: \<open>AllocateIP\<close> hands out the lowest host number from 2 to 254 of the subnet that neither the
  gateway nor a peer of the room has, with the prefix length of the subnet; it refuses for
  lack of addresses only when all 253 are taken, so a room with fewer than 252 peers is
  never refused.
\<close>

theorem allocate_lowest_free:
  assumes "gorm_ok g" "vlan_net cfg = Some net" "GetAllAssignedIPs g roomID db = Inr used"
  shows "(\<exists>k. AllocateIP g cfg roomID db = Inr (prefix_address net k) \<and> 2 \<le> k \<and> k \<le> 254 \<and>
            \<not> in_use cfg roomID db (host_address net k) \<and>
            (\<forall>i. 2 \<le> i \<and> i < k \<longrightarrow> in_use cfg roomID db (host_address net i))) \<or>
         (AllocateIP g cfg roomID db = Inl NoAvailableIP \<and>
            (\<forall>i. 2 \<le> i \<and> i \<le> 254 \<longrightarrow> in_use cfg roomID db (host_address net i)) \<and>
            252 \<le> length (room_addresses roomID (t_peers db)))"
proof (cases "\<exists>k. 2 \<le> k \<and> k < 255 \<and> \<not> in_use cfg roomID db (host_address net k)")
  case True
  with AllocateIP_eq [OF assms] obtain s where s: "AllocateIP g cfg roomID db = Inr s" by simp
  from AllocateIP_cases [OF assms(1) s] obtain net' k where k: "vlan_net cfg = Some net'" "2 \<le> k" "k < 255"
    "s = prefix_address net' k" "\<not> in_use cfg roomID db (host_address net' k)"
    "\<And>i. 2 \<le> i \<Longrightarrow> i < k \<Longrightarrow> in_use cfg roomID db (host_address net' i)" by blast
  from k(1) assms(2) have "net' = net" by simp
  with k s show ?thesis by (intro disjI1 exI [of _ k]) simp
next
  case False
  have "host_address net ` {2..254} \<subseteq> insert (GatewayIP cfg) (host_of ` set (room_addresses roomID (t_peers db)))"
  proof
    fix h assume "h \<in> host_address net ` {2..254}"
    then obtain k where "2 \<le> k" "k < 255" "h = host_address net k" by auto
    with False have "in_use cfg roomID db h" by blast
    then show "h \<in> insert (GatewayIP cfg) (host_of ` set (room_addresses roomID (t_peers db)))"
      by (auto simp: in_use_def room_addresses_def)
  qed
  then have "card (host_address net ` {2..254}) \<le> card (insert (GatewayIP cfg) (host_of ` set (room_addresses roomID (t_peers db))))"
    by (intro card_mono) auto
  also have "\<dots> \<le> Suc (card (host_of ` set (room_addresses roomID (t_peers db))))"
    by (rule card_insert_le_m1) simp_all
  also have "\<dots> \<le> Suc (length (room_addresses roomID (t_peers db)))"
    using card_image_le [of "set (room_addresses roomID (t_peers db))" host_of]
      card_length [of "room_addresses roomID (t_peers db)"] by simp
  also have "card (host_address net ` {2..254}) = 253"
    by (subst card_image) (auto simp: inj_on_def host_address_inj)
  finally have "252 \<le> length (room_addresses roomID (t_peers db))" by simp
  with False AllocateIP_eq [OF assms] show ?thesis by (intro disjI2) auto
qed

lemma demo_net: "vlan_net demo_wg = Some (10, 0, 8, 24)"
  by code_simp

lemma demo_keys_ok: "wgtypes_ok demo_keys"
  by (simp add: wgtypes_ok_def demo_keys_def is_space_def list_all_iff)

lemma demo_hosts:
  "host_address (10, 0, 8, 24) 2 = ''10.0.8.2''" "host_address (10, 0, 8, 24) 3 = ''10.0.8.3''"
  "prefix_address (10, 0, 8, 24) 2 = ''10.0.8.2/24''" "prefix_address (10, 0, 8, 24) 3 = ''10.0.8.3/24''"
  "host_of ''10.0.8.2/24'' = ''10.0.8.2''"
  by code_simp+

lemma demo_in_use:
  "in_use demo_wg 7 demo_peers h \<longleftrightarrow> h = ''10.0.8.1'' \<or> h = ''10.0.8.2''"
  "in_use demo_wg 7 empty_db h \<longleftrightarrow> h = ''10.0.8.1''"
  by (simp_all add: in_use_def demo_wg_def demo_peers_def empty_db_def demo_hosts(5) Collect_conv_if)

theorem allocate_lowest_free_witness:
  "AllocateIP mem_gorm demo_wg 7 demo_peers = Inr ''10.0.8.3/24''"
proof -
  have "GetAllAssignedIPs mem_gorm 7 demo_peers = Inr [''10.0.8.2/24'']"
    by (simp add: GetAllAssignedIPs_def demo_peers_def mem_defs empty_db_def)
  from allocate_lowest_free [OF mem_gorm_ok demo_net this]
  obtain k where k: "AllocateIP mem_gorm demo_wg 7 demo_peers = Inr (prefix_address (10, 0, 8, 24) k)" "2 \<le> k"
    "\<not> in_use demo_wg 7 demo_peers (host_address (10, 0, 8, 24) k)"
    "\<forall>i. 2 \<le> i \<and> i < k \<longrightarrow> in_use demo_wg 7 demo_peers (host_address (10, 0, 8, 24) i)"
    by (auto simp: room_addresses_def demo_peers_def empty_db_def)
  have "\<not> 3 < k" using k(4) [rule_format, of 3] by (auto simp: demo_in_use demo_hosts)
  then have "k \<le> 3" by simp
  moreover from k(3) have "k \<noteq> 2" by (auto simp: demo_in_use demo_hosts)
  ultimately have "k = 3" using k(2) by simp
  with k(1) show ?thesis by (simp add: demo_hosts)
qed

lemma demo_allocate:
  "AllocateIP mem_gorm demo_wg 7 empty_db = Inr ''10.0.8.2/24''"
  "AllocateIP mem_gorm demo_wg 7 demo_peers = Inr ''10.0.8.3/24''"
proof -
  have used: "GetAllAssignedIPs mem_gorm 7 db = Inr (room_addresses 7 (t_peers db))" for db
    by (simp add: GetAllAssignedIPs_def mem_defs room_addresses_def)
  have "(LEAST k. 2 \<le> k \<and> k < 255 \<and> \<not> in_use demo_wg 7 empty_db (host_address (10, 0, 8, 24) k)) = 2"
    by (rule Least_equality) (simp_all add: demo_in_use demo_hosts)
  moreover have "\<exists>k. 2 \<le> k \<and> k < 255 \<and> \<not> in_use demo_wg 7 empty_db (host_address (10, 0, 8, 24) k)"
    by (rule exI [of _ 2]) (simp add: demo_in_use demo_hosts)
  ultimately show "AllocateIP mem_gorm demo_wg 7 empty_db = Inr ''10.0.8.2/24''"
    by (simp only: AllocateIP_eq [OF mem_gorm_ok demo_net used] if_True demo_hosts)
  have "(LEAST k. 2 \<le> k \<and> k < 255 \<and> \<not> in_use demo_wg 7 demo_peers (host_address (10, 0, 8, 24) k)) = 3"
  proof (rule Least_equality)
    fix k :: nat assume "2 \<le> k \<and> k < 255 \<and> \<not> in_use demo_wg 7 demo_peers (host_address (10, 0, 8, 24) k)"
    then have "2 \<le> k" "k \<noteq> 2" by (auto simp: demo_in_use demo_hosts)
    then show "3 \<le> k" by simp
  qed (simp add: demo_in_use demo_hosts)
  moreover have "\<exists>k. 2 \<le> k \<and> k < 255 \<and> \<not> in_use demo_wg 7 demo_peers (host_address (10, 0, 8, 24) k)"
    by (rule exI [of _ 3]) (simp add: demo_in_use demo_hosts)
  ultimately show "AllocateIP mem_gorm demo_wg 7 demo_peers = Inr ''10.0.8.3/24''"
    by (simp only: AllocateIP_eq [OF mem_gorm_ok demo_net used] if_True demo_hosts)
qed

definition demo_device :: "bool coordinator" where
  "demo_device = (NewCoordinator demo_wg)\<lparr>co_client := True\<rparr>"

lemma demo_addresses:
  "ParseCIDR ''10.0.8.2/24'' = Some (V4 10 0 8 2, V4 10 0 8 0, 24)"
  "ParseCIDR ''10.0.8.3/24'' = Some (V4 10 0 8 3, V4 10 0 8 0, 24)"
  by code_simp+

text \<open>Users 3 and 4 join the network of room 7.\<close>

lemma demo_register:
  "RegisterPeer (\<lambda>_. mem_gorm) demo_keys (\<lambda>_. None) 7 3 ''03-key-x'' empty_db demo_device
   = Some (Inr (hd (t_peers demo_peers)), demo_peers, demo_device\<lparr>co_device := [PutPeer False (V4 10 0 8 2)]\<rparr>)"
  "\<exists>p db. RegisterPeer (\<lambda>_. mem_gorm) demo_keys (\<lambda>_. None) 7 4 ''14-key-x'' demo_peers
       (demo_device\<lparr>co_device := [PutPeer False (V4 10 0 8 2)]\<rparr>)
     = Some (Inr p, db, demo_device\<lparr>co_device := [PutPeer False (V4 10 0 8 2), PutPeer True (V4 10 0 8 3)]\<rparr>) \<and>
     map AssignedIP (t_peers db) = [''10.0.8.2/24'', ''10.0.8.3/24''] \<and> t_peers db = t_peers demo_peers @ [p] \<and>
     p_UserID p = 4 \<and> p_RoomID p = 7"
proof -
  note eval = RegisterPeer_def FindByRoomAndUser_def Peer_Create_def demo_allocate demo_device_def
    NewCoordinator_def addPeerToDevice_def demo_addresses demo_keys_def mem_simps Let_def
  show "RegisterPeer (\<lambda>_. mem_gorm) demo_keys (\<lambda>_. None) 7 3 ''03-key-x'' empty_db demo_device
   = Some (Inr (hd (t_peers demo_peers)), demo_peers, demo_device\<lparr>co_device := [PutPeer False (V4 10 0 8 2)]\<rparr>)"
    using demo_allocate(1) by (simp add: eval demo_peers_def empty_db_def)
  have "t_peers demo_peers = [\<lparr>p_ID = 1, p_RoomID = 7, p_UserID = 3, PublicKey = ''03-key-x'',
     AssignedIP = ''10.0.8.2/24'', LastHandshakeAt = None, p_CreatedAt = 0\<rparr>]"
    by (simp add: demo_peers_def)
  then show "\<exists>p db. RegisterPeer (\<lambda>_. mem_gorm) demo_keys (\<lambda>_. None) 7 4 ''14-key-x'' demo_peers
       (demo_device\<lparr>co_device := [PutPeer False (V4 10 0 8 2)]\<rparr>)
     = Some (Inr p, db, demo_device\<lparr>co_device := [PutPeer False (V4 10 0 8 2), PutPeer True (V4 10 0 8 3)]\<rparr>) \<and>
     map AssignedIP (t_peers db) = [''10.0.8.2/24'', ''10.0.8.3/24''] \<and> t_peers db = t_peers demo_peers @ [p] \<and>
     p_UserID p = 4 \<and> p_RoomID p = 7"
    by (simp add: eval)
qed

lemma ParseCIDR_prefix:
  assumes "net = (a, b, c, ones)" "ones \<le> 32"
  shows "ParseCIDR (prefix_address net k) = Some (V4 a b c (of_nat k), mask_ip ones (V4 a b c (of_nat k)), ones)"
proof -
  have "\<forall>x \<in> set (dotted a b c (of_nat k)). x \<noteq> CHR ''/''" by (auto simp: dotted_def dot_not_digit)
  then have "takeWhile (\<lambda>x. x \<noteq> CHR ''/'') (prefix_address net k) = dotted a b c (of_nat k)"
    "dropWhile (\<lambda>x. x \<noteq> CHR ''/'') (prefix_address net k) = CHR ''/'' # digits ones"
    by (simp_all add: prefix_address_def host_address_def assms(1) takeWhile_append dropWhile_append)
  with assms(2) show ?thesis by (simp add: ParseCIDR_def ParseIP_dotted parse_digits_digits Let_def)
qed

lemma peers_never_panic:
  assumes "\<forall>i. gorm_ok (g i)" "wgtypes_ok ty"
  shows "RegisterPeer g ty dev roomID userID key db c \<noteq> None" "UnregisterPeer g ty dev roomID userID db c \<noteq> None"
  using RegisterPeer_cases [OF assms, of dev roomID userID key db c]
    UnregisterPeer_cases [OF assms, of dev roomID userID db c]
  by (metis option.distinct(1))+

lemma addPeer_last:
  assumes "addPeerToDevice ty dev key s c = Some c'" "co_client c" "\<forall>call. dev call = None"
    and "ParseKey ty key = Some k" "vlan_address cfg s" "vlan_net cfg = Some (x, y, z, ones)" "ones \<le> 32"
  shows "\<exists>h net. ParseCIDR s = Some (h, net, ones) \<and> last (co_device c') = PutPeer k h"
proof -
  from assms(5,6) obtain j where "s = prefix_address (x, y, z, ones) j" by (auto simp: vlan_address_def)
  with ParseCIDR_prefix [OF refl assms(7)] assms(1-4) show ?thesis
    by (auto simp: addPeerToDevice_def Let_def split: if_splits)
qed



text \<open>
  C36: a member who registers a valid key gets a row with that key, and the device is told, last of
  all, to route the address of the row to the key. When the peer unregisters, no row of that
  user in that room is left, and everybody else's rows are the ones of before.
\<close>

theorem register_then_unregister:
  assumes "vlan_reachable ty cfg db c" "wgtypes_ok ty" "\<forall>i. gorm_ok (g i)" "\<forall>i. gorm_ok (g' i)"
    and "vlan_net cfg = Some (x, y, z, ones)" "ones \<le> 32"
    and "co_client c" "\<forall>call. dev call = None" "ParseKey ty key = Some k"
    and "RegisterPeer g ty dev roomID userID key db c = Some (Inr peer, db1, c1)"
    and "UnregisterPeer g' ty dev' roomID userID db1 c1 = Some (Inr (), db2, c2)"
  shows "peer \<in> set (t_peers db1) \<and> (p_RoomID peer, p_UserID peer, PublicKey peer) = (roomID, userID, key) \<and>
     (\<exists>h net. ParseCIDR (AssignedIP peer) = Some (h, net, ones) \<and> last (co_device c1) = PutPeer k h) \<and>
     t_peers db2 = filter (\<lambda>p. \<not> (p_RoomID p = roomID \<and> p_UserID p = userID)) (t_peers db2) \<and>
     mset (t_peers db2) = mset (filter (\<lambda>p. \<not> (p_RoomID p = roomID \<and> p_UserID p = userID)) (t_peers db))"
proof -
  let ?other = "\<lambda>p. \<not> (p_RoomID p = roomID \<and> p_UserID p = userID)"
  from vlan_reachable_inv [OF assms(1,2)] have inv: "vlan_inv cfg (t_peers db)" "co_cfg c = cfg" by simp_all
  have u: "t_peers db2 = filter ?other (t_peers db1)"
    by (rule UnregisterPeer_cases [OF assms(4,2), of dev' roomID userID db1 c1]) (use assms(11) in auto)
  have same: "x = p" if "x \<in> set (t_peers db)" "p \<in> set (t_peers db)" "p_ID x = p_ID p" for x p
    using that inv(1) by (auto simp: vlan_inv_def distinct_map dest: inj_onD)
  have sub: "vlan_address cfg (AssignedIP p)" if "p \<in> set (t_peers db)" for p
    using inv(1) that by (simp add: vlan_inv_def)
  note last = addPeer_last [OF _ _ assms(8,9) _ assms(5,6)]
  have "peer \<in> set (t_peers db1) \<and> (p_RoomID peer, p_UserID peer, PublicKey peer) = (roomID, userID, key) \<and>
     (\<exists>h net. ParseCIDR (AssignedIP peer) = Some (h, net, ones) \<and> last (co_device c1) = PutPeer k h) \<and>
     filter ?other (t_peers db1) = filter ?other (t_peers db)"
  proof (cases "FindByRoomAndUser (g 0) roomID userID db")
    case (Inr p)
    from driver_okD(2) [OF gorm_okD(7) [OF spec [OF assms(3)]] Inr [unfolded FindByRoomAndUser_def]]
    have p: "p \<in> set (t_peers db)" "p_RoomID p = roomID" "p_UserID p = userID" by simp_all
    show ?thesis
    proof (cases "PublicKey p = key")
      case True
      with assms(10) Inr have "peer = p" "db1 = db" "addPeerToDevice ty dev key (AssignedIP p) c = Some c1"
        by (auto simp: RegisterPeer_def bind_eq_Some_conv)
      with p True last [OF _ assms(7) sub [OF p(1)]] show ?thesis by simp
    next
      case False
      with assms(10) Inr obtain ca where a: "Peer_Update (g 1) (p\<lparr>PublicKey := key\<rparr>) db = (Inr (), db1)"
        "peer = p\<lparr>PublicKey := key\<rparr>" "removePeerFromDevice ty dev (PublicKey p) c = Some ca"
        "addPeerToDevice ty dev key (AssignedIP p) ca = Some c1"
        by (auto simp: RegisterPeer_def Let_def bind_eq_Some_conv split: prod.splits sum.splits)
      from a(1) obtain rs where rs: "dSave (g_peers (g 1)) (p\<lparr>PublicKey := key\<rparr>) (t_peers db) = Inr rs" "db1 = db\<lparr>t_peers := rs\<rparr>"
        by (auto simp: Peer_Update_def with_rows_def split: sum.splits)
      from driver_okD(8) [OF gorm_okD(7) [OF spec [OF assms(3)]] rs(1)] p(1) rs(2)
      have db1: "t_peers db1 = map (\<lambda>x. if p_ID x = p_ID p then p\<lparr>PublicKey := key\<rparr> else x) (t_peers db)"
        by (auto simp: peer_schema_def)
      have "filter ?other (map (\<lambda>x. if p_ID x = p_ID p then p\<lparr>PublicKey := key\<rparr> else x) xs) = filter ?other xs"
        if "set xs \<subseteq> set (t_peers db)" for xs using that
      proof (induction xs)
        case (Cons x xs)
        with same [of x p] p show ?case by auto
      qed simp
      moreover from removePeer_ok [OF assms(2), of dev "PublicKey p" c] a(3) assms(7) have "co_client ca" by auto
      moreover from last [OF a(4) this sub [OF p(1)]]
      have "\<exists>h net. ParseCIDR (AssignedIP peer) = Some (h, net, ones) \<and> last (co_device c1) = PutPeer k h"
        by (simp add: a(2))
      moreover have "peer \<in> set (t_peers db1)"
        unfolding db1 set_map by (rule image_eqI [OF _ p(1)]) (simp add: a(2))
      ultimately show ?thesis unfolding db1 by (simp add: a(2) p)
    qed
  next
    case (Inl err)
    with assms(10) obtain s where s: "AllocateIP (g 1) cfg roomID db = Inr s"
      "Peer_Create (g 2) \<lparr>p_ID = 0, p_RoomID = roomID, p_UserID = userID, PublicKey = key, AssignedIP = s,
         LastHandshakeAt = None, p_CreatedAt = 0\<rparr> db = (Inr peer, db1)"
      "addPeerToDevice ty dev key s c = Some c1"
      by (auto simp: RegisterPeer_def inv(2) bind_eq_Some_conv split: prod.splits sum.splits)
    from AllocateIP_cases [OF spec [OF assms(3)] s(1)] have "vlan_address cfg s"
      by (metis in_use_def vlan_address_def)
    from last [OF s(3) assms(7) this] Peer_Create_cases [OF spec [OF assms(3)] s(2)] show ?thesis by auto
  qed
  with u show ?thesis by simp
qed

theorem register_then_unregister_witness:
  "\<exists>db2 c2. UnregisterPeer (\<lambda>_. mem_gorm) demo_keys (\<lambda>_. None) 7 3 demo_peers
       (demo_device\<lparr>co_device := [PutPeer False (V4 10 0 8 2)]\<rparr>) = Some (Inr (), db2, c2) \<and>
     t_peers db2 = [] \<and> PublicKey (hd (t_peers demo_peers)) = ''03-key-x''"
proof -
  have "vlan_reachable demo_keys demo_wg empty_db demo_device"
    by (rule vlan_start) (simp_all add: empty_db_def demo_device_def NewCoordinator_def)
  moreover have "\<exists>db2 c2. UnregisterPeer (\<lambda>_. mem_gorm) demo_keys (\<lambda>_. None) 7 3 demo_peers
       (demo_device\<lparr>co_device := [PutPeer False (V4 10 0 8 2)]\<rparr>) = Some (Inr (), db2, c2)"
    by (simp add: UnregisterPeer_def FindByRoomAndUser_def Peer_Delete_def with_rows_def mem_simps demo_peers_def
        removePeerFromDevice_def demo_device_def NewCoordinator_def demo_keys_def)
  then obtain db2 c2 where u: "UnregisterPeer (\<lambda>_. mem_gorm) demo_keys (\<lambda>_. None) 7 3 demo_peers
       (demo_device\<lparr>co_device := [PutPeer False (V4 10 0 8 2)]\<rparr>) = Some (Inr (), db2, c2)" by blast
  have k: "ParseKey demo_keys ''03-key-x'' = Some False" by (simp add: demo_keys_def)
  have "co_client demo_device" by (simp add: demo_device_def)
  from register_then_unregister [OF calculation demo_keys_ok mem_gorm_all mem_gorm_all demo_net _ this _ k
      demo_register(1) u] u show ?thesis by (auto simp: empty_db_def)
qed

section \<open>The identity of the server\<close>

text \<open>The files after a run.\<close>

definition after_effects :: "os_effect list \<Rightarrow> wg_os \<Rightarrow> wg_os" where
  "after_effects effs os = os\<lparr>os_ReadFile :=
     fold (\<lambda>eff f. case eff of Wrote path content \<Rightarrow> f(path := FileContent content) | Ran _ \<Rightarrow> f)
       effs (os_ReadFile os)\<rparr>"

lemma after_effects_other:
  assumes "\<forall>content. Wrote path content \<notin> set effs"
  shows "fold (\<lambda>eff f. case eff of Wrote path content \<Rightarrow> f(path := FileContent content) | Ran _ \<Rightarrow> f) effs f path
     = f path"
  using assms by (induction effs arbitrary: f) (auto split: os_effect.split)

lemma key_loaded_again:
  assumes "wgtypes_ok ty" "loadOrCreatePrivateKey ty os cfg = (None, cfg', eff)"
    and "fst ` set sysctl_settings \<inter> {TrimSpace (PrivateKeyPath cfg)} = {}"
    and "\<forall>e \<in> set rest. \<forall>path content. e = Wrote path content \<longrightarrow> path \<in> fst ` set sysctl_settings"
  shows "\<exists>eff'. loadOrCreatePrivateKey ty (after_effects (eff @ rest) os) cfg = (None, cfg', eff')"
proof (cases "TrimSpace (ServerPrivateKey cfg) = []")
  case False
  with assms(2) show ?thesis by (auto simp: loadOrCreatePrivateKey_def)
next
  case True
  let ?path = "key_path cfg"
  have "?path \<notin> fst ` set sysctl_settings"
    using assms(3) by (auto simp: key_path_def Let_def sysctl_settings_def)
  with assms(4) have other: "\<forall>content. Wrote ?path content \<notin> set rest" by blast
  note kept = after_effects_other [OF other]
  show ?thesis
  proof (cases "os_ReadFile os ?path")
    case (FileContent data)
    with assms(2) True have "eff = []" by (auto simp: loadOrCreatePrivateKey_def Let_def split: if_splits)
    with assms(2) True FileContent kept [of "os_ReadFile os"] show ?thesis
      by (simp add: loadOrCreatePrivateKey_def after_effects_def)
  next
    case NotExist
    with assms(2) True obtain key where key: "GeneratePrivateKey ty = Inr key"
      "cfg' = cfg\<lparr>ServerPrivateKey := KeyString ty key\<rparr>" "eff = [Wrote ?path (KeyString ty key @ [CHR 0x0A])]"
      by (auto simp: loadOrCreatePrivateKey_def Let_def split: sum.splits option.splits)
    have ok: "ParseKey ty (KeyString ty key) = Some key" "list_all (\<lambda>c. \<not> is_space c) (KeyString ty key)"
      using assms(1) by (auto simp: wgtypes_ok_def)
    have "TrimSpace (KeyString ty key @ [CHR 0x0A]) = KeyString ty key"
    proof (cases "KeyString ty key")
      case Nil
      then show ?thesis by (simp add: TrimSpace_def trim_def trim_left_def trim_right_def is_space_def)
    next
      case (Cons ch chs)
      with ok(2) have "dropWhile is_space (KeyString ty key @ [CHR 0x0A]) = KeyString ty key @ [CHR 0x0A]" by simp
      then have "TrimSpace (KeyString ty key @ [CHR 0x0A]) = trim_right is_space (KeyString ty key @ [CHR 0x0A])"
        by (simp add: TrimSpace_def trim_def trim_left_def)
      also have "\<dots> = trim_right is_space (KeyString ty key)" by (simp add: trim_right_def is_space_def)
      also have "\<dots> = trim is_space (KeyString ty key)" using ok(2) Cons by (simp add: trim_def trim_left_def)
      finally show ?thesis using trim_idem [OF ok(2)] by simp
    qed
    with ok True key kept show ?thesis
      by (simp add: loadOrCreatePrivateKey_def after_effects_def)
  next
    case (FileError err)
    with assms(2) True show ?thesis by (simp add: loadOrCreatePrivateKey_def Let_def)
  qed
qed

lemma createInterface_writes: "createInterface os = (r, eff) \<Longrightarrow> e \<in> set eff \<Longrightarrow> e \<noteq> Wrote path content"
  by (auto simp: createInterface_def Let_def split: if_splits option.splits)

lemma ensureProcSysctl_writes: "Wrote path content \<in> set (snd (ensureProcSysctl os p v)) \<Longrightarrow> path = p"
  by (auto simp: ensureProcSysctl_def split: if_splits option.splits)

lemma sysctl_writes:
  "Wrote path content \<in> set (concat (map (\<lambda>(path, val). snd (ensureProcSysctl os path val)) settings)) \<Longrightarrow>
   path \<in> fst ` set settings"
proof (induction settings)
  case (Cons p settings)
  then show ?case by (cases p) (auto dest: ensureProcSysctl_writes simp del: set_concat)
qed simp

lemma ran_writes: "Wrote path content \<notin> set (map Ran commands)"
  by auto

text \<open>
  When the interface comes up, the device runs with the key that the server announces to its
  clients, and a restart that finds the files of this run loads the same key, so clients keep
  a valid configuration. The key file must not be one of the three kernel settings.
\<close>

theorem server_identity:
  assumes "wgtypes_ok ty" "InitInterface ty os dev c = (None, c', eff)"
    and "TrimSpace (PrivateKeyPath (co_cfg c)) \<notin> fst ` set sysctl_settings"
  shows "\<exists>k eff'. SetInterface k (ListenPort (co_cfg c)) \<in> set (co_device c') \<and>
     ServerPublicKey (GetServerConfig ty c') = KeyString ty (PublicKeyOf ty k) \<and>
     co_client c' \<and> Subnet (co_cfg c') = Subnet (co_cfg c) \<and>
     loadOrCreatePrivateKey ty (after_effects eff os) (co_cfg c) = (None, co_cfg c', eff')"
proof -
  obtain r0 cfg eff0 where l: "loadOrCreatePrivateKey ty os (co_cfg c) = (r0, cfg, eff0)"
    by (cases "loadOrCreatePrivateKey ty os (co_cfg c)")
  obtain r1 eff1 where cr: "createInterface os = (r1, eff1)" by fastforce
  from assms(2) l cr obtain k rest where i: "r0 = None" "ParseKey ty (ServerPrivateKey cfg) = Some k"
    "co_cfg c' = cfg" "co_client c'" "co_device c' = co_device c @ [SetInterface k (ListenPort cfg)]"
    "eff = eff0 @ eff1 @ rest @ concat (map (\<lambda>(path, val). snd (ensureProcSysctl os path val)) sysctl_settings)
       @ map Ran iptables_commands" "\<forall>path content. Wrote path content \<notin> set rest"
    by (auto simp: InitInterface_def Let_def split: option.splits prod.splits)
  from l i(1) have same: "ListenPort cfg = ListenPort (co_cfg c)" "Subnet cfg = Subnet (co_cfg c)"
    by (auto simp: loadOrCreatePrivateKey_def Let_def split: if_splits option.splits file_read.splits sum.splits)
  have "ServerPrivateKey cfg \<noteq> []" using assms(1) i(2) by (auto simp: wgtypes_ok_def)
  then have "ServerPublicKey (GetServerConfig ty c') = KeyString ty (PublicKeyOf ty k)"
    by (simp add: GetServerConfig_def i(2,3))
  moreover have "\<exists>eff'. loadOrCreatePrivateKey ty (after_effects eff os) (co_cfg c) = (None, co_cfg c', eff')"
    unfolding i(3,6)
  proof (rule key_loaded_again [OF assms(1) l [unfolded i(1)]])
    show "\<forall>e \<in> set (eff1 @ rest @ concat (map (\<lambda>(path, val). snd (ensureProcSysctl os path val)) sysctl_settings)
       @ map Ran iptables_commands). \<forall>path content. e = Wrote path content \<longrightarrow> path \<in> fst ` set sysctl_settings"
      using createInterface_writes [OF cr] sysctl_writes [of _ _ os sysctl_settings] i(7) ran_writes
      by (auto simp del: set_concat set_map)
  qed (use assms(3) in auto)
  ultimately show ?thesis using i same by auto
qed

theorem server_identity_witness:
  "\<exists>c' eff eff'. InitInterface demo_keys \<lparr>RunCommand = (\<lambda>_. None), os_ReadFile = (\<lambda>_. NotExist),
       MkdirParent = (\<lambda>_. None), os_WriteFile = (\<lambda>_. None), SocketSeen = (\<lambda>_. True), wgctrl_New = None\<rparr>
       (\<lambda>_. None) (NewCoordinator demo_wg) = (None, c', eff) \<and>
     ServerPrivateKey (co_cfg c') = ''11111111'' \<and> co_client c' \<and>
     loadOrCreatePrivateKey demo_keys (after_effects eff \<lparr>RunCommand = (\<lambda>_. None), os_ReadFile = (\<lambda>_. NotExist),
       MkdirParent = (\<lambda>_. None), os_WriteFile = (\<lambda>_. None), SocketSeen = (\<lambda>_. True), wgctrl_New = None\<rparr>)
       demo_wg = (None, co_cfg c', eff')"
    (is "\<exists>c' eff eff'. InitInterface _ ?os _ _ = _ \<and> _")
proof -
  have ts: "TrimSpace [] = []" by (simp add: TrimSpace_def trim_def trim_left_def trim_right_def)
  have key: "loadOrCreatePrivateKey demo_keys ?os demo_wg
    = (None, demo_wg\<lparr>ServerPrivateKey := ''11111111''\<rparr>, [Wrote ''./data/wireguard.key'' (''11111111'' @ [CHR 0x0A])])"
    by (simp add: loadOrCreatePrivateKey_def key_path_def demo_wg_def demo_keys_def ts replicate_app_Cons_same numeral_eq_Suc)
  have net: "ParseCIDR (Subnet demo_wg) = Some (V4 10 0 8 0, V4 10 0 8 0, 24)" by code_simp
  have "ParseKey demo_keys ''11111111'' = Some True" by (simp add: demo_keys_def)
  with key net obtain c' eff where i: "InitInterface demo_keys ?os (\<lambda>_. None) (NewCoordinator demo_wg) = (None, c', eff)"
    "co_cfg c' = demo_wg\<lparr>ServerPrivateKey := ''11111111''\<rparr>"
    by (simp add: InitInterface_def NewCoordinator_def createInterface_def Let_def)
  from server_identity [OF demo_keys_ok i(1)] i show ?thesis
    by (auto simp: NewCoordinator_def demo_wg_def ts sysctl_settings_def)
qed

end
