(* ===== verification/Go_Channel.thy ===== *)
theory Go_Channel
  imports Prelude
begin

text \<open>
  Buffered Go channels as the code uses them: a send that gives up when the buffer is full
  (\<open>select\<close> with a \<open>default\<close> branch), \<open>close\<close>, and a receive. Sending on a closed channel
  and closing a closed channel panic, as the Go language specifies.
\<close>

record 'a chan =
  ch_buf :: "'a list"
  ch_cap :: nat
  ch_closed :: bool

definition make_chan :: "nat \<Rightarrow> 'a chan" where
  "make_chan n = \<lparr>ch_buf = [], ch_cap = n, ch_closed = False\<rparr>"

text \<open>\<open>select { case c <- x: default: }\<close>\<close>

definition offer :: "'a \<Rightarrow> 'a chan \<Rightarrow> 'a chan option" where
  "offer x c =
     (if ch_closed c then None
      else if length (ch_buf c) < ch_cap c then Some (c\<lparr>ch_buf := ch_buf c @ [x]\<rparr>)
      else Some c)"

definition close_chan :: "'a chan \<Rightarrow> 'a chan option" where
  "close_chan c = (if ch_closed c then None else Some (c\<lparr>ch_closed := True\<rparr>))"

text \<open>\<open>x, ok := <-c\<close>: a buffered value comes out even when the channel is closed.\<close>

datatype 'a received = Value 'a | Closed | Blocked

definition receive :: "'a chan \<Rightarrow> 'a received \<times> 'a chan" where
  "receive c =
     (case ch_buf c of
        x # xs \<Rightarrow> (Value x, c\<lparr>ch_buf := xs\<rparr>)
      | [] \<Rightarrow> (if ch_closed c then Closed else Blocked, c))"

definition chan_ok :: "nat \<Rightarrow> 'a chan \<Rightarrow> bool" where
  "chan_ok n c \<longleftrightarrow> ch_cap c = n \<and> length (ch_buf c) \<le> n"

lemma make_chan_simps [simp]:
  "ch_buf (make_chan n) = []" "ch_cap (make_chan n) = n" "\<not> ch_closed (make_chan n)"
  by (simp_all add: make_chan_def)

lemma chan_ok_make [simp]: "chan_ok n (make_chan n)"
  by (simp add: chan_ok_def)

lemma offer_ok: "offer x c = Some c' \<Longrightarrow> chan_ok n c \<Longrightarrow> chan_ok n c'"
  by (auto simp: offer_def chan_ok_def split: if_splits)

lemma offer_closed: "offer x c = Some c' \<Longrightarrow> ch_closed c' \<longleftrightarrow> ch_closed c"
  by (auto simp: offer_def split: if_splits)

lemma offer_panics: "offer x c = None \<longleftrightarrow> ch_closed c"
  by (simp add: offer_def)

lemma offer_open: "\<not> ch_closed c \<Longrightarrow> \<exists>c'. offer x c = Some c'"
  by (simp add: offer_def)

text \<open>The buffer after a send: the value is appended or, when the buffer is full, dropped.\<close>

lemma offer_buf:
  "offer x c = Some c' \<Longrightarrow> chan_ok n c \<Longrightarrow> ch_buf c' = take n (ch_buf c @ [x])"
  by (auto simp: offer_def chan_ok_def split: if_splits)

lemma close_chan_ok: "close_chan c = Some c' \<Longrightarrow> chan_ok n c \<Longrightarrow> chan_ok n c'"
  by (auto simp: close_chan_def chan_ok_def split: if_splits)

lemma close_chan_open: "\<not> ch_closed c \<Longrightarrow> close_chan c = Some (c\<lparr>ch_closed := True\<rparr>)"
  by (simp add: close_chan_def)

lemma receive_ok: "chan_ok n c \<Longrightarrow> chan_ok n (snd (receive c))"
  by (auto simp: receive_def chan_ok_def split: list.splits)

lemma receive_closed [simp]: "ch_closed (snd (receive c)) \<longleftrightarrow> ch_closed c"
  by (auto simp: receive_def split: list.splits)

text \<open>Draining a channel: everything that was buffered, in the order it was sent.\<close>

fun receive_n :: "nat \<Rightarrow> 'a chan \<Rightarrow> 'a received list \<times> 'a chan" where
  "receive_n 0 c = ([], c)"
| "receive_n (Suc n) c =
     (let (x, c') = receive c; (xs, c'') = receive_n n c' in (x # xs, c''))"

lemma receive_n_drains:
  "fst (receive_n (length (ch_buf c)) c) = map Value (ch_buf c)"
proof (induction "ch_buf c" arbitrary: c)
  case Nil
  then show ?case by (simp add: Nil [symmetric])
next
  case (Cons x xs)
  have "ch_buf (c\<lparr>ch_buf := xs\<rparr>) = xs" by simp
  with Cons(1) [of "c\<lparr>ch_buf := xs\<rparr>"] Cons(2) [symmetric] show ?case
    by (cases "receive_n (length xs) (c\<lparr>ch_buf := xs\<rparr>)") (simp add: receive_def)
qed

end
