(* ===== verification/Hub.thy ===== *)
theory Hub
  imports Wireguard Voice Go_Channel Go_Json
begin

text \<open>
  \<open>server/internal/ws\<close>: the connections of the users, the rooms they have joined and the events
  they are sent. A \<open>Client\<close> is a cell of a heap, because a user who reconnects has two of them
  for a while and the hub compares the pointers. A panic, which ends the process, is \<open>None\<close>.

  \<open>Hub.Broadcast\<close> has no buffer and is read by \<open>Run\<close> only, so a request waits, in the order of
  the requests, until \<open>Run\<close> takes it: \<open>h_pending\<close>. A pong is sent with a blocking send; one
  that does not fit waits in \<open>c_waiting\<close> (the reader of the connection is blocked meanwhile). A
  handler is one step up to the requests it makes. \<open>Hub.Clients\<close> is an association list with
  distinct keys; the order in which the code ranges over it is not specified.
\<close>

section \<open>Messages\<close>

record ice_server =
  ice_URLs :: "string list"
  ice_Username :: string
  ice_Credential :: string

type_synonym rtc_client_config = "ice_server list"

record sender_info =
  si_ID :: uint64
  si_Nickname :: string
  si_AvatarURL :: string

record chat_message =
  cm_ID :: uint64
  cm_RoomID :: uint64
  cm_SenderID :: uint64
  cm_Type :: string
  cm_Content :: string
  cm_Meta :: "(string \<times> json) list option"
  cm_ClientMessageID :: string
  cm_CreatedAt :: time
  cm_Sender :: sender_info

record peer_info =
  pi_UserID :: uint64
  pi_Nickname :: string
  pi_PublicKey :: string
  pi_AssignedIP :: string

text \<open>The \<open>rtc.error\<close> event carries a text; the model keeps its cause.\<close>

datatype rtc_failure = NotRoomMember | EngineUnavailable | InvalidOffer | EngineError voice_error

datatype payload =
    ConnectedP uint64 string rtc_client_config
  | PongP
  | RoomJoinedP uint64
  | RoomJoinErrorP uint64 string
  | ChatMessageP chat_message
  | ChatErrorP uint64 string string
  | MemberJoinP uint64 uint64 string string
  | MemberLeaveP uint64 uint64
  | KickedP string
  | DisbandedP uint64
  | VoiceStateP uint64 uint64 bool bool
  | RTCErrorP rtc_failure
  | FriendRequestP uint64 string
  | FriendAcceptedP uint64 string
  | IngressUpdateP uint64 string
  | VlanPeerUpdateP uint64 string peer_info
  | MediaP voice_payload

fun event_of :: "payload \<Rightarrow> string" where
  "event_of (ConnectedP _ _ _) = ''connected''"
| "event_of PongP = ''pong''"
| "event_of (RoomJoinedP _) = ''room.joined''"
| "event_of (RoomJoinErrorP _ _) = ''room.join_error''"
| "event_of (ChatMessageP _) = ''chat.message''"
| "event_of (ChatErrorP _ _ _) = ''chat.error''"
| "event_of (MemberJoinP _ _ _ _) = ''room.member_join''"
| "event_of (MemberLeaveP _ _) = ''room.member_leave''"
| "event_of (KickedP _) = ''room.kicked''"
| "event_of (DisbandedP _) = ''room.disbanded''"
| "event_of (VoiceStateP _ _ _ _) = ''voice.state_update''"
| "event_of (RTCErrorP _) = ''rtc.error''"
| "event_of (FriendRequestP _ _) = ''friend.request''"
| "event_of (FriendAcceptedP _ _) = ''friend.accepted''"
| "event_of (IngressUpdateP _ _) = ''room.ingress_update''"
| "event_of (VlanPeerUpdateP _ _ _) = ''vlan.peer_update''"
| "event_of (MediaP (RtcAnswer _)) = ''rtc.answer''"
| "event_of (MediaP (RtcOffer _)) = ''rtc.offer''"
| "event_of (MediaP (RtcICE _)) = ''rtc.ice''"
| "event_of (MediaP (RtcParticipants _)) = ''rtc.participants''"
| "event_of (MediaP (RtcState _)) = ''rtc.state''"

text \<open>The envelope without its time stamp; the event is the one of the payload.\<close>

record envelope =
  ev_RoomID :: uint64
  ev_Payload :: payload

text \<open>What a client sends.\<close>

record inbound =
  in_Event :: string
  in_RoomID :: uint64
  in_Payload :: "json option"

definition decode_envelope :: "(json \<Rightarrow> bool) \<Rightarrow> json \<Rightarrow> inbound option" where
  "decode_envelope valid_timestamp j = do {
     event \<leftarrow> decode_field as_string [] ''event'' j;
     room_id \<leftarrow> decode_field as_uint64 0 ''room_id'' j;
     payload \<leftarrow> decode_field as_raw None ''payload'' j;
     decode_field (\<lambda>v u. if valid_timestamp v then Some () else None) () ''timestamp'' j;
     Some \<lparr>in_Event = event, in_RoomID = room_id, in_Payload = payload\<rparr>
   }"

definition decode_room :: "json option \<Rightarrow> uint64 option" where
  "decode_room p = Option.bind p (decode_field as_uint64 0 ''room_id'')"

record chat_send =
  cs_RoomID :: uint64
  cs_Type :: string
  cs_Content :: string
  cs_Meta :: "(string \<times> json) list option"
  cs_ClientMessageID :: string

definition decode_chat :: "json option \<Rightarrow> chat_send option" where
  "decode_chat p = do {
     j \<leftarrow> p;
     room_id \<leftarrow> decode_field as_uint64 0 ''room_id'' j;
     type \<leftarrow> decode_field as_string [] ''type'' j;
     content \<leftarrow> decode_field as_string [] ''content'' j;
     meta \<leftarrow> decode_field as_object None ''meta'' j;
     cid \<leftarrow> decode_field as_string [] ''client_message_id'' j;
     Some \<lparr>cs_RoomID = room_id, cs_Type = type, cs_Content = content, cs_Meta = meta, cs_ClientMessageID = cid\<rparr>
   }"

definition decode_mute :: "json option \<Rightarrow> (uint64 \<times> bool) option" where
  "decode_mute p = do {
     j \<leftarrow> p;
     room_id \<leftarrow> decode_field as_uint64 0 ''room_id'' j;
     isMuted \<leftarrow> decode_field as_bool False ''muted'' j;
     Some (room_id, isMuted)
   }"

definition decode_speaking :: "json option \<Rightarrow> bool option" where
  "decode_speaking p = Option.bind p (decode_field as_bool False ''speaking'')"

text \<open>\<open>voice.DecodeDescription\<close> (the SDP; the type is not looked at) and \<open>voice.DecodeCandidate\<close>.\<close>

definition DecodeDescription :: "json option \<Rightarrow> string option" where
  "DecodeDescription p = do {
     j \<leftarrow> p;
     decode_field as_string [] ''type'' j;
     decode_field as_string [] ''sdp'' j
   }"

definition as_string_ptr :: "string option field_decoder" where
  "as_string_ptr v cur = (case v of JNull \<Rightarrow> Some None | JStr s \<Rightarrow> Some (Some s) | _ \<Rightarrow> None)"

definition as_uint16_ptr :: "nat option field_decoder" where
  "as_uint16_ptr v cur = (case v of JNull \<Rightarrow> Some None
     | JNum n \<Rightarrow> if 0 \<le> n \<and> n < 2 ^ 16 then Some (Some (nat n)) else None | _ \<Rightarrow> None)"

definition DecodeCandidate :: "json option \<Rightarrow> (string \<times> string option \<times> nat option) option" where
  "DecodeCandidate p = do {
     j \<leftarrow> p;
     candidate \<leftarrow> decode_field as_string [] ''candidate'' j;
     mid \<leftarrow> decode_field as_string_ptr None ''sdp_mid'' j;
     line \<leftarrow> decode_field as_uint16_ptr None ''sdp_mline_index'' j;
     Some (candidate, mid, line)
   }"

section \<open>Clients\<close>

record client =
  c_UserID :: uint64
  c_Username :: string
  c_Role :: string
  c_rooms :: "uint64 list"
  c_Send :: "envelope chan"
  c_once :: bool
  c_waiting :: "envelope list"

definition NewClient :: "uint64 \<Rightarrow> string \<Rightarrow> string \<Rightarrow> client" where
  "NewClient userID username role = \<lparr>c_UserID = userID, c_Username = username, c_Role = role,
     c_rooms = [], c_Send = make_chan 256, c_once = False, c_waiting = []\<rparr>"

definition JoinRoom :: "uint64 \<Rightarrow> client \<Rightarrow> client" where
  "JoinRoom roomID c = c\<lparr>c_rooms := List.insert roomID (c_rooms c)\<rparr>"

definition LeaveRoom :: "uint64 \<Rightarrow> client \<Rightarrow> client" where
  "LeaveRoom roomID c = c\<lparr>c_rooms := filter (\<lambda>r. r \<noteq> roomID) (c_rooms c)\<rparr>"

definition IsInRoom :: "uint64 \<Rightarrow> client \<Rightarrow> bool" where
  "IsInRoom roomID c \<longleftrightarrow> roomID \<in> set (c_rooms c)"

definition GetRooms :: "client \<Rightarrow> uint64 list" where
  "GetRooms c = c_rooms c"

text \<open>Closing a channel on which a goroutine waits to send makes that goroutine panic.\<close>

definition closeSend :: "client \<Rightarrow> client option" where
  "closeSend c =
     (if c_once c then Some c
      else if c_waiting c \<noteq> [] then None
      else map_option (\<lambda>ch. c\<lparr>c_Send := ch, c_once := True\<rparr>) (close_chan (c_Send c)))"

definition SendEventToRoom :: "payload \<Rightarrow> uint64 \<Rightarrow> client \<Rightarrow> client option" where
  "SendEventToRoom pl roomID c =
     (let env = \<lparr>ev_RoomID = roomID, ev_Payload = pl\<rparr> in
      if ch_closed (c_Send c) then None
      else if length (ch_buf (c_Send c)) < ch_cap (c_Send c)
      then Some (c\<lparr>c_Send := (c_Send c)\<lparr>ch_buf := ch_buf (c_Send c) @ [env]\<rparr>\<rparr>)
      else closeSend c)"

definition SendEvent :: "payload \<Rightarrow> client \<Rightarrow> client option" where
  "SendEvent pl = SendEventToRoom pl 0"

text \<open>\<open>c.Send <- data\<close>\<close>

definition handleHeartbeat :: "client \<Rightarrow> client option" where
  "handleHeartbeat c =
     (let env = \<lparr>ev_RoomID = 0, ev_Payload = PongP\<rparr> in
      if ch_closed (c_Send c) then None
      else if length (ch_buf (c_Send c)) < ch_cap (c_Send c)
      then Some (c\<lparr>c_Send := (c_Send c)\<lparr>ch_buf := ch_buf (c_Send c) @ [env]\<rparr>\<rparr>)
      else Some (c\<lparr>c_waiting := c_waiting c @ [env]\<rparr>))"

text \<open>
  One turn of \<open>WritePump\<close>: the next message, if there is one; the place it leaves is taken by
  a sender that waits.
\<close>

definition WritePump :: "client \<Rightarrow> envelope received \<times> client" where
  "WritePump c =
     (case receive (c_Send c) of (x, ch) \<Rightarrow>
        (case c_waiting c of
           env # envs \<Rightarrow>
             if length (ch_buf ch) < ch_cap ch
             then (x, c\<lparr>c_Send := ch\<lparr>ch_buf := ch_buf ch @ [env]\<rparr>, c_waiting := envs\<rparr>)
             else (x, c\<lparr>c_Send := ch\<rparr>)
         | [] \<Rightarrow> (x, c\<lparr>c_Send := ch\<rparr>)))"

section \<open>The hub\<close>

record broadcast_message =
  bm_RoomID :: uint64
  bm_Payload :: payload
  bm_ExcludeUserID :: uint64

record hub =
  h_cells :: "addr \<Rightarrow> client option"
  h_Clients :: "(uint64 \<times> addr) list"
  h_pending :: "broadcast_message list"
  h_voice :: "engine option"
  h_wg :: bool
  h_cleanups :: "(uint64 \<times> uint64) list"
  h_rtcConfig :: rtc_client_config
  h_rtcProvider :: "rtc_client_config option"

definition NewHub :: hub where
  "NewHub = \<lparr>h_cells = (\<lambda>_. None), h_Clients = [], h_pending = [], h_voice = None, h_wg = False,
     h_cleanups = [], h_rtcConfig = [], h_rtcProvider = None\<rparr>"

text \<open>What \<open>main\<close> sets before the hub runs. Of the coordinator only whether there is one.\<close>

definition SetWGCoordinator :: "hub \<Rightarrow> hub" where
  "SetWGCoordinator h = h\<lparr>h_wg := True\<rparr>"

definition SetVoiceEngine :: "engine \<Rightarrow> hub \<Rightarrow> hub" where
  "SetVoiceEngine e h = h\<lparr>h_voice := Some e\<rparr>"

definition SetRTCClientConfig :: "rtc_client_config \<Rightarrow> hub \<Rightarrow> hub" where
  "SetRTCClientConfig cfg h = h\<lparr>h_rtcConfig := cfg\<rparr>"

definition SetRTCClientConfigProvider :: "rtc_client_config \<Rightarrow> hub \<Rightarrow> hub" where
  "SetRTCClientConfigProvider current h = h\<lparr>h_rtcProvider := Some current\<rparr>"

lemmas hub_setters = SetWGCoordinator_def SetVoiceEngine_def SetRTCClientConfig_def SetRTCClientConfigProvider_def

definition currentRTCClientConfig :: "hub \<Rightarrow> rtc_client_config" where
  "currentRTCClientConfig h =
     (case h_rtcProvider h of Some config \<Rightarrow> config | None \<Rightarrow> h_rtcConfig h)"

definition on_client :: "(client \<Rightarrow> client option) \<Rightarrow> addr \<Rightarrow> hub \<Rightarrow> hub option" where
  "on_client f a h = map_option (\<lambda>cells. h\<lparr>h_cells := cells\<rparr>) (update_cell f a (h_cells h))"

definition BroadcastToRoom :: "uint64 \<Rightarrow> payload \<Rightarrow> uint64 \<Rightarrow> hub \<Rightarrow> hub" where
  "BroadcastToRoom roomID pl excludeUserID h =
     h\<lparr>h_pending := h_pending h @ [\<lparr>bm_RoomID = roomID, bm_Payload = pl, bm_ExcludeUserID = excludeUserID\<rparr>]\<rparr>"

definition send_if_in_room :: "payload \<Rightarrow> uint64 \<Rightarrow> client \<Rightarrow> client option" where
  "send_if_in_room pl roomID c = (if IsInRoom roomID c then SendEventToRoom pl roomID c else Some c)"

text \<open>\<open>broadcastToRoom\<close>, which \<open>Run\<close> calls\<close>

definition deliver_to :: "uint64 \<Rightarrow> payload \<Rightarrow> uint64 \<Rightarrow> uint64 \<times> addr \<Rightarrow> hub \<Rightarrow> hub option" where
  "deliver_to roomID pl excludeUserID entry h =
     (if fst entry = excludeUserID then Some h else on_client (send_if_in_room pl roomID) (snd entry) h)"

definition deliver_to_room :: "uint64 \<Rightarrow> payload \<Rightarrow> uint64 \<Rightarrow> hub \<Rightarrow> hub option" where
  "deliver_to_room roomID pl excludeUserID h =
     for_each (deliver_to roomID pl excludeUserID) (h_Clients h) h"

definition SendToUser :: "uint64 \<Rightarrow> payload \<Rightarrow> hub \<Rightarrow> hub option" where
  "SendToUser userID pl h =
     (case map_of (h_Clients h) userID of None \<Rightarrow> Some h | Some a \<Rightarrow> on_client (SendEvent pl) a h)"

definition SendMediaSignal :: "signal \<Rightarrow> hub \<Rightarrow> hub option" where
  "SendMediaSignal s h =
     (case map_of (h_Clients h) (sg_user s) of None \<Rightarrow> Some h
      | Some a \<Rightarrow> on_client (SendEventToRoom (MediaP (sg_payload s)) (sg_room s)) a h)"

definition GetOnlineUsersInRoom :: "uint64 \<Rightarrow> hub \<Rightarrow> uint64 list" where
  "GetOnlineUsersInRoom roomID h =
     map fst (filter (\<lambda>(userID, a). case h_cells h a of Some c \<Rightarrow> IsInRoom roomID c | None \<Rightarrow> False)
                (h_Clients h))"

definition IsUserOnline :: "uint64 \<Rightarrow> hub \<Rightarrow> bool" where
  "IsUserOnline userID h \<longleftrightarrow> map_of (h_Clients h) userID \<noteq> None"

definition OnlineCount :: "hub \<Rightarrow> nat" where
  "OnlineCount h = length (h_Clients h)"

text \<open>A call of the voice engine, and the delivery of the signals it emits.\<close>

definition with_voice :: "(engine \<Rightarrow> engine \<times> signal list) \<Rightarrow> hub \<Rightarrow> hub option" where
  "with_voice f h =
     (case h_voice h of None \<Rightarrow> Some h
      | Some e \<Rightarrow> (case f e of (e', sigs) \<Rightarrow> for_each SendMediaSignal sigs (h\<lparr>h_voice := Some e'\<rparr>)))"

definition scheduleWGPeerCleanup :: "uint64 \<Rightarrow> uint64 \<Rightarrow> hub \<Rightarrow> hub" where
  "scheduleWGPeerCleanup roomID userID h =
     (if \<not> h_wg h then h else h\<lparr>h_cleanups := h_cleanups h @ [(roomID, userID)]\<rparr>)"

text \<open>The branches of \<open>Run\<close>.\<close>

definition Run_Register :: "addr \<Rightarrow> hub \<Rightarrow> hub option" where
  "Run_Register a h =
     (case h_cells h a of None \<Rightarrow> None
      | Some c \<Rightarrow>
          let h1 = h\<lparr>h_Clients := AList.update (c_UserID c) a (h_Clients h)\<rparr>
          in on_client (SendEvent (ConnectedP (c_UserID c) ''2.3.0'' (currentRTCClientConfig h1))) a h1)"

definition notify_room :: "uint64 \<Rightarrow> uint64 \<Rightarrow> hub \<Rightarrow> hub option" where
  "notify_room userID roomID h =
     map_option (scheduleWGPeerCleanup roomID userID)
       (deliver_to_room roomID (MemberLeaveP userID roomID) userID h)"

definition Run_Unregister :: "(uint64 \<times> uint64 \<Rightarrow> pion) \<Rightarrow> addr \<Rightarrow> hub \<Rightarrow> hub option" where
  "Run_Unregister libs a h = do {
     c \<leftarrow> h_cells h a;
     h1 \<leftarrow> with_voice (LeaveUser libs (c_UserID c)) h;
     c1 \<leftarrow> h_cells h1 a;
     let (roomsToNotify, h2) =
       (if map_of (h_Clients h1) (c_UserID c1) = Some a
        then (GetRooms c1, h1\<lparr>h_Clients := AList.delete (c_UserID c1) (h_Clients h1)\<rparr>)
        else ([], h1));
     h3 \<leftarrow> on_client closeSend a h2;
     for_each (notify_room (c_UserID c1)) roomsToNotify h3
   }"

definition Run_Broadcast :: "hub \<Rightarrow> hub option" where
  "Run_Broadcast h =
     (case h_pending h of [] \<Rightarrow> Some h
      | m # ms \<Rightarrow> deliver_to_room (bm_RoomID m) (bm_Payload m) (bm_ExcludeUserID m) (h\<lparr>h_pending := ms\<rparr>))"

text \<open>The loop: what the \<open>select\<close> receives, in order.\<close>

datatype hub_event = RegisterEvent addr | UnregisterEvent addr | BroadcastEvent

fun hub_Run :: "(uint64 \<times> uint64 \<Rightarrow> pion) \<Rightarrow> hub_event list \<Rightarrow> hub \<Rightarrow> hub option" where
  "hub_Run libs [] h = Some h"
| "hub_Run libs (RegisterEvent a # evs) h = Option.bind (Run_Register a h) (hub_Run libs evs)"
| "hub_Run libs (UnregisterEvent a # evs) h = Option.bind (Run_Unregister libs a h) (hub_Run libs evs)"
| "hub_Run libs (BroadcastEvent # evs) h = Option.bind (Run_Broadcast h) (hub_Run libs evs)"

text \<open>The goroutine of \<open>scheduleWGPeerCleanup\<close> when its delay is over.\<close>

definition wg_cleanup ::
  "(nat \<Rightarrow> gorm) \<Rightarrow> 'k wgtypes \<Rightarrow> 'k device \<Rightarrow> uint64 \<Rightarrow> uint64 \<Rightarrow> hub \<Rightarrow> database \<Rightarrow> 'k coordinator
     \<Rightarrow> (hub \<times> database \<times> 'k coordinator) option" where
  "wg_cleanup g ty dev roomID userID h db w =
     (let reconnected =
        (case Option.bind (map_of (h_Clients h) userID) (h_cells h) of
           Some current \<Rightarrow> IsInRoom roomID current | None \<Rightarrow> False)
      in if reconnected then Some (h, db, w)
         else do {
           (res, db1, w1) \<leftarrow> UnregisterPeer g ty dev roomID userID db w;
           (case res of
              Inl err \<Rightarrow> Some (h, db1, w1)
            | Inr _ \<Rightarrow> do {
                h1 \<leftarrow> deliver_to_room roomID (VlanPeerUpdateP roomID ''leave''
                       \<lparr>pi_UserID = userID, pi_Nickname = [], pi_PublicKey = [], pi_AssignedIP = []\<rparr>) userID h;
                Some (h1, db1, w1)
              })
         })"

definition KickUserFromRoom :: "uint64 \<Rightarrow> uint64 \<Rightarrow> string \<Rightarrow> hub \<Rightarrow> hub option" where
  "KickUserFromRoom roomID userID reason h = do {
     h1 \<leftarrow> SendToUser userID (KickedP reason) h;
     let h2 = BroadcastToRoom roomID (MemberLeaveP userID roomID) userID h1;
     (case map_of (h_Clients h2) userID of
        None \<Rightarrow> Some h2
      | Some a \<Rightarrow> on_client (Some \<circ> LeaveRoom roomID) a h2)
   }"

section \<open>The handlers of a client\<close>

definition room_of :: "inbound \<Rightarrow> uint64 \<Rightarrow> uint64" where
  "room_of env fromPayload = (if in_RoomID env = 0 then fromPayload else in_RoomID env)"

definition handleRoomJoin :: "(nat \<Rightarrow> gorm) \<Rightarrow> addr \<Rightarrow> inbound \<Rightarrow> database \<Rightarrow> hub \<Rightarrow> hub option" where
  "handleRoomJoin g a env db h =
     (case decode_room (in_Payload env) of None \<Rightarrow> Some h
      | Some p \<Rightarrow> do {
          c \<leftarrow> h_cells h a;
          let roomID = room_of env p;
          if \<not> IsMember (g 0) roomID (c_UserID c) db
          then on_client (SendEventToRoom (RoomJoinErrorP roomID ''not_a_member'') roomID) a h
          else do {
            h1 \<leftarrow> on_client (Some \<circ> JoinRoom roomID) a h;
            h2 \<leftarrow> on_client (SendEventToRoom (RoomJoinedP roomID) roomID) a h1;
            let user = User_FindByID (g 1) (c_UserID c) db;
            let nickname = (case user of Inr u \<Rightarrow> Nickname u | Inl _ \<Rightarrow> c_Username c);
            let avatarURL = (case user of Inr u \<Rightarrow> AvatarURL u | Inl _ \<Rightarrow> []);
            Some (BroadcastToRoom roomID (MemberJoinP (c_UserID c) roomID nickname avatarURL) (c_UserID c) h2)
          }
        })"

definition handleRoomLeave :: "pion \<Rightarrow> addr \<Rightarrow> inbound \<Rightarrow> hub \<Rightarrow> hub option" where
  "handleRoomLeave lib a env h =
     (case decode_room (in_Payload env) of None \<Rightarrow> Some h
      | Some p \<Rightarrow> do {
          c \<leftarrow> h_cells h a;
          let roomID = room_of env p;
          h1 \<leftarrow> on_client (Some \<circ> LeaveRoom roomID) a h;
          h2 \<leftarrow> with_voice (Leave lib roomID (c_UserID c)) h1;
          Some (BroadcastToRoom roomID (MemberLeaveP (c_UserID c) roomID) (c_UserID c) h2)
        })"

text \<open>\<open>marshal\<close> is the text of a JSON object, which the database keeps.\<close>

definition sendChatError :: "addr \<Rightarrow> chat_send \<Rightarrow> string \<Rightarrow> hub \<Rightarrow> hub option" where
  "sendChatError a p reason =
     on_client (SendEventToRoom (ChatErrorP (cs_RoomID p) reason (cs_ClientMessageID p)) (cs_RoomID p)) a"

definition chat_message_row ::
  "((string \<times> json) list \<Rightarrow> string) \<Rightarrow> time \<Rightarrow> uint64 \<Rightarrow> string \<Rightarrow> chat_send \<Rightarrow> message" where
  "chat_message_row marshal now userID type p =
     \<lparr>msg_ID = 0, msg_RoomID = cs_RoomID p, SenderID = userID, msg_Type = type, Content = cs_Content p,
      Meta = map_option marshal (cs_Meta p), msg_CreatedAt = now\<rparr>"

definition HandleChatSend ::
  "((string \<times> json) list \<Rightarrow> string) \<Rightarrow> time \<Rightarrow> (nat \<Rightarrow> gorm) \<Rightarrow> addr \<Rightarrow> chat_send \<Rightarrow> database \<Rightarrow> hub
     \<Rightarrow> (hub \<times> database) option" where
  "HandleChatSend marshal now g a p db h = do {
     c \<leftarrow> h_cells h a;
     let keep = map_option (\<lambda>h'. (h', db));
     let type = ToLower (TrimSpace (cs_Type p));
     let maxContentLength = (if type = ''text'' then 8000 else 4096);
     if \<not> IsInRoom (cs_RoomID p) c
     then keep (on_client (SendEvent (ChatErrorP (cs_RoomID p) ''not_in_room'' (cs_ClientMessageID p))) a h)
     else if \<not> IsMember (g 0) (cs_RoomID p) (c_UserID c) db then keep (sendChatError a p ''not_a_member'' h)
     else if type \<noteq> ''text'' \<and> type \<noteq> ''image'' \<and> type \<noteq> ''file''
     then keep (sendChatError a p ''unsupported_message_type'' h)
     else if TrimSpace (cs_Content p) = [] then keep (sendChatError a p ''empty_content'' h)
     else if length (cs_Content p) > maxContentLength then keep (sendChatError a p ''content_too_large'' h)
     else case Message_Create (g 1) (chat_message_row marshal now (c_UserID c) type p) db of
            (Inl err, db1) \<Rightarrow> map_option (\<lambda>h'. (h', db1)) (sendChatError a p ''persistence_failed'' h)
          | (Inr msg, db1) \<Rightarrow>
              (case User_FindByID (g 2) (c_UserID c) db1 of
                 Inl err \<Rightarrow> map_option (\<lambda>h'. (h', db1)) (sendChatError a p ''sender_lookup_failed'' h)
               | Inr user \<Rightarrow>
                   Some (BroadcastToRoom (cs_RoomID p) (ChatMessageP
                     \<lparr>cm_ID = msg_ID msg, cm_RoomID = msg_RoomID msg, cm_SenderID = SenderID msg,
                      cm_Type = msg_Type msg, cm_Content = Content msg, cm_Meta = cs_Meta p,
                      cm_ClientMessageID = cs_ClientMessageID p, cm_CreatedAt = msg_CreatedAt msg,
                      cm_Sender = \<lparr>si_ID = c_UserID c, si_Nickname = Nickname user, si_AvatarURL = AvatarURL user\<rparr>\<rparr>)
                     0 h, db1))
   }"

definition handleChatSend ::
  "((string \<times> json) list \<Rightarrow> string) \<Rightarrow> time \<Rightarrow> (nat \<Rightarrow> gorm) \<Rightarrow> addr \<Rightarrow> inbound \<Rightarrow> database \<Rightarrow> hub
     \<Rightarrow> (hub \<times> database) option" where
  "handleChatSend marshal now g a env db h =
     (case decode_chat (in_Payload env) of None \<Rightarrow> Some (h, db)
      | Some p \<Rightarrow>
          HandleChatSend marshal now g a
            (if in_RoomID env \<noteq> 0 then p\<lparr>cs_RoomID := in_RoomID env\<rparr> else p) db h)"

definition handleVoiceMute :: "addr \<Rightarrow> inbound \<Rightarrow> hub \<Rightarrow> hub option" where
  "handleVoiceMute a env h =
     (case decode_mute (in_Payload env) of None \<Rightarrow> Some h
      | Some (p, isMuted) \<Rightarrow> do {
          c \<leftarrow> h_cells h a;
          let roomID = room_of env p;
          if \<not> IsInRoom roomID c then Some h
          else do {
            h1 \<leftarrow> with_voice (SetMuted roomID (c_UserID c) isMuted) h;
            Some (BroadcastToRoom roomID (VoiceStateP (c_UserID c) roomID isMuted False) 0 h1)
          }
        })"

definition handleRTCOffer :: "gorm \<Rightarrow> pion \<Rightarrow> addr \<Rightarrow> inbound \<Rightarrow> database \<Rightarrow> hub \<Rightarrow> hub option" where
  "handleRTCOffer g lib a env db h = do {
     c \<leftarrow> h_cells h a;
     let roomID = in_RoomID env;
     let fail = (\<lambda>reason. on_client (SendEventToRoom (RTCErrorP reason) roomID) a);
     if roomID = 0 \<or> \<not> IsInRoom roomID c \<or> \<not> IsMember g roomID (c_UserID c) db then fail NotRoomMember h
     else case h_voice h of None \<Rightarrow> fail EngineUnavailable h
     | Some e \<Rightarrow>
         (case DecodeDescription (in_Payload env) of None \<Rightarrow> fail InvalidOffer h
          | Some sdp \<Rightarrow>
              (case HandleOffer lib roomID (c_UserID c) sdp e of (res, e', sigs) \<Rightarrow> do {
                 h1 \<leftarrow> for_each SendMediaSignal sigs (h\<lparr>h_voice := Some e'\<rparr>);
                 (case res of None \<Rightarrow> Some h1 | Some err \<Rightarrow> fail (EngineError err) h1)
               }))
   }"

definition handleRTCAnswer :: "pion \<Rightarrow> pion \<Rightarrow> addr \<Rightarrow> inbound \<Rightarrow> hub \<Rightarrow> hub option" where
  "handleRTCAnswer lib lib' a env h =
     (if h_voice h = None then Some h
      else case DecodeDescription (in_Payload env) of None \<Rightarrow> Some h
      | Some sdp \<Rightarrow> do {
          c \<leftarrow> h_cells h a;
          with_voice (\<lambda>e. snd (HandleAnswer lib lib' (in_RoomID env) (c_UserID c) e)) h
        })"

text \<open>A candidate changes nothing but the state of the library.\<close>

definition handleRTCICE :: "pion \<Rightarrow> addr \<Rightarrow> inbound \<Rightarrow> hub \<Rightarrow> hub option" where
  "handleRTCICE lib a env h =
     (case h_voice h of None \<Rightarrow> Some h
      | Some e \<Rightarrow>
          (case DecodeCandidate (in_Payload env) of None \<Rightarrow> Some h
           | Some candidate \<Rightarrow> do {
               c \<leftarrow> h_cells h a;
               let logged = AddICECandidate lib (in_RoomID env) (c_UserID c) e;
               Some h
             }))"

definition handleRTCLeave :: "pion \<Rightarrow> addr \<Rightarrow> inbound \<Rightarrow> hub \<Rightarrow> hub option" where
  "handleRTCLeave lib a env h = do {
     c \<leftarrow> h_cells h a;
     with_voice (Leave lib (in_RoomID env) (c_UserID c)) h
   }"

definition handleRTCSpeaking :: "addr \<Rightarrow> inbound \<Rightarrow> hub \<Rightarrow> hub option" where
  "handleRTCSpeaking a env h =
     (if h_voice h = None then Some h
      else case decode_speaking (in_Payload env) of None \<Rightarrow> Some h
      | Some isSpeaking \<Rightarrow> do {
          c \<leftarrow> h_cells h a;
          with_voice (SetSpeaking (in_RoomID env) (c_UserID c) isSpeaking) h
        })"

text \<open>What the outside answers while a message is handled.\<close>

record outside =
  o_time :: time
  o_marshal :: "(string \<times> json) list \<Rightarrow> string"
  o_gorm :: "nat \<Rightarrow> gorm"
  o_pion :: pion
  o_pion' :: pion
  o_timestamp :: "json \<Rightarrow> bool"

definition HandleMessage :: "outside \<Rightarrow> addr \<Rightarrow> json option \<Rightarrow> database \<Rightarrow> hub \<Rightarrow> (hub \<times> database) option" where
  "HandleMessage w a data db h =
     (let keep = map_option (\<lambda>h'. (h', db)) in
      case Option.bind data (decode_envelope (o_timestamp w)) of None \<Rightarrow> Some (h, db)
      | Some env \<Rightarrow>
          if in_Event env = ''heartbeat'' then keep (on_client handleHeartbeat a h)
          else if in_Event env = ''room.join'' then keep (handleRoomJoin (o_gorm w) a env db h)
          else if in_Event env = ''room.leave'' then keep (handleRoomLeave (o_pion w) a env h)
          else if in_Event env = ''chat.send'' then handleChatSend (o_marshal w) (o_time w) (o_gorm w) a env db h
          else if in_Event env = ''voice.mute'' then keep (handleVoiceMute a env h)
          else if in_Event env = ''rtc.offer'' then keep (handleRTCOffer (o_gorm w 0) (o_pion w) a env db h)
          else if in_Event env = ''rtc.answer'' then keep (handleRTCAnswer (o_pion w) (o_pion' w) a env h)
          else if in_Event env = ''rtc.ice'' then keep (handleRTCICE (o_pion w) a env h)
          else if in_Event env = ''rtc.leave'' then keep (handleRTCLeave (o_pion w) a env h)
          else if in_Event env = ''rtc.speaking'' then keep (handleRTCSpeaking a env h)
          else Some (h, db))"

text \<open>The connection ends: \<open>ReadPump\<close> hands the client to \<open>Run\<close>, \<open>Run_Unregister\<close>.\<close>

section \<open>Clients stay well formed\<close>

text \<open>
  The channel of a client is closed exactly when \<open>closeOnce\<close> has run, and a pong waits only
  while the buffer is full and open.
\<close>

definition client_ok :: "client \<Rightarrow> bool" where
  "client_ok c \<longleftrightarrow> chan_ok 256 (c_Send c) \<and> (ch_closed (c_Send c) \<longleftrightarrow> c_once c) \<and> distinct (c_rooms c) \<and>
     (c_waiting c \<noteq> [] \<longrightarrow> length (ch_buf (c_Send c)) = 256 \<and> \<not> c_once c)"

text \<open>An operation of one client that keeps it well formed and keeps its user.\<close>

definition client_keeps :: "(client \<Rightarrow> client option) \<Rightarrow> bool" where
  "client_keeps f \<longleftrightarrow> (\<forall>c c'. client_ok c \<longrightarrow> f c = Some c' \<longrightarrow> client_ok c' \<and> c_UserID c' = c_UserID c)"

lemma client_keepsI:
  "(\<And>c c'. client_ok c \<Longrightarrow> f c = Some c' \<Longrightarrow> client_ok c' \<and> c_UserID c' = c_UserID c) \<Longrightarrow> client_keeps f"
  unfolding client_keeps_def by blast

lemma client_keepsD: "client_keeps f \<Longrightarrow> client_ok c \<Longrightarrow> f c = Some c' \<Longrightarrow> client_ok c' \<and> c_UserID c' = c_UserID c"
  unfolding client_keeps_def by blast

lemma closeSend_ok:
  assumes "client_ok c"
  shows "closeSend c = None \<longleftrightarrow> c_waiting c \<noteq> []"
    and "closeSend c = Some c' \<Longrightarrow> c' = c\<lparr>c_Send := (c_Send c)\<lparr>ch_closed := True\<rparr>, c_once := True\<rparr>"
  using assms by (auto simp: closeSend_def client_ok_def close_chan_def split: if_splits)

lemma keeps_closeSend [inv_intros]: "client_keeps closeSend"
  by (intro client_keepsI) (auto simp: closeSend_def client_ok_def close_chan_def chan_ok_def split: if_splits)

lemma keeps_send [inv_intros]: "client_keeps (SendEventToRoom pl roomID)"
proof (rule client_keepsI)
  fix c c' assume c: "client_ok c" "SendEventToRoom pl roomID c = Some c'"
  show "client_ok c' \<and> c_UserID c' = c_UserID c"
  proof (cases "length (ch_buf (c_Send c)) < ch_cap (c_Send c)")
    case True
    with c show ?thesis
      by (auto simp: SendEventToRoom_def Let_def client_ok_def chan_ok_def split: if_splits)
  next
    case False
    with c have "closeSend c = Some c'" by (auto simp: SendEventToRoom_def Let_def split: if_splits)
    then show ?thesis by (rule client_keepsD [OF keeps_closeSend c(1)])
  qed
qed

lemma keeps_SendEvent [inv_intros]: "client_keeps (SendEvent pl)"
  unfolding SendEvent_def by (rule keeps_send)

lemma keeps_send_if [inv_intros]: "client_keeps (send_if_in_room pl roomID)"
proof (rule client_keepsI)
  fix c c' assume "client_ok c" "send_if_in_room pl roomID c = Some c'"
  then show "client_ok c' \<and> c_UserID c' = c_UserID c"
    by (cases "IsInRoom roomID c") (auto simp: send_if_in_room_def dest: client_keepsD [OF keeps_send])
qed

lemma keeps_rooms [inv_intros]: "client_keeps (Some \<circ> JoinRoom roomID)" "client_keeps (Some \<circ> LeaveRoom roomID)"
  by (auto simp: client_keeps_def client_ok_def JoinRoom_def LeaveRoom_def)

lemma keeps_heartbeat [inv_intros]: "client_keeps handleHeartbeat"
  by (intro client_keepsI) (auto simp: handleHeartbeat_def client_ok_def chan_ok_def Let_def split: if_splits)

lemma WritePump_ok:
  assumes "client_ok c"
  shows "client_ok (snd (WritePump c)) \<and> c_UserID (snd (WritePump c)) = c_UserID c"
  using assms
  by (auto simp: WritePump_def client_ok_def chan_ok_def receive_def split: list.splits prod.splits)

section \<open>The hub stays well formed\<close>

definition hub_inv :: "hub \<Rightarrow> bool" where
  "hub_inv h \<longleftrightarrow> distinct (map fst (h_Clients h)) \<and>
     (\<forall>(u, a) \<in> set (h_Clients h). \<exists>c. h_cells h a = Some c \<and> c_UserID c = u) \<and>
     (\<forall>a c. h_cells h a = Some c \<longrightarrow> client_ok c)"

lemma hub_inv_client: "hub_inv h \<Longrightarrow> (u, a) \<in> set (h_Clients h) \<Longrightarrow> \<exists>c. h_cells h a = Some c \<and> c_UserID c = u \<and> client_ok c"
  by (force simp: hub_inv_def)

lemma hub_inv_distinct:
  assumes "hub_inv h"
  shows "distinct (map snd (h_Clients h))"
proof -
  have "inj_on snd (set (h_Clients h))"
    using hub_inv_client [OF assms] by (intro inj_onI) (metis option.inject prod.collapse)
  moreover have "distinct (h_Clients h)" using assms by (auto simp: hub_inv_def distinct_map)
  ultimately show ?thesis by (simp add: distinct_map)
qed

text \<open>What an operation may change without touching the invariant.\<close>

lemma hub_inv_cong:
  "h_cells h' = h_cells h \<Longrightarrow> h_Clients h' = h_Clients h \<Longrightarrow> hub_inv h' \<longleftrightarrow> hub_inv h"
  by (simp add: hub_inv_def)

lemma on_client_fields:
  "on_client f a h = Some h' \<Longrightarrow> h_Clients h' = h_Clients h \<and> h_pending h' = h_pending h \<and>
     h_voice h' = h_voice h \<and> h_wg h' = h_wg h \<and> h_cleanups h' = h_cleanups h"
  by (auto simp: on_client_def)

lemma on_client_cells:
  "on_client f a h = Some h' \<longleftrightarrow> (\<exists>c c'. h_cells h a = Some c \<and> f c = Some c' \<and> h' = h\<lparr>h_cells := (h_cells h)(a \<mapsto> c')\<rparr>)"
  by (auto simp: on_client_def update_cell_def split: option.splits)

lemma on_client_inv:
  assumes "hub_inv h" "client_keeps f" "on_client f a h = Some h'"
  shows "hub_inv h'"
proof -
  from assms(3) obtain c c' where c: "h_cells h a = Some c" "f c = Some c'"
    "h' = h\<lparr>h_cells := (h_cells h)(a \<mapsto> c')\<rparr>" by (auto simp: on_client_cells)
  with assms(1) have "client_ok c" by (auto simp: hub_inv_def)
  from client_keepsD [OF assms(2) this c(2)] have c': "client_ok c'" "c_UserID c' = c_UserID c" by simp_all
  show ?thesis
    unfolding hub_inv_def
  proof (intro conjI ballI)
    fix p assume "p \<in> set (h_Clients h')"
    then show "case p of (u, b) \<Rightarrow> \<exists>d. h_cells h' b = Some d \<and> c_UserID d = u"
      using hub_inv_client [OF assms(1), of "fst p" "snd p"] c c' by (cases p) auto
  qed (use assms(1) c c' in \<open>auto simp: hub_inv_def\<close>)
qed

text \<open>
  The changes of a hub that an operation makes one after the other: the clients stay filed as
  they are and the invariant is kept.
\<close>

definition hub_keeps :: "hub \<Rightarrow> hub \<Rightarrow> bool" where
  "hub_keeps h h' \<longleftrightarrow> h_Clients h' = h_Clients h \<and> (hub_inv h \<longrightarrow> hub_inv h')"

lemma hub_keeps_refl [simp]: "hub_keeps h h"
  by (simp add: hub_keeps_def)

lemma hub_keeps_trans: "hub_keeps h h1 \<Longrightarrow> hub_keeps h1 h2 \<Longrightarrow> hub_keeps h h2"
  by (simp add: hub_keeps_def)

lemma hub_keeps_on_client: "client_keeps f \<Longrightarrow> on_client f a h = Some h' \<Longrightarrow> hub_keeps h h'"
  using on_client_inv [of h f a h'] on_client_fields [of f a h h'] by (simp add: hub_keeps_def)

lemma hub_keeps_fields:
  "hub_keeps h (h\<lparr>h_pending := ms\<rparr>)" "hub_keeps h (h\<lparr>h_voice := v\<rparr>)" "hub_keeps h (h\<lparr>h_cleanups := cs\<rparr>)"
  "hub_keeps h (BroadcastToRoom roomID pl ex h)" "hub_keeps h (scheduleWGPeerCleanup roomID u h)"
  by (simp_all add: hub_keeps_def BroadcastToRoom_def scheduleWGPeerCleanup_def
      hub_inv_cong [of "h\<lparr>h_pending := ms\<rparr>" h] hub_inv_cong [of "h\<lparr>h_voice := v\<rparr>" h]
      hub_inv_cong [of "h\<lparr>h_cleanups := cs\<rparr>" h] hub_inv_def)

lemma for_each_keeps:
  assumes "\<And>x h h'. f x h = Some h' \<Longrightarrow> hub_keeps h h'"
  shows "for_each f xs h = Some h' \<Longrightarrow> hub_keeps h h'"
proof (induction xs arbitrary: h)
  case (Cons x xs)
  from Cons.prems obtain h1 where h1: "f x h = Some h1" "for_each f xs h1 = Some h'"
    by (auto simp: bind_eq_Some_conv)
  from assms [OF h1(1)] Cons.IH [OF h1(2)] show ?case by (rule hub_keeps_trans)
qed simp

lemma keeps_deliver: "deliver_to_room roomID pl ex h = Some h' \<Longrightarrow> hub_keeps h h'"
  unfolding deliver_to_room_def
  by (erule for_each_keeps [rotated]) (auto simp: deliver_to_def intro: hub_keeps_on_client inv_intros split: if_splits)

lemma keeps_media: "SendMediaSignal s h = Some h' \<Longrightarrow> hub_keeps h h'"
  by (auto simp: SendMediaSignal_def intro: hub_keeps_on_client inv_intros split: option.splits)

lemma keeps_SendToUser: "SendToUser u pl h = Some h' \<Longrightarrow> hub_keeps h h'"
  by (auto simp: SendToUser_def intro: hub_keeps_on_client inv_intros split: option.splits)

lemma keeps_signals: "for_each SendMediaSignal sigs (h\<lparr>h_voice := v\<rparr>) = Some h' \<Longrightarrow> hub_keeps h h'"
  by (rule hub_keeps_trans [OF hub_keeps_fields(2) for_each_keeps [OF keeps_media]])

lemma keeps_voice: "with_voice f h = Some h' \<Longrightarrow> hub_keeps h h'"
  by (auto simp: with_voice_def intro: keeps_signals split: option.splits prod.splits)

lemma keeps_notify: "notify_room u roomID h = Some h' \<Longrightarrow> hub_keeps h h'"
  by (auto simp: notify_room_def intro: hub_keeps_trans [OF keeps_deliver hub_keeps_fields(5)])

lemmas hub_keeps_rules = keeps_deliver keeps_media keeps_SendToUser keeps_signals keeps_voice keeps_notify
  hub_keeps_on_client hub_keeps_fields

text \<open>Each handler is a chain of such changes.\<close>

lemma keeps_RoomJoin: "handleRoomJoin g a env db h = Some h' \<Longrightarrow> hub_keeps h h'"
  unfolding handleRoomJoin_def
  by (auto simp: bind_eq_Some_conv Let_def split: option.splits if_splits prod.splits
      intro: hub_keeps_on_client inv_intros hub_keeps_fields hub_keeps_trans
        [OF hub_keeps_on_client [OF keeps_rooms(1)] hub_keeps_trans [OF hub_keeps_on_client [OF keeps_send] hub_keeps_fields(4)]])

lemma keeps_RoomLeave: "handleRoomLeave lib a env h = Some h' \<Longrightarrow> hub_keeps h h'"
  unfolding handleRoomLeave_def
  by (auto simp: bind_eq_Some_conv Let_def split: option.splits
      intro: hub_keeps_trans [OF hub_keeps_on_client [OF keeps_rooms(2)] hub_keeps_trans [OF keeps_voice hub_keeps_fields(4)]])

lemma keeps_ChatError: "sendChatError a p reason h = Some h' \<Longrightarrow> hub_keeps h h'"
  unfolding sendChatError_def by (rule hub_keeps_on_client [OF keeps_send])

lemma keeps_HandleChatSend: "HandleChatSend marshal now g a p db h = Some (h', db') \<Longrightarrow> hub_keeps h h'"
  unfolding HandleChatSend_def
  by (auto simp: bind_eq_Some_conv Let_def split: if_splits sum.splits prod.splits
      intro: keeps_ChatError hub_keeps_on_client [OF keeps_SendEvent] hub_keeps_fields)

lemma keeps_VoiceMute: "handleVoiceMute a env h = Some h' \<Longrightarrow> hub_keeps h h'"
  unfolding handleVoiceMute_def
  by (auto simp: bind_eq_Some_conv Let_def split: option.splits if_splits prod.splits
      intro: hub_keeps_trans [OF keeps_voice hub_keeps_fields(4)])

lemma keeps_RTCOffer:
  assumes "handleRTCOffer g lib a env db h = Some h'"
  shows "hub_keeps h h'"
proof -
  let ?fail = "\<lambda>reason. on_client (SendEventToRoom (RTCErrorP reason) (in_RoomID env)) a"
  have fail: "?fail reason k = Some k' \<Longrightarrow> hub_keeps k k'" for reason k k'
    by (rule hub_keeps_on_client [OF keeps_send])
  from assms obtain c where c: "h_cells h a = Some c" by (auto simp: handleRTCOffer_def bind_eq_Some_conv)
  show ?thesis
  proof (cases "in_RoomID env = 0 \<or> \<not> IsInRoom (in_RoomID env) c \<or> \<not> IsMember g (in_RoomID env) (c_UserID c) db
      \<or> h_voice h = None \<or> DecodeDescription (in_Payload env) = None")
    case True
    with assms c show ?thesis
      by (auto simp: handleRTCOffer_def Let_def split: if_splits option.splits intro: fail)
  next
    case False
    then obtain e sdp where e: "h_voice h = Some e" "DecodeDescription (in_Payload env) = Some sdp" by auto
    obtain res e' sigs where o: "HandleOffer lib (in_RoomID env) (c_UserID c) sdp e = (res, e', sigs)"
      by (rule prod_cases3)
    from assms c e False o obtain h1 where h1: "for_each SendMediaSignal sigs (h\<lparr>h_voice := Some e'\<rparr>) = Some h1"
      "(case res of None \<Rightarrow> Some h1 | Some err \<Rightarrow> ?fail (EngineError err) h1) = Some h'"
      by (auto simp: handleRTCOffer_def Let_def bind_eq_Some_conv)
    from h1(2) have "hub_keeps h1 h'" by (auto split: option.splits intro: fail)
    with keeps_signals [OF h1(1)] show ?thesis by (rule hub_keeps_trans)
  qed
qed

lemma keeps_RTC:
  "handleRTCAnswer lib lib' a env h = Some h' \<Longrightarrow> hub_keeps h h'"
  "handleRTCICE lib a env h = Some h' \<Longrightarrow> hub_keeps h h'"
  "handleRTCLeave lib a env h = Some h' \<Longrightarrow> hub_keeps h h'"
  "handleRTCSpeaking a env h = Some h' \<Longrightarrow> hub_keeps h h'"
  unfolding handleRTCAnswer_def handleRTCICE_def handleRTCLeave_def handleRTCSpeaking_def
  by (auto simp: bind_eq_Some_conv Let_def split: option.splits if_splits intro: keeps_voice)

lemma keeps_HandleMessage: "HandleMessage w a data db h = Some (h', db') \<Longrightarrow> hub_keeps h h'"
  unfolding HandleMessage_def handleChatSend_def
  by (auto simp: Let_def split: option.splits if_splits
      intro: keeps_RoomJoin keeps_RoomLeave keeps_HandleChatSend keeps_VoiceMute keeps_RTCOffer keeps_RTC
        hub_keeps_on_client [OF keeps_heartbeat])

lemma keeps_Kick: "KickUserFromRoom roomID u reason h = Some h' \<Longrightarrow> hub_keeps h h'"
  unfolding KickUserFromRoom_def
  by (auto simp: bind_eq_Some_conv Let_def split: option.splits
      intro: hub_keeps_trans [OF keeps_SendToUser hub_keeps_fields(4)]
        hub_keeps_trans [OF keeps_SendToUser hub_keeps_trans [OF hub_keeps_fields(4) hub_keeps_on_client [OF keeps_rooms(2)]]])

text \<open>All that a cleanup does to the hub is one delivery.\<close>

lemma cleanup_is_delivery:
  assumes "wg_cleanup g ty dev roomID u h db w = Some (h', db', w')"
  shows "h' = h \<or> (\<exists>info. deliver_to_room roomID (VlanPeerUpdateP roomID ''leave'' info) u h = Some h')"
  using assms unfolding wg_cleanup_def Let_def
  by (cases "UnregisterPeer g ty dev roomID u db w") (auto simp: bind_eq_Some_conv split: if_splits sum.splits)

lemma Run_Broadcast_inv: "Run_Broadcast h = Some h' \<Longrightarrow> hub_keeps h h'"
  by (auto simp: Run_Broadcast_def split: list.splits intro: hub_keeps_trans [OF hub_keeps_fields(1) keeps_deliver])

lemma Run_Register_inv:
  assumes "hub_inv h" "Run_Register a h = Some h'"
  shows "hub_inv h'"
proof -
  from assms(2) obtain c where c: "h_cells h a = Some c"
    "on_client (SendEvent (ConnectedP (c_UserID c) ''2.3.0'' (currentRTCClientConfig
       (h\<lparr>h_Clients := AList.update (c_UserID c) a (h_Clients h)\<rparr>)))) a
       (h\<lparr>h_Clients := AList.update (c_UserID c) a (h_Clients h)\<rparr>) = Some h'"
    by (auto simp: Run_Register_def Let_def split: option.splits)
  have "hub_inv (h\<lparr>h_Clients := AList.update (c_UserID c) a (h_Clients h)\<rparr>)"
    using assms(1) c(1) set_alist_update [of "h_Clients h" "c_UserID c" a]
    by (auto simp: hub_inv_def distinct_update)
  from on_client_inv [OF this keeps_SendEvent c(2)] show ?thesis .
qed

lemma Run_Unregister_inv:
  assumes "hub_inv h" "Run_Unregister libs a h = Some h'"
  shows "hub_inv h'"
proof -
  from assms(2) obtain c h1 c1 where c: "h_cells h a = Some c" "with_voice (LeaveUser libs (c_UserID c)) h = Some h1"
    "h_cells h1 a = Some c1" by (auto simp: Run_Unregister_def bind_eq_Some_conv)
  let ?out = "map_of (h_Clients h1) (c_UserID c1) = Some a"
  let ?h2 = "if ?out then h1\<lparr>h_Clients := AList.delete (c_UserID c1) (h_Clients h1)\<rparr> else h1"
  from assms(2) c obtain h3 where h3: "on_client closeSend a ?h2 = Some h3"
    "for_each (notify_room (c_UserID c1)) (if ?out then GetRooms c1 else []) h3 = Some h'"
    by (auto simp: Run_Unregister_def bind_eq_Some_conv Let_def split: if_splits)
  from keeps_voice [OF c(2)] assms(1) have "hub_inv h1" by (simp add: hub_keeps_def)
  then have "hub_inv ?h2"
    using set_alist_delete [of "c_UserID c1" "h_Clients h1"] by (auto simp: hub_inv_def distinct_delete)
  from on_client_inv [OF this keeps_closeSend h3(1)]
  show ?thesis using for_each_keeps [of "notify_room (c_UserID c1)", OF keeps_notify h3(2)] by (simp add: hub_keeps_def)
qed

lemma hub_Run_inv: "hub_inv h \<Longrightarrow> hub_Run libs evs h = Some h' \<Longrightarrow> hub_inv h'"
proof (induction libs evs h rule: hub_Run.induct)
  case (4 libs evs h)
  then obtain h1 where h1: "Run_Broadcast h = Some h1" "hub_Run libs evs h1 = Some h'" by (auto simp: bind_eq_Some_conv)
  from Run_Broadcast_inv [OF h1(1)] 4(2) have "hub_inv h1" by (simp add: hub_keeps_def)
  from 4(1) [OF h1(1) this h1(2)] show ?case .
qed (auto simp: bind_eq_Some_conv intro: Run_Register_inv Run_Unregister_inv)

section \<open>Reachable hubs\<close>

text \<open>
  Everything that happens to a hub: connections, messages of the clients, the branches of \<open>Run\<close>,
  writers, the calls of the HTTP handlers and of the voice engine, cleanups.
\<close>

inductive hub_reachable :: "hub \<Rightarrow> bool" where
  hub_new: "hub_reachable NewHub"
| hub_config: "hub_reachable h \<Longrightarrow>
    hub_reachable (h\<lparr>h_voice := v, h_wg := wg, h_rtcConfig := cfg, h_rtcProvider := provider\<rparr>)"
| hub_connect: "hub_reachable h \<Longrightarrow> h_cells h a = None \<Longrightarrow>
    Run_Register a (h\<lparr>h_cells := (h_cells h)(a \<mapsto> NewClient userID username role)\<rparr>) = Some h' \<Longrightarrow> hub_reachable h'"
| hub_disconnect: "hub_reachable h \<Longrightarrow> Run_Unregister libs a h = Some h' \<Longrightarrow> hub_reachable h'"
| hub_message: "hub_reachable h \<Longrightarrow> HandleMessage w a data db h = Some (h', db') \<Longrightarrow> hub_reachable h'"
| hub_broadcast: "hub_reachable h \<Longrightarrow> Run_Broadcast h = Some h' \<Longrightarrow> hub_reachable h'"
| hub_request: "hub_reachable h \<Longrightarrow> hub_reachable (BroadcastToRoom roomID pl ex h)"
| hub_to_user: "hub_reachable h \<Longrightarrow> SendToUser userID pl h = Some h' \<Longrightarrow> hub_reachable h'"
| hub_signal: "hub_reachable h \<Longrightarrow> SendMediaSignal s h = Some h' \<Longrightarrow> hub_reachable h'"
| hub_kick: "hub_reachable h \<Longrightarrow> KickUserFromRoom roomID userID reason h = Some h' \<Longrightarrow> hub_reachable h'"
| hub_cleanup: "hub_reachable h \<Longrightarrow> deliver_to_room roomID (VlanPeerUpdateP roomID action info) userID h = Some h' \<Longrightarrow> hub_reachable h'"
| hub_write: "hub_reachable h \<Longrightarrow> h_cells h a = Some c \<Longrightarrow>
    hub_reachable (h\<lparr>h_cells := (h_cells h)(a \<mapsto> snd (WritePump c))\<rparr>)"

lemma NewClient_ok: "client_ok (NewClient userID username role)"
  by (simp add: client_ok_def NewClient_def)

lemma hub_inv_cell:
  assumes "hub_inv h" "client_ok c'" "\<And>c. h_cells h a = Some c \<Longrightarrow> c_UserID c' = c_UserID c"
  shows "hub_inv (h\<lparr>h_cells := (h_cells h)(a \<mapsto> c')\<rparr>)"
proof -
  have "\<exists>d. ((h_cells h)(a \<mapsto> c')) b = Some d \<and> c_UserID d = u" if "(u, b) \<in> set (h_Clients h)" for u b
    using hub_inv_client [OF assms(1) that] assms(3) by (cases "b = a") auto
  then have "\<forall>(u, b) \<in> set (h_Clients h). \<exists>d. ((h_cells h)(a \<mapsto> c')) b = Some d \<and> c_UserID d = u" by blast
  with assms(1,2) show ?thesis unfolding hub_inv_def by simp
qed

lemma hub_keepsD: "hub_keeps h h' \<Longrightarrow> hub_inv h \<Longrightarrow> hub_inv h'"
  by (simp add: hub_keeps_def)

lemma hub_reachable_inv: "hub_reachable h \<Longrightarrow> hub_inv h"
proof (induction rule: hub_reachable.induct)
  case hub_new
  then show ?case by (simp add: hub_inv_def NewHub_def)
next
  case (hub_config h v wg cfg provider)
  then show ?case by (simp add: hub_inv_def)
next
  case (hub_connect h a userID username role h')
  from hub_connect(2) have "hub_inv (h\<lparr>h_cells := (h_cells h)(a \<mapsto> NewClient userID username role)\<rparr>)"
    by (intro hub_inv_cell [OF hub_connect.IH NewClient_ok]) simp
  from Run_Register_inv [OF this hub_connect(3)] show ?case .
next
  case (hub_disconnect h libs a h')
  then show ?case by (blast intro: Run_Unregister_inv)
next
  case (hub_write h a c)
  then have "client_ok c" by (auto simp: hub_inv_def)
  from WritePump_ok [OF this] hub_write show ?case by (intro hub_inv_cell) auto
qed (blast intro: hub_keepsD keeps_HandleMessage Run_Broadcast_inv keeps_SendToUser keeps_media keeps_Kick
    keeps_deliver hub_keeps_fields(4))+

section \<open>Delivery to a room\<close>

text \<open>The abstract view: who is online, in which rooms, with which events not yet written.\<close>

definition inboxes :: "hub \<Rightarrow> uint64 \<Rightarrow> (uint64 set \<times> envelope list) option" where
  "inboxes h u = map_option (\<lambda>c. (set (c_rooms c), ch_buf (c_Send c))) (Option.bind (map_of (h_Clients h) u) (h_cells h))"

definition multicast ::
  "uint64 \<Rightarrow> payload \<Rightarrow> uint64 \<Rightarrow> (uint64 \<Rightarrow> (uint64 set \<times> envelope list) option)
     \<Rightarrow> uint64 \<Rightarrow> (uint64 set \<times> envelope list) option" where
  "multicast roomID pl ex m u =
     map_option (\<lambda>(rs, box). (rs, if u \<noteq> ex \<and> roomID \<in> rs
       then box @ [\<lparr>ev_RoomID = roomID, ev_Payload = pl\<rparr>] else box)) (m u)"

text \<open>Every receiver can take one more event.\<close>

definition receives :: "uint64 \<Rightarrow> uint64 \<Rightarrow> hub \<Rightarrow> addr \<Rightarrow> bool" where
  "receives roomID ex h a \<longleftrightarrow> (\<exists>u c. (u, a) \<in> set (h_Clients h) \<and> u \<noteq> ex \<and> h_cells h a = Some c \<and> IsInRoom roomID c)"

definition has_space :: "uint64 \<Rightarrow> uint64 \<Rightarrow> hub \<Rightarrow> bool" where
  "has_space roomID ex h \<longleftrightarrow> (\<forall>a c. receives roomID ex h a \<longrightarrow> h_cells h a = Some c \<longrightarrow>
     \<not> c_once c \<and> length (ch_buf (c_Send c)) < 256)"

lemma deliver_as_cells:
  "for_each (deliver_to roomID pl ex) al h =
   map_option (\<lambda>cells. h\<lparr>h_cells := cells\<rparr>)
     (for_each (update_cell (send_if_in_room pl roomID)) (map snd (filter (\<lambda>p. fst p \<noteq> ex) al)) (h_cells h))"
proof (induction al arbitrary: h)
  case (Cons p al)
  show ?case
  proof (cases "fst p = ex")
    case True
    with Cons show ?thesis by (simp add: deliver_to_def)
  next
    case False
    with Cons show ?thesis
      by (cases "update_cell (send_if_in_room pl roomID) (snd p) (h_cells h)")
        (simp_all add: deliver_to_def on_client_def option.map_comp comp_def)
  qed
qed simp

lemma send_space:
  assumes "client_ok c" "\<not> c_once c" "length (ch_buf (c_Send c)) < 256"
  shows "SendEventToRoom pl roomID c
    = Some (c\<lparr>c_Send := (c_Send c)\<lparr>ch_buf := ch_buf (c_Send c) @ [\<lparr>ev_RoomID = roomID, ev_Payload = pl\<rparr>]\<rparr>\<rparr>)"
  using assms by (simp add: SendEventToRoom_def client_ok_def chan_ok_def)

text \<open>The cells after a delivery: the receivers have one more event, nobody else changes.\<close>

lemma deliver_effect:
  assumes "hub_inv h" "has_space roomID ex h"
  obtains h' where "deliver_to_room roomID pl ex h = Some h'" "h_Clients h' = h_Clients h" "h_pending h' = h_pending h"
    "\<And>a. h_cells h' a = (if receives roomID ex h a
       then map_option (\<lambda>c. c\<lparr>c_Send := (c_Send c)\<lparr>ch_buf := ch_buf (c_Send c) @ [\<lparr>ev_RoomID = roomID, ev_Payload = pl\<rparr>]\<rparr>\<rparr>) (h_cells h a)
       else h_cells h a)"
proof -
  let ?as = "map snd (filter (\<lambda>p. fst p \<noteq> ex) (h_Clients h))"
  let ?f = "send_if_in_room pl roomID"
  have dist: "distinct ?as" using hub_inv_distinct [OF assms(1)] by (rule distinct_map_filter)
  have cell: "h_cells h a = Some c \<Longrightarrow> client_ok c" for a c using assms(1) by (simp add: hub_inv_def)
  have one: "\<exists>c. h_cells h a = Some c \<and> ?f c = Some (if receives roomID ex h a
      then c\<lparr>c_Send := (c_Send c)\<lparr>ch_buf := ch_buf (c_Send c) @ [\<lparr>ev_RoomID = roomID, ev_Payload = pl\<rparr>]\<rparr>\<rparr> else c)"
    if a: "a \<in> set ?as" for a
  proof -
    from a obtain u where u: "(u, a) \<in> set (h_Clients h)" "u \<noteq> ex" by auto
    from hub_inv_client [OF assms(1) u(1)] obtain c where c: "h_cells h a = Some c" "client_ok c" by blast
    show ?thesis
    proof (cases "IsInRoom roomID c")
      case True
      with u c have r: "receives roomID ex h a" by (auto simp: receives_def)
      with assms(2) c have "\<not> c_once c \<and> length (ch_buf (c_Send c)) < 256" by (auto simp: has_space_def)
      with send_space [OF c(2)] True r c(1) show ?thesis by (simp add: send_if_in_room_def)
    next
      case False
      with c have "\<not> receives roomID ex h a" by (auto simp: receives_def)
      with False c show ?thesis by (simp add: send_if_in_room_def)
    qed
  qed
  have "for_each (update_cell ?f) ?as (h_cells h) = Some (\<lambda>a. if a \<in> set ?as then Option.bind (h_cells h a) ?f else h_cells h a)"
    by (rule for_each_cells [OF dist]) (use one in blast)
  then have d: "deliver_to_room roomID pl ex h
      = Some (h\<lparr>h_cells := (\<lambda>a. if a \<in> set ?as then Option.bind (h_cells h a) ?f else h_cells h a)\<rparr>)"
    by (simp add: deliver_to_room_def deliver_as_cells)
  show ?thesis
  proof (rule that [OF d])
    fix a
    have "a \<in> set ?as" if "receives roomID ex h a" using that by (force simp: receives_def)
    with one [of a] show "h_cells (h\<lparr>h_cells := (\<lambda>a. if a \<in> set ?as then Option.bind (h_cells h a) ?f else h_cells h a)\<rparr>) a
      = (if receives roomID ex h a
       then map_option (\<lambda>c. c\<lparr>c_Send := (c_Send c)\<lparr>ch_buf := ch_buf (c_Send c) @ [\<lparr>ev_RoomID = roomID, ev_Payload = pl\<rparr>]\<rparr>\<rparr>) (h_cells h a)
       else h_cells h a)"
      by (cases "a \<in> set ?as") auto
  qed simp_all
qed
end
