(* ===== verification/Room_Handler.thy ===== *)
theory Room_Handler
  imports Http_Api Hub
begin

text \<open>
  \<open>server/internal/api/handler/room.go\<close>: the rooms of a user over HTTP. A handler gets the text of
  the path parameters, the body and the values that the middleware left in the context; it
  returns the response and the parts of the state that it can change. A handler that sends to a
  connection itself can panic (\<open>None\<close>).
\<close>

section \<open>Creating and joining\<close>

definition zero_room :: room where
  "zero_room = \<lparr>r_ID = 0, RoomCode = [], InviteCode = [], r_Name = [], OwnerID = 0,
     MediaRoomName = [], r_CreatedAt = 0\<rparr>"

definition room_created_json :: "room \<Rightarrow> json" where
  "room_created_json r = JObj [(''id'', JUint (r_ID r)), (''name'', JStr (r_Name r)),
     (''room_code'', JStr (RoomCode r)), (''invite_code'', JStr (InviteCode r)),
     (''media_room_name'', JStr (MediaRoomName r))]"

definition RoomHandler_Create :: "env \<Rightarrow> gin_context \<Rightarrow> json option \<Rightarrow> database \<Rightarrow> response \<times> database" where
  "RoomHandler_Create w cx body db =
     (case bind_string ''name'' body of None \<Rightarrow> (Error 40001, db)
      | Some name \<Rightarrow>
      if \<not> e_valid w ''required,min=1,max=128'' (FString name) then (Error 40001, db)
      else let userID = the_userID cx in
      case Room_Create (e_rand w 0) (e_rand w 1) (e_gorm w 0) (zero_room\<lparr>r_Name := name, OwnerID := userID\<rparr>) db of
        (Inl err, db1) \<Rightarrow> (Error 50001, db1)
      | (Inr r, db1) \<Rightarrow>
          (case AddMember (e_gorm w 1) (r_ID r) userID ''admin'' db1 of
             (Inl err, db2) \<Rightarrow> (Error 50001, db2)
           | (Inr _, db2) \<Rightarrow> (Success (room_created_json r), db2)))"

definition RoomHandler_Join :: "env \<Rightarrow> gin_context \<Rightarrow> json option \<Rightarrow> database \<Rightarrow> response \<times> database" where
  "RoomHandler_Join w cx body db =
     (case bind_string ''invite_code'' body of None \<Rightarrow> (Error 40001, db)
      | Some inviteCode \<Rightarrow>
      if \<not> e_valid w ''required,len=6'' (FString inviteCode) then (Error 40001, db)
      else let userID = the_userID cx in
      case Room_FindByInviteCode (e_gorm w 0) inviteCode db of
        Inl err \<Rightarrow> (Error 40401, db)
      | Inr r \<Rightarrow>
      if IsMember (e_gorm w 1) (r_ID r) userID db then (Error 40901, db)
      else case AddMember (e_gorm w 2) (r_ID r) userID ''member'' db of
             (Inl err, db1) \<Rightarrow> (Error 50001, db1)
           | (Inr _, db1) \<Rightarrow> (Success (room_created_json r), db1))"

section \<open>Reading\<close>

definition member_json :: "room_member \<times> user \<Rightarrow> json" where
  "member_json mu = (case mu of (m, u) \<Rightarrow>
     JObj [(''user_id'', JUint (m_UserID m)), (''nickname'', JStr (Nickname u)),
           (''avatar_url'', JStr (AvatarURL u)), (''role'', JStr (m_Role m))])"

definition ingress_json :: "room_ingress \<Rightarrow> json" where
  "ingress_json i = JObj [(''id'', JUint (ing_ID i)), (''ingress_id'', JStr (IngressID i)),
     (''rtmp_url'', JStr (RTMPURL i)), (''stream_key'', JStr (StreamKey i)), (''label'', JStr (Label i)),
     (''is_active'', JBool (ing_IsActive i))]"

definition room_detail_json :: "room_view \<Rightarrow> room_ingress list \<Rightarrow> json" where
  "room_detail_json v ingresses = (let r = rv_room v in
     JObj [(''id'', JUint (r_ID r)), (''name'', JStr (r_Name r)), (''room_code'', JStr (RoomCode r)),
           (''invite_code'', JStr (InviteCode r)), (''owner_id'', JUint (OwnerID r)),
           (''media_room_name'', JStr (MediaRoomName r)), (''members'', JArr (map member_json (rv_Members v))),
           (''ingresses'', JArr (map ingress_json ingresses))])"

text \<open>The error of the last query is ignored: its list is then empty.\<close>

definition or_empty :: "'a list db_result \<Rightarrow> 'a list" where
  "or_empty res = (case res of Inl err \<Rightarrow> [] | Inr xs \<Rightarrow> xs)"

definition RoomHandler_GetDetail :: "env \<Rightarrow> gin_context \<Rightarrow> string \<Rightarrow> database \<Rightarrow> response" where
  "RoomHandler_GetDetail w cx roomId db =
     (case ParseUint roomId of None \<Rightarrow> Error 40001
      | Some roomID \<Rightarrow>
      if \<not> IsMember (e_gorm w 0) roomID (the_userID cx) db then ErrorWithStatus 403 40301
      else case Room_FindByID (later 1 (e_gorm w)) roomID db of
             Inl err \<Rightarrow> Error 40401
           | Inr v \<Rightarrow> Success (room_detail_json v (or_empty (Ingress_ListByRoom (e_gorm w 5) roomID db))))"

definition room_listed_json :: "room \<Rightarrow> json" where
  "room_listed_json r = JObj [(''id'', JUint (r_ID r)), (''name'', JStr (r_Name r)),
     (''room_code'', JStr (RoomCode r)), (''invite_code'', JStr (InviteCode r)),
     (''owner_id'', JUint (OwnerID r)), (''media_room_name'', JStr (MediaRoomName r))]"

definition RoomHandler_List :: "env \<Rightarrow> gin_context \<Rightarrow> database \<Rightarrow> response" where
  "RoomHandler_List w cx db =
     (case Room_ListByUser (e_gorm w) (the_userID cx) db of
        Inl err \<Rightarrow> Error 50001
      | Inr rs \<Rightarrow> Success (JArr (map (\<lambda>(r, owner). room_listed_json r) rs)))"

definition RoomHandler_OnlineUsers :: "env \<Rightarrow> gin_context \<Rightarrow> string \<Rightarrow> database \<Rightarrow> hub \<Rightarrow> response" where
  "RoomHandler_OnlineUsers w cx roomId db h =
     (case ParseUint roomId of None \<Rightarrow> Error 40001
      | Some roomID \<Rightarrow>
      if \<not> IsMember (e_gorm w 0) roomID (the_userID cx) db then ErrorWithStatus 403 40301
      else Success (JObj [(''online_user_ids'', JArr (map JUint (GetOnlineUsersInRoom roomID h)))]))"

section \<open>Changing\<close>

text \<open>The owner of the room and the super administrator.\<close>

definition may_manage :: "gin_context \<Rightarrow> room_view \<Rightarrow> bool" where
  "may_manage cx v \<longleftrightarrow> \<not> (OwnerID (rv_room v) \<noteq> the_userID cx \<and> the_role cx \<noteq> ''super_admin'')"

text \<open>The UTF-8 bytes of the reason.\<close>

definition kick_reason :: string where
  "kick_reason = map char_of [228 :: nat, 189, 160, 229, 183, 178, 232, 162, 171, 230, 136, 191, 228, 184, 187,
     232, 184, 162, 229, 135, 186, 230, 136, 191, 233, 151, 180]"

definition RoomHandler_KickMember ::
  "env \<Rightarrow> gin_context \<Rightarrow> string \<Rightarrow> string \<Rightarrow> database \<Rightarrow> hub \<Rightarrow> (response \<times> database \<times> hub) option" where
  "RoomHandler_KickMember w cx roomId userId db h =
     (case ParseUint roomId of None \<Rightarrow> Some (Error 40001, db, h)
      | Some roomID \<Rightarrow>
     (case ParseUint userId of None \<Rightarrow> Some (Error 40001, db, h)
      | Some targetUserID \<Rightarrow>
     (case Room_FindByID (e_gorm w) roomID db of Inl err \<Rightarrow> Some (Error 40401, db, h)
      | Inr v \<Rightarrow>
      if \<not> may_manage cx v then Some (ErrorWithStatus 403 40301, db, h)
      else if targetUserID = OwnerID (rv_room v) then Some (Error 40301, db, h)
      else case RemoveMember (e_gorm w 4) roomID targetUserID db of
             (Inl err, db1) \<Rightarrow> Some (Error 50001, db1, h)
           | (Inr _, db1) \<Rightarrow>
               map_option (\<lambda>h1. (Success JNull, db1, h1)) (KickUserFromRoom roomID targetUserID kick_reason h))))"

definition RoomHandler_UpdateRoom ::
  "env \<Rightarrow> gin_context \<Rightarrow> string \<Rightarrow> json option \<Rightarrow> database \<Rightarrow> response \<times> database" where
  "RoomHandler_UpdateRoom w cx roomId body db =
     (case ParseUint roomId of None \<Rightarrow> (Error 40001, db)
      | Some roomID \<Rightarrow>
     (case bind_string ''name'' body of None \<Rightarrow> (Error 40001, db)
      | Some name \<Rightarrow>
      if \<not> e_valid w ''required,min=1,max=128'' (FString name) then (Error 40001, db)
      else case Room_FindByID (e_gorm w) roomID db of
        Inl err \<Rightarrow> (Error 40401, db)
      | Inr v \<Rightarrow>
      if \<not> may_manage cx v then (ErrorWithStatus 403 40301, db)
      else let r = (rv_room v)\<lparr>r_Name := name\<rparr> in
        case Room_Update (e_gorm w 4) r db of
          (Inl err, db1) \<Rightarrow> (Error 50001, db1)
        | (Inr _, db1) \<Rightarrow> (Success (JObj [(''id'', JUint (r_ID r)), (''name'', JStr (r_Name r))]), db1)))"

definition RoomHandler_Leave ::
  "env \<Rightarrow> gin_context \<Rightarrow> string \<Rightarrow> database \<Rightarrow> hub \<Rightarrow> response \<times> database \<times> hub" where
  "RoomHandler_Leave w cx roomId db h =
     (case ParseUint roomId of None \<Rightarrow> (Error 40001, db, h)
      | Some roomID \<Rightarrow>
      let userID = the_userID cx in
     (case Room_FindByID (e_gorm w) roomID db of Inl err \<Rightarrow> (Error 40401, db, h)
      | Inr v \<Rightarrow>
      if \<not> IsMember (e_gorm w 4) roomID userID db then (Error 40401, db, h)
      else if OwnerID (rv_room v) = userID then (Error 40301, db, h)
      else case RemoveMember (e_gorm w 5) roomID userID db of
             (Inl err, db1) \<Rightarrow> (Error 50001, db1, h)
           | (Inr _, db1) \<Rightarrow>
               (Success JNull, db1, BroadcastToRoom roomID (MemberLeaveP userID roomID) userID h)))"

definition RoomHandler_Delete ::
  "env \<Rightarrow> gin_context \<Rightarrow> string \<Rightarrow> database \<Rightarrow> hub \<Rightarrow> response \<times> database \<times> hub" where
  "RoomHandler_Delete w cx roomId db h =
     (case ParseUint roomId of None \<Rightarrow> (Error 40001, db, h)
      | Some roomID \<Rightarrow>
     (case Room_FindByID (e_gorm w) roomID db of Inl err \<Rightarrow> (Error 40401, db, h)
      | Inr v \<Rightarrow>
      if \<not> may_manage cx v then (ErrorWithStatus 403 40301, db, h)
      else let h1 = BroadcastToRoom roomID (DisbandedP roomID) 0 h in
        case Room_Delete (later 4 (e_gorm w)) roomID db of
          (Inl err, db1) \<Rightarrow> (Error 50001, db1, h1)
        | (Inr _, db1) \<Rightarrow> (Success JNull, db1, h1)))"

end
