(* ===== verification/Friend_Handler.thy ===== *)
theory Friend_Handler
  imports Http_Api Hub
begin

text \<open>
  \<open>server/internal/api/handler/friend.go\<close>: friend requests. A row of the table goes from
  the requester to the addressee; its status is pending, accepted or rejected.
\<close>

section \<open>The handlers\<close>

definition nickname_of :: "user db_result \<Rightarrow> string" where
  "nickname_of res = (case res of Inl err \<Rightarrow> [] | Inr u \<Rightarrow> Nickname u)"

text \<open>
  An old request that was rejected is deleted (an error of the deletion is ignored); any other
  one is refused with a conflict. A lookup that fails counts as no request.
\<close>

definition clear_request ::
  "env \<Rightarrow> uint64 \<Rightarrow> uint64 \<Rightarrow> database \<Rightarrow> response + database" where
  "clear_request w userID targetID db =
     (case FindByUsers (e_gorm w 1) userID targetID db of
        Inl err \<Rightarrow> Inr db
      | Inr existing \<Rightarrow>
          if Status existing = ''accepted'' then Inl (Error 40901)
          else if Status existing = ''pending'' then Inl (Error 40901)
          else if Status existing = ''rejected''
          then Inr (snd (DeleteFriendship (e_gorm w 2) userID targetID db))
          else Inr db)"

definition new_request :: "uint64 \<Rightarrow> uint64 \<Rightarrow> friendship" where
  "new_request requester addressee = \<lparr>RequesterID = requester, AddresseeID = addressee,
     Status = ''pending'', f_CreatedAt = 0, f_UpdatedAt = 0\<rparr>"

definition FriendHandler_SendRequest ::
  "env \<Rightarrow> gin_context \<Rightarrow> json option \<Rightarrow> database \<Rightarrow> hub \<Rightarrow> (response \<times> database \<times> hub) option" where
  "FriendHandler_SendRequest w cx body db h =
     (case bind_string ''display_id'' body of None \<Rightarrow> Some (Error 40001, db, h)
      | Some displayID \<Rightarrow>
      if \<not> e_valid w ''required'' (FString displayID) then Some (Error 40001, db, h)
      else let userID = the_userID cx in
     (case User_FindByDisplayID (e_gorm w 0) displayID db of Inl err \<Rightarrow> Some (Error 40401, db, h)
      | Inr target \<Rightarrow>
      if u_ID target = userID then Some (Error 40001, db, h)
      else case clear_request w userID (u_ID target) db of
             Inl resp \<Rightarrow> Some (resp, db, h)
           | Inr db1 \<Rightarrow>
               (case Friendship_Create (e_gorm w 3) (new_request userID (u_ID target)) db1 of
                  (Inl err, db2) \<Rightarrow> Some (Error 50001, db2, h)
                | (Inr _, db2) \<Rightarrow>
                    let nickname = nickname_of (User_FindByID (e_gorm w 4) userID db2)
                    in map_option (\<lambda>h1. (Success JNull, db2, h1))
                         (SendToUser (u_ID target) (FriendRequestP userID nickname) h))))"

definition FriendHandler_HandleRequest ::
  "env \<Rightarrow> gin_context \<Rightarrow> string \<Rightarrow> json option \<Rightarrow> database \<Rightarrow> hub \<Rightarrow> (response \<times> database \<times> hub) option" where
  "FriendHandler_HandleRequest w cx requestId body db h =
     (case ParseUint requestId of None \<Rightarrow> Some (Error 40001, db, h)
      | Some requesterID \<Rightarrow>
     (case bind_string ''action'' body of None \<Rightarrow> Some (Error 40001, db, h)
      | Some action \<Rightarrow>
      if \<not> e_valid w ''required,oneof=accept reject'' (FString action) then Some (Error 40001, db, h)
      else let userID = the_userID cx in
     (case FindByUsers (e_gorm w 0) requesterID userID db of
        Inl err \<Rightarrow> Some (if err = RecordNotFound then Error 40401 else Error 50001, db, h)
      | Inr f \<Rightarrow>
      if AddresseeID f \<noteq> userID then Some (Error 40301, db, h)
      else if Status f \<noteq> ''pending'' then Some (Error 40001, db, h)
      else let status = (if action = ''accept'' then ''accepted'' else ''rejected'') in
      case UpdateStatus (e_gorm w 1) (e_clock w 0) (RequesterID f) (AddresseeID f) status db of
        (Inl err, db1) \<Rightarrow> Some (Error 50001, db1, h)
      | (Inr _, db1) \<Rightarrow>
          if status = ''accepted''
          then let nickname = nickname_of (User_FindByID (e_gorm w 2) userID db1)
               in map_option (\<lambda>h1. (Success JNull, db1, h1))
                    (SendToUser requesterID (FriendAcceptedP userID nickname) h)
          else Some (Success JNull, db1, h))))"

definition FriendHandler_ListFriends :: "env \<Rightarrow> gin_context \<Rightarrow> database \<Rightarrow> hub \<Rightarrow> response" where
  "FriendHandler_ListFriends w cx db h =
     (case ListFriends (e_gorm w 0) (the_userID cx) db of Inl err \<Rightarrow> Error 50001
      | Inr friends \<Rightarrow> Success (JArr (map (\<lambda>f. JObj
          [(''user_id'', JUint (u_ID f)), (''user_display_id'', JStr (UserDisplayID f)),
           (''nickname'', JStr (Nickname f)), (''avatar_url'', JStr (AvatarURL f)),
           (''is_online'', JBool (IsUserOnline (u_ID f) h))]) friends)))"

definition FriendHandler_ListPendingRequests :: "env \<Rightarrow> gin_context \<Rightarrow> database \<Rightarrow> response" where
  "FriendHandler_ListPendingRequests w cx db =
     (case Repo_ListPendingRequests (e_gorm w) (the_userID cx) db of Inl err \<Rightarrow> Error 50001
      | Inr requests \<Rightarrow> Success (JArr (map (\<lambda>(r, requester). JObj
          [(''requester_id'', JUint (RequesterID r)), (''requester_display_id'', JStr (UserDisplayID requester)),
           (''requester_nickname'', JStr (Nickname requester)), (''requester_avatar_url'', JStr (AvatarURL requester)),
           (''status'', JStr (Status r)), (''created_at'', e_time w (f_CreatedAt r))]) requests)))"

end
