(* ===== verification/Message_Handler.thy ===== *)
theory Message_Handler
  imports Http_Api
begin

text \<open>
  \<open>server/internal/api/handler/message.go\<close>: the messages of a room, page by page.
\<close>

section \<open>The handler\<close>

definition user_json :: "env \<Rightarrow> user \<Rightarrow> json" where
  "user_json w u = JObj [(''id'', JUint (u_ID u)), (''user_display_id'', JStr (UserDisplayID u)),
     (''username'', JStr (Username u)), (''nickname'', JStr (Nickname u)), (''avatar_url'', JStr (AvatarURL u)),
     (''role'', JStr (u_Role u)), (''is_active'', JBool (IsActive u)), (''created_at'', e_time w (u_CreatedAt u)),
     (''last_login_at'', case LastLoginAt u of None \<Rightarrow> JNull | Some t \<Rightarrow> e_time w t)]"

text \<open>\<open>parse\<close> reads the text of the metadata; without metadata the field is left out.\<close>

definition message_json :: "env \<Rightarrow> (string \<Rightarrow> json) \<Rightarrow> message \<times> user \<Rightarrow> json" where
  "message_json w parse mu = (case mu of (m, sender) \<Rightarrow>
     JObj ([(''id'', JUint (msg_ID m)), (''room_id'', JUint (msg_RoomID m)), (''sender_id'', JUint (SenderID m)),
            (''type'', JStr (msg_Type m)), (''content'', JStr (Content m))] @
           (case Meta m of None \<Rightarrow> [] | Some t \<Rightarrow> [(''meta'', parse t)]) @
           [(''created_at'', e_time w (msg_CreatedAt m)), (''sender'', user_json w sender)]))"

definition page_limit :: "string \<Rightarrow> nat" where
  "page_limit q = (let limit = Atoi_value q in if limit \<le> 0 \<or> limit > 100 then 50 else nat limit)"

definition message_page ::
  "(nat \<Rightarrow> gorm) \<Rightarrow> uint64 \<Rightarrow> uint64 \<Rightarrow> uint64 \<Rightarrow> nat \<Rightarrow> database \<Rightarrow> (message \<times> user) list db_result" where
  "message_page g roomID afterID beforeID limit db =
     (if 0 < afterID then GetMessagesAfter g roomID afterID limit db
      else if 0 < beforeID then GetMessagesBefore g roomID beforeID limit db
      else GetLatestMessages g roomID limit db)"

definition MessageHandler_GetMessages ::
  "env \<Rightarrow> (string \<Rightarrow> json) \<Rightarrow> gin_context \<Rightarrow> string \<Rightarrow> string \<Rightarrow> string \<Rightarrow> string \<Rightarrow> database \<Rightarrow> response" where
  "MessageHandler_GetMessages w parse cx roomId after_id before_id limit db =
     (case ParseUint roomId of None \<Rightarrow> Error 40001
      | Some roomID \<Rightarrow>
      if \<not> IsMember (e_gorm w 0) roomID (the_userID cx) db then ErrorWithStatus 403 40301
      else case message_page (later 1 (e_gorm w)) roomID (ParseUint_value after_id) (ParseUint_value before_id)
                  (page_limit limit) db of
             Inl err \<Rightarrow> Error 50001
           | Inr ms \<Rightarrow> Success (JArr (map (message_json w parse) ms)))"

section \<open>Pages\<close>

text \<open>The messages of a room in the order of their keys, which are distinct.\<close>

definition room_log :: "uint64 \<Rightarrow> database \<Rightarrow> message list" where
  "room_log roomID db = sort_key msg_ID (filter (\<lambda>m. msg_RoomID m = roomID) (t_messages db))"

lemma sorted_by_key_unique:
  fixes xs ys :: "message list"
  assumes "mset ys = mset xs" "distinct (map msg_ID xs)" "sorted (map msg_ID ys)"
  shows "ys = sort_key msg_ID xs"
proof -
  have "inj_on msg_ID (set xs)" using assms(2) by (simp add: distinct_map)
  then have inj: "inj_on msg_ID (set ys)" using assms(1) by (metis mset_eq_setD)
  have "distinct xs" using assms(2) by (simp add: distinct_map)
  then have "distinct ys" using assms(1) by (metis distinct_count_atmost_1 mset_eq_setD)
  have "filter (\<lambda>x. msg_ID k = msg_ID x) ys = filter (\<lambda>x. msg_ID k = msg_ID x) xs" if "k \<in> set ys" for k
  proof -
    have "filter (\<lambda>x. msg_ID k = msg_ID x) zs = filter (\<lambda>x. x = k) zs" if "set zs = set ys" for zs
      using inj \<open>k \<in> set ys\<close> that by (intro filter_cong) (auto simp: inj_on_def)
    moreover have "set xs = set ys" using assms(1) by (metis mset_eq_setD)
    moreover have "filter (\<lambda>x. x = k) zs = replicate (count (mset zs) k) k" for zs :: "message list"
      by (induction zs) auto
    ultimately show ?thesis using assms(1) by simp
  qed
  then show ?thesis using assms(1,3) by (intro properties_for_sort_key [symmetric]) auto
qed

end
