(* ===== verification/Auth_Handler.thy ===== *)
theory Auth_Handler
  imports Http_Api
begin

text \<open>
  \<open>server/internal/api/handler/auth.go\<close> and \<open>user.go\<close>: registration, login and the profile of a
  user. bcrypt is not part of the repository: \<open>e_hash\<close> and \<open>e_compare\<close>.
\<close>

section \<open>Registration and login\<close>

record register_request =
  rr_Username :: string
  rr_Password :: string
  rr_Nickname :: string
  rr_AdminToken :: string

definition bind_register :: "json option \<Rightarrow> register_request option" where
  "bind_register body = do {
     username \<leftarrow> bind_string ''username'' body;
     password \<leftarrow> bind_string ''password'' body;
     nickname \<leftarrow> bind_string ''nickname'' body;
     admin_token \<leftarrow> bind_string ''admin_token'' body;
     Some \<lparr>rr_Username = username, rr_Password = password, rr_Nickname = nickname, rr_AdminToken = admin_token\<rparr>
   }"

definition valid_register :: "validator \<Rightarrow> register_request \<Rightarrow> bool" where
  "valid_register valid r \<longleftrightarrow> valid ''required,min=3,max=32,alphanum'' (FString (rr_Username r)) \<and>
     valid ''required,min=6,max=128'' (FString (rr_Password r)) \<and>
     valid ''required,min=1,max=64'' (FString (rr_Nickname r))"

definition auth_json :: "user \<Rightarrow> string \<Rightarrow> json" where
  "auth_json u token = JObj [(''user_id'', JUint (u_ID u)), (''user_display_id'', JStr (UserDisplayID u)),
     (''token'', JStr token)]"

text \<open>
  The loop that creates the user: up to \<open>n\<close> attempts, each with its own driver; a draw replaces
  the display ID after a failed one. The hook of \<open>Create\<close> has filled it in before that.
\<close>

fun create_user ::
  "nat \<Rightarrow> (nat \<Rightarrow> gorm) \<Rightarrow> (nat \<Rightarrow> random) \<Rightarrow> user \<Rightarrow> database \<Rightarrow> user db_result \<times> database" where
  "create_user 0 g rand u db = (Inl (DbError []), db)"
| "create_user (Suc n) g rand u db =
     (case User_Create (rand 0) (g 0) u db of
        (Inr u', db1) \<Rightarrow> (Inr u', db1)
      | (Inl err, db1) \<Rightarrow>
          if n = 0 then (Inl err, db1)
          else create_user n (later 1 g) (later 2 rand) (u\<lparr>UserDisplayID := GenerateDisplayID (rand 1)\<rparr>) db1)"

definition AuthHandler_Register ::
  "env \<Rightarrow> auth_config \<Rightarrow> json option \<Rightarrow> database \<Rightarrow> response \<times> database" where
  "AuthHandler_Register w cfg body db =
     (case bind_register body of None \<Rightarrow> (Error 40001, db)
      | Some req \<Rightarrow>
      if \<not> valid_register (e_valid w) req then (Error 40001, db)
      else case User_FindByUsername (e_gorm w 0) (rr_Username req) db of
        Inr existingUser \<Rightarrow> (Error 40901, db)
      | Inl _ \<Rightarrow>
     (case e_hash w (rr_Password req) of Inl err \<Rightarrow> (Error 50001, db)
      | Inr hashedPassword \<Rightarrow>
      if rr_AdminToken req \<noteq> [] \<and> (AdminToken cfg = [] \<or> rr_AdminToken req \<noteq> AdminToken cfg)
      then (Error 40302, db)
      else let role = (if rr_AdminToken req \<noteq> [] then ''super_admin'' else ''user'');
               user = zero_user\<lparr>Username := rr_Username req, PasswordHash := hashedPassword,
                        Nickname := rr_Nickname req, u_Role := role\<rparr>
      in case create_user 3 (later 1 (e_gorm w)) (e_rand w) user db of
           (Inl err, db1) \<Rightarrow> (Error 50001, db1)
         | (Inr u, db1) \<Rightarrow>
             (case GenerateToken (e_jwt w) cfg (e_clock w 0) (e_clock w 1) (u_ID u) (Username u) (u_Role u) of
                Inl err \<Rightarrow> (Error 50001, db1)
              | Inr token \<Rightarrow> (Success (auth_json u token), db1))))"

definition AuthHandler_Login ::
  "env \<Rightarrow> auth_config \<Rightarrow> json option \<Rightarrow> database \<Rightarrow> response \<times> database" where
  "AuthHandler_Login w cfg body db =
     (case Option.bind (bind_string ''username'' body)
             (\<lambda>username. map_option (Pair username) (bind_string ''password'' body)) of
        None \<Rightarrow> (Error 40001, db)
      | Some (username, password) \<Rightarrow>
     (case User_FindByUsername (e_gorm w 0) username db of Inl err \<Rightarrow> (Error 40101, db)
      | Inr u \<Rightarrow>
      if \<not> e_compare w (PasswordHash u) password then (Error 40101, db)
      else if \<not> IsActive u then (Error 40301, db)
      else let db1 = snd (User_UpdateLastLogin (e_gorm w 1) (e_clock w 0) (u_ID u) db) in
        case GenerateToken (e_jwt w) cfg (e_clock w 1) (e_clock w 2) (u_ID u) (Username u) (u_Role u) of
          Inl err \<Rightarrow> (Error 50001, db1)
        | Inr token \<Rightarrow> (Success (auth_json u token), db1)))"

section \<open>Profile\<close>

definition UserHandler_GetMe :: "env \<Rightarrow> gin_context \<Rightarrow> database \<Rightarrow> response" where
  "UserHandler_GetMe w cx db =
     (case User_FindByID (e_gorm w 0) (the_userID cx) db of Inl err \<Rightarrow> Error 40401
      | Inr u \<Rightarrow> Success (JObj [(''id'', JUint (u_ID u)), (''user_display_id'', JStr (UserDisplayID u)),
          (''username'', JStr (Username u)), (''nickname'', JStr (Nickname u)), (''avatar_url'', JStr (AvatarURL u)),
          (''role'', JStr (u_Role u)), (''created_at'', e_time w (u_CreatedAt u))]))"

definition UserHandler_UpdateProfile ::
  "env \<Rightarrow> gin_context \<Rightarrow> json option \<Rightarrow> database \<Rightarrow> response \<times> database" where
  "UserHandler_UpdateProfile w cx body db =
     (case bind_string ''nickname'' body of None \<Rightarrow> (Error 40001, db)
      | Some nickname \<Rightarrow>
      if \<not> e_valid w ''omitempty,min=1,max=64'' (FString nickname) then (Error 40001, db)
      else case User_UpdateProfile (e_gorm w 0) (the_userID cx) nickname [] db of
             (Inl err, db1) \<Rightarrow> (Error 50001, db1)
           | (Inr _, db1) \<Rightarrow> (Success JNull, db1))"

definition UserHandler_SearchByDisplayID :: "env \<Rightarrow> string \<Rightarrow> database \<Rightarrow> response" where
  "UserHandler_SearchByDisplayID w displayID db =
     (if displayID = [] then Error 40001
      else case User_FindByDisplayID (e_gorm w 0) displayID db of Inl err \<Rightarrow> Error 40401
           | Inr u \<Rightarrow> Success (JObj [(''id'', JUint (u_ID u)), (''user_display_id'', JStr (UserDisplayID u)),
               (''nickname'', JStr (Nickname u)), (''avatar_url'', JStr (AvatarURL u))]))"

end
