(* ===== verification/Server_Config.thy ===== *)
theory Server_Config
  imports Http_Api Wireguard
begin

text \<open>
  \<open>server/internal/config/config.go\<close>: the configuration of the server. The file is read by viper,
  which is not part of the repository: it takes the defaults and the path and answers with the
  merged settings, and it decodes them.
\<close>

record server_settings =
  srv_Port :: int
  srv_Mode :: string
  srv_Domain :: string

record discovery_config =
  dc_Enabled :: bool
  dc_RefreshIntervalSeconds :: int
  dc_STUNServers :: "string list"

record rtc_config =
  rc_UDPPortMin :: "16 word"
  rc_UDPPortMax :: "16 word"
  rc_FFmpegPath :: string

record rtmp_config =
  rm_Port :: int
  rm_AllowTemporaryStreams :: bool

record turn_config =
  tc_Enabled :: bool
  tc_Port :: int
  tc_Realm :: string
  tc_Username :: string
  tc_Password :: string
  tc_RelayPortMin :: "16 word"
  tc_RelayPortMax :: "16 word"

record media_config =
  mc_PublicIP :: string
  mc_PublicIPDiscovery :: discovery_config
  mc_RTC :: rtc_config
  mc_RTMP :: rtmp_config
  mc_TURN :: turn_config

record storage_config =
  st_Path :: string
  st_MaxFileSizeMB :: int

record config =
  cf_Server :: server_settings
  cf_DatabasePath :: string
  cf_Auth :: auth_config
  cf_RetentionDays :: int
  cf_Media :: media_config
  cf_WireGuard :: wg_config
  cf_Storage :: storage_config

definition config_defaults :: "(string \<times> json) list" where
  "config_defaults =
     [(''database.path'', JStr ''./data/nexusroom.db''),
      (''media.public_ip_discovery.enabled'', JBool True),
      (''media.public_ip_discovery.refresh_interval_seconds'', JNum 300),
      (''media.public_ip_discovery.stun_servers'',
         JArr [JStr ''stun.cloudflare.com:3478'', JStr ''stun.l.google.com:19302'']),
      (''media.rtc.udp_port_min'', JNum 50000),
      (''media.rtc.udp_port_max'', JNum 50050),
      (''media.rtc.ffmpeg_path'', JStr ''ffmpeg''),
      (''media.rtmp.port'', JNum 1935),
      (''media.rtmp.allow_temporary_streams'', JBool True),
      (''media.turn.enabled'', JBool True),
      (''media.turn.port'', JNum 3478),
      (''media.turn.realm'', JStr ''nexusroom''),
      (''media.turn.relay_port_min'', JNum 51000),
      (''media.turn.relay_port_max'', JNum 51100),
      (''wireguard.private_key_path'', JStr ''./data/wireguard.key'')]"

record 'settings viper =
  ReadInConfig :: "(string \<times> json) list \<Rightarrow> string \<Rightarrow> string + 'settings"
  Unmarshal :: "'settings \<Rightarrow> string + config"

definition Load :: "'settings viper \<Rightarrow> string \<Rightarrow> string + config" where
  "Load v configPath =
     (case ReadInConfig v config_defaults configPath of
        Inl err \<Rightarrow> Inl (''failed to read config file: '' @ err)
      | Inr settings \<Rightarrow>
          (case Unmarshal v settings of
             Inl err \<Rightarrow> Inl (''failed to unmarshal config: '' @ err)
           | Inr cfg \<Rightarrow> Inr cfg))"

definition GetDatabasePath :: "config \<Rightarrow> string" where
  "GetDatabasePath c = (if cf_DatabasePath c = [] then ''./data/nexusroom.db'' else cf_DatabasePath c)"

end
