(* ===== verification/Admin_Handler.thy ===== *)
theory Admin_Handler
  imports Server_Config Hub
begin

text \<open>
  \<open>server/internal/api/handler/admin.go\<close> and \<open>webhook.go\<close>: the operations of the super
  administrator, and the messages that the QQ bot posts with the administrator's token.
\<close>

section \<open>Lists\<close>

definition admin_page :: "string option \<Rightarrow> string option \<Rightarrow> int \<times> int" where
  "admin_page page page_size =
     (let p = Atoi_value (case page of None \<Rightarrow> ''1'' | Some q \<Rightarrow> q);
          s = Atoi_value (case page_size of None \<Rightarrow> ''50'' | Some q \<Rightarrow> q)
      in (if p < 1 then 1 else p, if s < 1 \<or> s > 100 then 50 else s))"

definition AdminHandler_ListUsers :: "env \<Rightarrow> string option \<Rightarrow> string option \<Rightarrow> database \<Rightarrow> response" where
  "AdminHandler_ListUsers w page page_size db =
     (case admin_page page page_size of (p, s) \<Rightarrow>
      case User_List (e_gorm w) p s db of
        (Inl err, n) \<Rightarrow> Error 50001
      | (Inr us, n) \<Rightarrow> Success (JObj
          [(''users'', JArr (map (\<lambda>u. JObj
              [(''id'', JUint (u_ID u)), (''user_display_id'', JStr (UserDisplayID u)),
               (''username'', JStr (Username u)), (''nickname'', JStr (Nickname u)),
               (''avatar_url'', JStr (AvatarURL u)), (''role'', JStr (u_Role u)),
               (''is_active'', JBool (IsActive u)), (''created_at'', e_time w (u_CreatedAt u)),
               (''last_login_at'', case LastLoginAt u of None \<Rightarrow> JNull | Some t \<Rightarrow> e_time w t)]) us)),
           (''total'', JUint n)]))"

definition AdminHandler_ListRooms :: "env \<Rightarrow> string option \<Rightarrow> string option \<Rightarrow> database \<Rightarrow> response" where
  "AdminHandler_ListRooms w page page_size db =
     (case admin_page page page_size of (p, s) \<Rightarrow>
      case Room_List (e_gorm w) p s db of
        (Inl err, n) \<Rightarrow> Error 50001
      | (Inr rs, n) \<Rightarrow> Success (JObj
          [(''rooms'', JArr (map (\<lambda>(r, owner). JObj
              [(''id'', JUint (r_ID r)), (''name'', JStr (r_Name r)), (''room_code'', JStr (RoomCode r)),
               (''invite_code'', JStr (InviteCode r)), (''owner_id'', JUint (OwnerID r)),
               (''owner_nickname'', JStr (if u_ID owner \<noteq> 0 then Nickname owner else [])),
               (''media_room_name'', JStr (MediaRoomName r)), (''created_at'', e_time w (r_CreatedAt r))]) rs)),
           (''total'', JUint n)]))"

section \<open>Users and rooms\<close>

definition AdminHandler_ToggleUser :: "env \<Rightarrow> string \<Rightarrow> json option \<Rightarrow> database \<Rightarrow> response \<times> database" where
  "AdminHandler_ToggleUser w userId body db =
     (case ParseUint userId of None \<Rightarrow> (Error 40001, db)
      | Some userID \<Rightarrow>
     (case Option.bind body (decode_field as_bool False ''is_active'') of None \<Rightarrow> (Error 40001, db)
      | Some active \<Rightarrow>
     (case User_SetActive (e_gorm w 0) userID active db of
        (Inl err, db1) \<Rightarrow> (Error 50001, db1)
      | (Inr _, db1) \<Rightarrow> (Success JNull, db1))))"

definition AdminHandler_DeleteRoom :: "env \<Rightarrow> string \<Rightarrow> database \<Rightarrow> response \<times> database" where
  "AdminHandler_DeleteRoom w roomId db =
     (case ParseUint roomId of None \<Rightarrow> (Error 40001, db)
      | Some roomID \<Rightarrow>
     (case Room_Delete (e_gorm w) roomID db of
        (Inl err, db1) \<Rightarrow> (Error 50001, db1)
      | (Inr _, db1) \<Rightarrow> (Success JNull, db1)))"

section \<open>Configuration and statistics\<close>

definition AdminHandler_GetConfig :: "config \<Rightarrow> response" where
  "AdminHandler_GetConfig cfg =
     (let srv = cf_Server cfg; media = cf_Media cfg; disc = mc_PublicIPDiscovery media; rtc = mc_RTC media;
          rtmp = mc_RTMP media; wg = cf_WireGuard cfg; st = cf_Storage cfg in
      Success (JObj
        [(''server_port'', JNum (srv_Port srv)), (''server_mode'', JStr (srv_Mode srv)),
         (''server_domain'', JStr (srv_Domain srv)), (''message_retention_days'', JNum (cf_RetentionDays cfg)),
         (''media_public_ip'', JStr (mc_PublicIP media)),
         (''public_ip_discovery_enabled'', JBool (dc_Enabled disc)),
         (''public_ip_refresh_seconds'', JNum (dc_RefreshIntervalSeconds disc)),
         (''public_ip_stun_servers'', JArr (map JStr (dc_STUNServers disc))),
         (''rtc_udp_port_min'', JNum (Word.uint (rc_UDPPortMin rtc))),
         (''rtc_udp_port_max'', JNum (Word.uint (rc_UDPPortMax rtc))),
         (''rtc_ffmpeg_path'', JStr (rc_FFmpegPath rtc)), (''rtmp_port'', JNum (rm_Port rtmp)),
         (''rtmp_allow_temporary_streams'', JBool (rm_AllowTemporaryStreams rtmp)),
         (''wireguard_subnet'', JStr (Subnet wg)), (''wireguard_gateway_ip'', JStr (GatewayIP wg)),
         (''wireguard_listen_port'', JNum (ListenPort wg)), (''storage_path'', JStr (st_Path st)),
         (''storage_max_file_size_mb'', JNum (st_MaxFileSizeMB st))]))"

text \<open>A pointer to an \<open>int\<close>; \<open>write\<close> is viper's answer when it writes the file.\<close>

definition as_int_ptr :: "int option field_decoder" where
  "as_int_ptr v cur = (case v of JNull \<Rightarrow> Some None
     | JNum n \<Rightarrow> if - (2 ^ 63) \<le> n \<and> n < 2 ^ 63 then Some (Some n) else None | _ \<Rightarrow> None)"

definition AdminHandler_UpdateConfig ::
  "(string \<times> int \<Rightarrow> string option) \<Rightarrow> json option \<Rightarrow> config \<Rightarrow> response \<times> config" where
  "AdminHandler_UpdateConfig write body cfg =
     (case Option.bind body (decode_field as_int_ptr None ''message_retention_days'') of
        None \<Rightarrow> (Error 40001, cfg)
      | Some None \<Rightarrow> (Success JNull, cfg)
      | Some (Some days) \<Rightarrow>
          let cfg1 = cfg\<lparr>cf_RetentionDays := days\<rparr> in
          case write (''message.retention_days'', days) of
            Some err \<Rightarrow> (Error 50001, cfg1)
          | None \<Rightarrow> (Success JNull, cfg1))"

definition AdminHandler_GetStats :: "env \<Rightarrow> database \<Rightarrow> hub \<Rightarrow> response" where
  "AdminHandler_GetStats w db h =
     (let onlineUsers = OnlineCount h;
          totalRooms = snd (Room_List (e_gorm w) 1 1 db);
          totalMessages = Message_Count (e_gorm w 3) db;
          totalUsers = snd (User_List (later 4 (e_gorm w)) 1 1 db)
      in Success (JObj [(''online_users'', JUint onlineUsers), (''total_users'', JUint totalUsers),
           (''total_rooms'', JUint totalRooms), (''total_messages'', JUint totalMessages)]))"

section \<open>The webhook\<close>

record qq_request =
  qq_RoomID :: uint64
  qq_UserID :: string
  qq_Nickname :: string
  qq_MessageType :: string
  qq_Content :: string

text \<open>The fields of the nested object; a missing or null one leaves them empty.\<close>

definition as_sender :: "(string \<times> string) field_decoder" where
  "as_sender v cur = (case v of JNull \<Rightarrow> Some cur
     | JObj kvs \<Rightarrow> do {
         i \<leftarrow> decode_field as_string (fst cur) ''user_id'' v;
         n \<leftarrow> decode_field as_string (snd cur) ''nickname'' v;
         Some (i, n)
       }
     | _ \<Rightarrow> None)"

definition bind_qq :: "validator \<Rightarrow> json option \<Rightarrow> qq_request option" where
  "bind_qq valid body = do {
     j \<leftarrow> body;
     room_id \<leftarrow> decode_field as_uint64 0 ''room_id'' j;
     sender \<leftarrow> decode_field as_sender ([], []) ''sender'' j;
     message_type \<leftarrow> decode_field as_string [] ''message_type'' j;
     content \<leftarrow> decode_field as_string [] ''content'' j;
     if valid ''required'' (FUint room_id) \<and>
        valid ''required'' (FStruct [FString (fst sender), FString (snd sender)]) \<and>
        valid ''required'' (FString message_type) \<and> valid ''required'' (FString content)
     then Some \<lparr>qq_RoomID = room_id, qq_UserID = fst sender, qq_Nickname = snd sender,
                qq_MessageType = message_type, qq_Content = content\<rparr>
     else None
   }"

definition qq_message :: "time \<Rightarrow> qq_request \<Rightarrow> message" where
  "qq_message now r = \<lparr>msg_ID = 0, msg_RoomID = qq_RoomID r, SenderID = 0, msg_Type = ''system'',
     Content = ''[QQ] '' @ qq_Nickname r @ '': '' @ qq_Content r, Meta = None, msg_CreatedAt = now\<rparr>"

definition QQWebhook ::
  "env \<Rightarrow> auth_config \<Rightarrow> string \<Rightarrow> json option \<Rightarrow> database \<Rightarrow> hub \<Rightarrow> response \<times> database \<times> hub" where
  "QQWebhook w cfg authorization body db h =
     (let expectedToken = AdminToken cfg in
      if expectedToken = [] then (ErrorWithStatus 403 40301, db, h)
      else if authorization \<noteq> ''Bearer '' @ expectedToken then (ErrorWithStatus 401 40101, db, h)
      else case bind_qq (e_valid w) body of None \<Rightarrow> (Error 40001, db, h)
      | Some r \<Rightarrow>
     (case Room_FindByID (e_gorm w) (qq_RoomID r) db of Inl err \<Rightarrow> (Error 40401, db, h)
      | Inr v \<Rightarrow>
     (case Message_Create (e_gorm w 4) (qq_message (e_clock w 0) r) db of
        (Inl err, db1) \<Rightarrow> (Error 50001, db1, h)
      | (Inr m, db1) \<Rightarrow>
          (Success JNull, db1, BroadcastToRoom (qq_RoomID r) (ChatMessageP
             \<lparr>cm_ID = msg_ID m, cm_RoomID = msg_RoomID m, cm_SenderID = 0, cm_Type = ''system'',
              cm_Content = Content (qq_message (e_clock w 0) r), cm_Meta = None, cm_ClientMessageID = [],
              cm_CreatedAt = msg_CreatedAt m,
              cm_Sender = \<lparr>si_ID = 0, si_Nickname = ''[QQ] '' @ qq_Nickname r, si_AvatarURL = []\<rparr>\<rparr>) 0 h))))"

end
