(* ===== verification/Go_Url.thy ===== *)
theory Go_Url
  imports Go_Net
begin

text \<open>
  Hosts and ports as Go's \<open>net\<close> package joins and splits them, and the part of \<open>net/url\<close> that the
  server uses: parsing a URL into its host and its path. Other escapes in the
  zone of an IPv6 host than that of the percent sign are refused here, which the library accepts.
\<close>

section \<open>Strings\<close>

fun Contains :: "string \<Rightarrow> string \<Rightarrow> bool" where
  "Contains s sub = (HasPrefix s sub \<or> (case s of [] \<Rightarrow> False | _ # t \<Rightarrow> Contains t sub))"

declare Contains.simps [simp del]

definition TrimRight :: "char list \<Rightarrow> string \<Rightarrow> string" where
  "TrimRight cutset = trim_right (\<lambda>c. c \<in> set cutset)"

definition TrimLeft :: "char list \<Rightarrow> string \<Rightarrow> string" where
  "TrimLeft cutset = trim_left (\<lambda>c. c \<in> set cutset)"

definition Trim :: "char list \<Rightarrow> string \<Rightarrow> string" where
  "Trim cutset = trim (\<lambda>c. c \<in> set cutset)"

definition TrimPrefix :: "string \<Rightarrow> string \<Rightarrow> string" where
  "TrimPrefix s pre = (if HasPrefix s pre then drop (length pre) s else s)"

text \<open>What is before the first separator, and what follows it if there is one.\<close>

definition Cut :: "char \<Rightarrow> string \<Rightarrow> string \<times> string option" where
  "Cut sep s = (takeWhile (\<lambda>c. c \<noteq> sep) s, case dropWhile (\<lambda>c. c \<noteq> sep) s of [] \<Rightarrow> None | _ # t \<Rightarrow> Some t)"

text \<open>What is before the last separator and what follows it.\<close>

definition CutLast :: "char \<Rightarrow> string \<Rightarrow> (string \<times> string) option" where
  "CutLast sep s =
     (case Cut sep (rev s) of (t, None) \<Rightarrow> None | (t, Some u) \<Rightarrow> Some (rev u, rev t))"

section \<open>Hosts and ports\<close>

definition JoinHostPort :: "string \<Rightarrow> string \<Rightarrow> string" where
  "JoinHostPort host port =
     (if CHR '':'' \<in> set host then ''['' @ host @ '']:'' @ port else host @ '':'' @ port)"

definition SplitHostPort :: "string \<Rightarrow> (string \<times> string) option" where
  "SplitHostPort s =
     (if HasPrefix s ''['' then
        (case Cut (CHR '']'') (drop 1 s) of
           (host, Some rest) \<Rightarrow>
             let port = drop 1 rest in
             if \<not> HasPrefix rest '':'' \<or> CHR '':'' \<in> set port \<or> CHR ''['' \<in> set host \<or>
                CHR ''['' \<in> set port \<or> CHR '']'' \<in> set port
             then None else Some (host, port)
         | (host, None) \<Rightarrow> None)
      else
        (case CutLast (CHR '':'') s of
           None \<Rightarrow> None
         | Some (host, port) \<Rightarrow>
             if CHR '':'' \<in> set host \<or> CHR ''['' \<in> set s \<or> CHR '']'' \<in> set s then None else Some (host, port)))"

section \<open>URLs\<close>

record url =
  url_Host :: string
  url_Path :: string

definition is_ctl :: "char \<Rightarrow> bool" where
  "is_ctl c \<longleftrightarrow> (of_char c :: nat) < 32 \<or> (of_char c :: nat) = 127"

text \<open>\<open>getScheme\<close>: the scheme and the rest; \<open>None\<close> when the scheme is missing.\<close>

fun get_scheme :: "string \<Rightarrow> string \<Rightarrow> string \<Rightarrow> (string \<times> string) option" where
  "get_scheme whole done [] = Some ([], whole)"
| "get_scheme whole done (c # s) =
     (if is_letter c then get_scheme whole (done @ [c]) s
      else if is_digit c \<or> c \<in> set ''+-.'' then (if done = [] then Some ([], whole) else get_scheme whole (done @ [c]) s)
      else if c = CHR '':'' then (if done = [] then None else Some (done, s))
      else Some ([], whole))"

fun unescape :: "(char \<Rightarrow> bool) \<Rightarrow> string \<Rightarrow> string option" where
  "unescape allowed [] = Some []"
| "unescape allowed (c # s) =
     (if c = CHR ''%'' then
        (case s of
           h # l # t \<Rightarrow>
             (case (hex_value h, hex_value l) of
                (Some x, Some y) \<Rightarrow>
                  if allowed (char_of (16 * x + y)) then map_option (Cons (char_of (16 * x + y))) (unescape allowed t)
                  else None
              | _ \<Rightarrow> None)
         | _ \<Rightarrow> None)
      else map_option (Cons c) (unescape allowed s))"

text \<open>The characters that a host may have unescaped; an escape must stand for one that is not ASCII, or for the percent sign.\<close>

definition host_char :: "char \<Rightarrow> bool" where
  "host_char c \<longleftrightarrow> is_letter c \<or> is_digit c \<or> 128 \<le> (of_char c :: nat) \<or> c \<in> set ''-_.~!$&()*+,;=:[]<>%'' \<or>
     of_char c \<in> {34 :: nat, 39}"

definition validOptionalPort :: "string \<Rightarrow> bool" where
  "validOptionalPort port \<longleftrightarrow> (case port of [] \<Rightarrow> True | c # ds \<Rightarrow> c = CHR '':'' \<and> list_all is_digit ds)"

definition parseHost :: "string \<Rightarrow> string option" where
  "parseHost host =
     (let port_ok =
        (if HasPrefix host ''['' then
           (case CutLast (CHR '']'') host of None \<Rightarrow> False | Some (before, colonPort) \<Rightarrow> validOptionalPort colonPort)
         else
           (case CutLast (CHR '':'') host of None \<Rightarrow> True
            | Some (before, port) \<Rightarrow> validOptionalPort (CHR '':'' # port)))
      in if \<not> port_ok \<or> \<not> list_all host_char host then None
         else unescape (\<lambda>c. 128 \<le> (of_char c :: nat) \<or> c = CHR ''%'') host)"

definition userinfo_char :: "char \<Rightarrow> bool" where
  "userinfo_char c \<longleftrightarrow> is_letter c \<or> is_digit c \<or> c \<in> set ''-._:~!$&()*+,;=%@'' \<or> of_char c = (39 :: nat)"

definition parseAuthority :: "string \<Rightarrow> string option" where
  "parseAuthority authority =
     (case CutLast (CHR ''@'') authority of
        None \<Rightarrow> parseHost authority
      | Some (userinfo, host) \<Rightarrow>
          (case parseHost host of None \<Rightarrow> None
           | Some h \<Rightarrow>
               if \<not> list_all userinfo_char userinfo \<or> unescape (\<lambda>_. True) userinfo = None then None else Some h))"

text \<open>\<open>url.Parse\<close>; the fragment must unescape, the query is not looked at.\<close>

definition url_Parse :: "string \<Rightarrow> url option" where
  "url_Parse raw =
     (case Cut (CHR ''#'') raw of (u, frag) \<Rightarrow>
      if list_ex is_ctl u \<or> (case frag of None \<Rightarrow> False | Some f \<Rightarrow> unescape (\<lambda>_. True) f = None) then None
      else if u = ''*'' then Some \<lparr>url_Host = [], url_Path = ''*''\<rparr>
      else case get_scheme u [] u of None \<Rightarrow> None
      | Some (scheme, rest0) \<Rightarrow>
     (let rest = fst (Cut (CHR ''?'') rest0) in
      if \<not> HasPrefix rest ''/'' \<and> scheme \<noteq> [] then Some \<lparr>url_Host = [], url_Path = []\<rparr>
      else if \<not> HasPrefix rest ''/'' \<and> CHR '':'' \<in> set (fst (Cut (CHR ''/'') rest)) then None
      else if (scheme \<noteq> [] \<or> \<not> HasPrefix rest ''///'') \<and> HasPrefix rest ''//'' then
        (let authority = takeWhile (\<lambda>c. c \<noteq> CHR ''/'') (drop 2 rest);
             path = dropWhile (\<lambda>c. c \<noteq> CHR ''/'') (drop 2 rest)
         in case (parseAuthority authority, unescape (\<lambda>_. True) path) of
              (Some h, Some p) \<Rightarrow> Some \<lparr>url_Host = h, url_Path = p\<rparr>
            | _ \<Rightarrow> None)
      else map_option (\<lambda>p. \<lparr>url_Host = [], url_Path = p\<rparr>) (unescape (\<lambda>_. True) rest)))"

definition Hostname :: "url \<Rightarrow> string" where
  "Hostname u =
     (let host = (case CutLast (CHR '':'') (url_Host u) of
                    Some (h, port) \<Rightarrow> if list_all is_digit port then h else url_Host u
                  | None \<Rightarrow> url_Host u)
      in if HasPrefix host ''['' \<and> HasSuffix host '']'' then butlast (drop 1 host) else host)"

section \<open>Facts\<close>

lemma Cut_sep: "sep \<notin> set s \<Longrightarrow> Cut sep (s @ sep # t) = (s, Some t)"
proof -
  assume a: "sep \<notin> set s"
  then have "takeWhile (\<lambda>c. c \<noteq> sep) (s @ sep # t) = s" "dropWhile (\<lambda>c. c \<noteq> sep) (s @ sep # t) = sep # t"
    by (induction s) auto
  then show ?thesis by (simp add: Cut_def)
qed

lemma Cut_none: "sep \<notin> set s \<Longrightarrow> Cut sep s = (s, None)"
proof -
  assume a: "sep \<notin> set s"
  then have t: "takeWhile (\<lambda>c. c \<noteq> sep) s = s" and d: "dropWhile (\<lambda>c. c \<noteq> sep) s = []"
    by (induction s) auto
  show ?thesis unfolding Cut_def t d by simp
qed

lemma CutLast_sep: "sep \<notin> set t \<Longrightarrow> CutLast sep (s @ sep # t) = Some (s, t)"
  using Cut_sep [of sep "rev t" "rev s"] by (simp add: CutLast_def)

text \<open>What was joined is split again: for host names, IPv4 and IPv6 addresses.\<close>

lemma SplitHostPort_JoinHostPort:
  assumes "set host \<inter> set ''[]'' = {}" "set port \<inter> set ''[]:'' = {}"
  shows "SplitHostPort (JoinHostPort host port) = Some (host, port)"
proof (cases "CHR '':'' \<in> set host")
  case True
  have "Cut (CHR '']'') (host @ CHR '']'' # CHR '':'' # port) = (host, Some (CHR '':'' # port))"
    using assms(1) by (intro Cut_sep) auto
  with True assms show ?thesis by (auto simp: JoinHostPort_def SplitHostPort_def HasPrefix_def Let_def)
next
  case False
  let ?s = "host @ CHR '':'' # port"
  have s: "JoinHostPort host port = ?s" using False by (simp add: JoinHostPort_def)
  have "CutLast (CHR '':'') ?s = Some (host, port)" using assms(2) by (intro CutLast_sep) auto
  moreover have "\<not> HasPrefix ?s ''[''" using assms(1) by (cases host) (auto simp: HasPrefix_def)
  moreover have "CHR ''['' \<notin> set ?s" "CHR '']'' \<notin> set ?s" using assms by auto
  ultimately show ?thesis using False unfolding s SplitHostPort_def by simp
qed

end
