(* ===== verification/Vlan_Handler.thy ===== *)
theory Vlan_Handler
  imports Http_Api Hub Go_Url
begin

text \<open>
  \<open>server/internal/api/handler/vlan.go\<close>: the virtual network of a room, over the coordinator of
  \<open>Wireguard\<close>. A handler that calls the coordinator can panic (\<open>None\<close>).
\<close>

section \<open>The handlers\<close>

text \<open>The endpoint that a client gets: the host of the request when none is configured.\<close>

definition server_endpoint :: "server_config \<Rightarrow> string \<Rightarrow> string" where
  "server_endpoint serverCfg request_host =
     (if TrimSpace (ServerEndpoint serverCfg) = [] \<or> Contains (ServerEndpoint serverCfg) ''YOUR_IP'' then
        (let host = TrimSpace (case SplitHostPort request_host of Some (h, port) \<Rightarrow> h | None \<Rightarrow> request_host)
         in if host \<noteq> [] then host @ '':'' @ Itoa (sc_ListenPort serverCfg) else ServerEndpoint serverCfg)
      else ServerEndpoint serverCfg)"

definition peer_nickname :: "user \<Rightarrow> string" where
  "peer_nickname u = (if u_ID u \<noteq> 0 then Nickname u else [])"

definition vlan_peer_json :: "wg_peer \<times> user \<Rightarrow> json" where
  "vlan_peer_json pu = (case pu of (p, u) \<Rightarrow>
     JObj [(''user_id'', JUint (p_UserID p)), (''nickname'', JStr (peer_nickname u)),
           (''public_key'', JStr (PublicKey p)), (''allowed_ips'', JStr (AssignedIP p))])"

definition vlan_joined_json :: "wg_peer \<Rightarrow> server_config \<Rightarrow> string \<Rightarrow> (wg_peer \<times> user) list \<Rightarrow> json" where
  "vlan_joined_json peer serverCfg endpoint others =
     JObj [(''assigned_ip'', JStr (AssignedIP peer)), (''server_public_key'', JStr (ServerPublicKey serverCfg)),
           (''server_endpoint'', JStr endpoint), (''dns'', JStr (sc_DNS serverCfg)),
           (''peers'', JArr (map vlan_peer_json others))]"

text \<open>A failed query for the peers leaves the list empty.\<close>

definition VLANHandler_Join ::
  "env \<Rightarrow> 'k wgtypes \<Rightarrow> 'k device \<Rightarrow> gin_context \<Rightarrow> string \<Rightarrow> string \<Rightarrow> json option
     \<Rightarrow> database \<Rightarrow> 'k coordinator \<Rightarrow> hub \<Rightarrow> (response \<times> database \<times> 'k coordinator \<times> hub) option" where
  "VLANHandler_Join w ty dev cx roomId request_host body db c h =
     (case ParseUint roomId of None \<Rightarrow> Some (Error 40001, db, c, h)
      | Some roomID \<Rightarrow>
      let userID = the_userID cx in
      if \<not> IsMember (e_gorm w 0) roomID userID db then Some (ErrorWithStatus 403 40301, db, c, h)
      else case bind_string ''public_key'' body of None \<Rightarrow> Some (Error 40001, db, c, h)
      | Some key \<Rightarrow>
      if \<not> e_valid w ''required'' (FString key) then Some (Error 40001, db, c, h)
      else do {
        (res, db1, c1) \<leftarrow> RegisterPeer (later 1 (e_gorm w)) ty dev roomID userID key db c;
        (case res of
           Inl err \<Rightarrow> Some (Error 50001, db1, c1, h)
         | Inr peer \<Rightarrow>
             let serverCfg = GetServerConfig ty c1;
                 endpoint = server_endpoint serverCfg request_host;
                 listed = (case GetPeers (later 4 (e_gorm w)) roomID db1 of Inl err \<Rightarrow> [] | Inr ps \<Rightarrow> ps);
                 others = filter (\<lambda>(p, u). p_UserID p \<noteq> userID) listed;
                 nickname = (case User_FindByID (e_gorm w 6) userID db1 of Inl err \<Rightarrow> [] | Inr u \<Rightarrow> Nickname u)
             in Some (Success (vlan_joined_json peer serverCfg endpoint others), db1, c1,
                  BroadcastToRoom roomID (VlanPeerUpdateP roomID ''join''
                    \<lparr>pi_UserID = userID, pi_Nickname = nickname, pi_PublicKey = key,
                     pi_AssignedIP = AssignedIP peer\<rparr>) userID h))
      })"

definition VLANHandler_Leave ::
  "env \<Rightarrow> 'k wgtypes \<Rightarrow> 'k device \<Rightarrow> gin_context \<Rightarrow> string
     \<Rightarrow> database \<Rightarrow> 'k coordinator \<Rightarrow> hub \<Rightarrow> (response \<times> database \<times> 'k coordinator \<times> hub) option" where
  "VLANHandler_Leave w ty dev cx roomId db c h =
     (case ParseUint roomId of None \<Rightarrow> Some (Error 40001, db, c, h)
      | Some roomID \<Rightarrow>
      let userID = the_userID cx in
      do {
        (res, db1, c1) \<leftarrow> UnregisterPeer (e_gorm w) ty dev roomID userID db c;
        (case res of
           Inl err \<Rightarrow> Some (Error 50001, db1, c1, h)
         | Inr _ \<Rightarrow> Some (Success JNull, db1, c1,
             BroadcastToRoom roomID (VlanPeerUpdateP roomID ''leave''
               \<lparr>pi_UserID = userID, pi_Nickname = [], pi_PublicKey = [], pi_AssignedIP = []\<rparr>) userID h))
      })"

definition VLANHandler_Peers :: "env \<Rightarrow> gin_context \<Rightarrow> string \<Rightarrow> database \<Rightarrow> response" where
  "VLANHandler_Peers w cx roomId db =
     (case ParseUint roomId of None \<Rightarrow> Error 40001
      | Some roomID \<Rightarrow>
      if \<not> IsMember (e_gorm w 0) roomID (the_userID cx) db then ErrorWithStatus 403 40301
      else case GetPeers (later 1 (e_gorm w)) roomID db of Inl err \<Rightarrow> Error 50001
      | Inr ps \<Rightarrow> Success (JArr (map (\<lambda>(p, u). JObj
          [(''user_id'', JUint (p_UserID p)), (''nickname'', JStr (peer_nickname u)),
           (''public_key'', JStr (PublicKey p)), (''assigned_ip'', JStr (AssignedIP p)),
           (''last_handshake'', case LastHandshakeAt p of None \<Rightarrow> JNull | Some t \<Rightarrow> e_time w t)]) ps)))"

end
