(* ===== verification/Stream_Registry.thy ===== *)
theory Stream_Registry
  imports Go_Channel
begin

text \<open>
  \<open>server/internal/media/stream/registry.go\<close>: the registry of live streams. An \<open>entry\<close> is
  one publication; \<open>streams\<close> maps a key to the current entry; a subscription is a triple of
  buffered channels that the entry feeds and the reader drains. Pointers are addresses into
  two heaps, so that an entry that was replaced, and a subscription whose entry is gone,
  still exist for whoever holds them. Sending on or closing a closed channel panics.

  The lemmas show that no interleaving of the critical sections panics, what each channel
  holds after any sequence of publications, and when viewers are counted.
\<close>

section \<open>Data\<close>

record frame =
  f_PTS :: duration
  f_DTS :: duration
  NALUs :: "bytes list"
  KeyFrame :: bool

record audio_frame =
  a_PTS :: duration
  a_Data :: bytes

record opus_frame =
  SequenceNumber :: "16 word"
  o_Timestamp :: "32 word"
  Marker :: bool
  o_Payload :: bytes

record info =
  i_Key :: string
  Active :: bool
  HasAudio :: bool
  i_HasOpus :: bool
  Viewers :: nat
  BitrateKbps :: rat
  StartedAt :: int

text \<open>
  A \<open>Subscription\<close> together with the \<open>subscriber\<close> that holds the sending ends of the same
  three channels, and what its \<open>close\<close> closure captures: the entry, the id, and the
  \<open>sync.Once\<close>.
\<close>

record subscription =
  Frames :: "frame chan"
  Audio :: "audio_frame chan"
  Opus :: "opus_frame chan"
  SPS :: bytes
  PPS :: bytes
  AAC :: bytes
  HasOpus :: bool
  close_set :: bool
  once_done :: bool
  sub_entry :: addr
  sub_id :: "64 word"

record entry =
  e_key :: string
  e_sps :: bytes
  e_pps :: bytes
  startedAt :: int
  totalBytes :: "64 word"
  e_aac :: bytes
  hasOpus :: bool
  subscribers :: "(64 word \<times> addr) list"
  nextID :: "64 word"
  e_closed :: bool

record registry =
  streams :: "(string \<times> addr) list"
  entries :: "addr \<rightharpoonup> entry"
  subs :: "addr \<rightharpoonup> subscription"
  next_addr :: addr

datatype stream_error = ErrNotFound

definition NewRegistry :: registry where
  "NewRegistry = \<lparr>streams = [], entries = Map.empty, subs = Map.empty, next_addr = 0\<rparr>"

section \<open>Critical sections of an entry\<close>

definition cloneFrame :: "frame \<Rightarrow> frame" where
  "cloneFrame fr = fr\<lparr>NALUs := map (\<lambda>nalu. [] @ nalu) (NALUs fr)\<rparr>"

definition set_entry :: "addr \<Rightarrow> entry \<Rightarrow> registry \<Rightarrow> registry" where
  "set_entry a e r = r\<lparr>entries := (entries r)(a \<mapsto> e)\<rparr>"

definition send_video :: "frame \<Rightarrow> subscription \<Rightarrow> subscription option" where
  "send_video x s = map_option (\<lambda>c. s\<lparr>Frames := c\<rparr>) (offer x (Frames s))"

definition send_audio :: "audio_frame \<Rightarrow> subscription \<Rightarrow> subscription option" where
  "send_audio x s = map_option (\<lambda>c. s\<lparr>Audio := c\<rparr>) (offer x (Audio s))"

definition send_opus :: "opus_frame \<Rightarrow> subscription \<Rightarrow> subscription option" where
  "send_opus x s = map_option (\<lambda>c. s\<lparr>Opus := c\<rparr>) (offer x (Opus s))"

definition close_channels :: "subscription \<Rightarrow> subscription option" where
  "close_channels s = do {
     v \<leftarrow> close_chan (Frames s);
     au \<leftarrow> close_chan (Audio s);
     op \<leftarrow> close_chan (Opus s);
     Some (s\<lparr>Frames := v, Audio := au, Opus := op\<rparr>)
   }"

text \<open>\<open>for _, subscriber := range e.subscribers\<close>\<close>

definition each_subscriber ::
  "(subscription \<Rightarrow> subscription option) \<Rightarrow> entry \<Rightarrow> registry \<Rightarrow> registry option" where
  "each_subscriber f e r =
     map_option (\<lambda>h. r\<lparr>subs := h\<rparr>) (for_each (update_cell f) (map snd (subscribers e)) (subs r))"

definition entry_publish ::
  "addr \<Rightarrow> frame \<Rightarrow> registry \<Rightarrow> ((stream_error + unit) \<times> registry) option" where
  "entry_publish a fr r = do {
     e \<leftarrow> entries r a;
     if e_closed e then Some (Inl ErrNotFound, r)
     else do {
       let copyFrame = cloneFrame fr;
       let e' = e\<lparr>totalBytes :=
         fold (\<lambda>nalu t. t + of_nat (length nalu)) (NALUs copyFrame) (totalBytes e)\<rparr>;
       r' \<leftarrow> each_subscriber (send_video copyFrame) e' (set_entry a e' r);
       Some (Inr (), r')
     }
   }"

definition entry_publishAudio ::
  "addr \<Rightarrow> audio_frame \<Rightarrow> registry \<Rightarrow> ((stream_error + unit) \<times> registry) option" where
  "entry_publishAudio a fr r = do {
     e \<leftarrow> entries r a;
     if e_closed e then Some (Inl ErrNotFound, r)
     else do {
       let fr' = fr\<lparr>a_Data := [] @ a_Data fr\<rparr>;
       let e' = e\<lparr>totalBytes := totalBytes e + of_nat (length (a_Data fr'))\<rparr>;
       r' \<leftarrow> each_subscriber (send_audio fr') e' (set_entry a e' r);
       Some (Inr (), r')
     }
   }"

definition entry_publishOpus ::
  "addr \<Rightarrow> opus_frame \<Rightarrow> registry \<Rightarrow> ((stream_error + unit) \<times> registry) option" where
  "entry_publishOpus a fr r = do {
     e \<leftarrow> entries r a;
     if e_closed e then Some (Inl ErrNotFound, r)
     else do {
       let fr' = fr\<lparr>o_Payload := [] @ o_Payload fr\<rparr>;
       r' \<leftarrow> each_subscriber (send_opus fr') e r;
       Some (Inr (), r')
     }
   }"

definition entry_setOpus :: "addr \<Rightarrow> bool \<Rightarrow> registry \<Rightarrow> registry option" where
  "entry_setOpus a available r = do {
     e \<leftarrow> entries r a;
     Some (set_entry a (e\<lparr>hasOpus := available\<rparr>) r)
   }"

definition entry_subscribe ::
  "addr \<Rightarrow> registry \<Rightarrow> ((stream_error + addr) \<times> registry) option" where
  "entry_subscribe a r = do {
     e \<leftarrow> entries r a;
     if e_closed e then Some (Inl ErrNotFound, r)
     else do {
       let sid = nextID e;
       let c = next_addr r;
       let s = \<lparr>Frames = make_chan 256, Audio = make_chan 512, Opus = make_chan 256,
                SPS = e_sps e, PPS = e_pps e, AAC = e_aac e, HasOpus = hasOpus e,
                close_set = True, once_done = False, sub_entry = a, sub_id = sid\<rparr>;
       let e' = e\<lparr>nextID := nextID e + 1, subscribers := AList.update sid c (subscribers e)\<rparr>;
       Some (Inr c, set_entry a e' (r\<lparr>subs := (subs r)(c \<mapsto> s), next_addr := Suc c\<rparr>))
     }
   }"

definition entry_info :: "int \<Rightarrow> entry \<Rightarrow> info" where
  "entry_info now e =
     (let elapsed = (of_int (now - startedAt e) :: rat) / of_int second;
          bitrate = (if elapsed > 0
                     then of_nat (unat (totalBytes e * 8)) / elapsed / 1000 else 0)
      in \<lparr>i_Key = e_key e, Active = \<not> e_closed e, HasAudio = (length (e_aac e) \<noteq> 0),
          i_HasOpus = hasOpus e, Viewers = length (subscribers e),
          BitrateKbps = bitrate, StartedAt = startedAt e\<rparr>)"

definition entry_shutdown :: "addr \<Rightarrow> registry \<Rightarrow> registry option" where
  "entry_shutdown a r = do {
     e \<leftarrow> entries r a;
     if \<not> e_closed e then do {
       r' \<leftarrow> each_subscriber close_channels e r;
       Some (set_entry a (e\<lparr>e_closed := True, subscribers := []\<rparr>) r')
     } else Some r
   }"

text \<open>The closure in \<open>subscribe\<close>, under the \<open>sync.Once\<close>.\<close>

definition close_closure :: "addr \<Rightarrow> registry \<Rightarrow> registry option" where
  "close_closure c r = do {
     s \<leftarrow> subs r c;
     if once_done s then Some r
     else do {
       let r1 = r\<lparr>subs := (subs r)(c \<mapsto> s\<lparr>once_done := True\<rparr>)\<rparr>;
       e \<leftarrow> entries r1 (sub_entry s);
       (case map_of (subscribers e) (sub_id s) of
          None \<Rightarrow> Some r1
        | Some current \<Rightarrow> do {
            let e' = e\<lparr>subscribers := AList.delete (sub_id s) (subscribers e)\<rparr>;
            h \<leftarrow> update_cell close_channels current (subs r1);
            Some (set_entry (sub_entry s) e' (r1\<lparr>subs := h\<rparr>))
          })
     }
   }"

definition Subscription_Close :: "addr \<Rightarrow> registry \<Rightarrow> registry option" where
  "Subscription_Close c r = do {
     s \<leftarrow> subs r c;
     if close_set s then do {
       r' \<leftarrow> close_closure c r;
       s' \<leftarrow> subs r' c;
       Some (r'\<lparr>subs := (subs r')(c \<mapsto> s'\<lparr>close_set := False\<rparr>)\<rparr>)
     } else Some r
   }"

section \<open>The registry\<close>

text \<open>The part of \<open>Start\<close> under the registry's lock; it returns the replaced entry.\<close>

definition registry_install ::
  "string \<Rightarrow> bytes \<Rightarrow> bytes \<Rightarrow> bytes list \<Rightarrow> int \<Rightarrow> registry \<Rightarrow> addr option \<times> registry" where
  "registry_install key sps pps aac now r =
     (let audioConfig = (case aac of [] \<Rightarrow> [] | x # _ \<Rightarrow> x);
          a = next_addr r;
          e = \<lparr>e_key = key, e_sps = [] @ sps, e_pps = [] @ pps, startedAt = now,
               totalBytes = 0, e_aac = [] @ audioConfig, hasOpus = False,
               subscribers = [], nextID = 0, e_closed = False\<rparr>;
          previous = map_of (streams r) key
      in (previous,
          set_entry a e (r\<lparr>streams := AList.update key a (streams r), next_addr := Suc a\<rparr>)))"

definition registry_Start ::
  "string \<Rightarrow> bytes \<Rightarrow> bytes \<Rightarrow> bytes list \<Rightarrow> int \<Rightarrow> registry \<Rightarrow> registry option" where
  "registry_Start key sps pps aac now r =
     (let (previous, r') = registry_install key sps pps aac now r
      in case previous of None \<Rightarrow> Some r' | Some p \<Rightarrow> entry_shutdown p r')"

text \<open>The part of \<open>Stop\<close> under the registry's lock.\<close>

definition registry_unlink :: "string \<Rightarrow> registry \<Rightarrow> addr option \<times> registry" where
  "registry_unlink key r =
     (let e = map_of (streams r) key
      in (e, if e \<noteq> None then r\<lparr>streams := AList.delete key (streams r)\<rparr> else r))"

definition registry_Stop :: "string \<Rightarrow> registry \<Rightarrow> registry option" where
  "registry_Stop key r =
     (let (e, r') = registry_unlink key r
      in case e of None \<Rightarrow> Some r' | Some a \<Rightarrow> entry_shutdown a r')"

definition registry_Publish ::
  "string \<Rightarrow> frame \<Rightarrow> registry \<Rightarrow> ((stream_error + unit) \<times> registry) option" where
  "registry_Publish key fr r =
     (case map_of (streams r) key of None \<Rightarrow> Some (Inl ErrNotFound, r)
      | Some a \<Rightarrow> entry_publish a fr r)"

definition registry_PublishAudio ::
  "string \<Rightarrow> audio_frame \<Rightarrow> registry \<Rightarrow> ((stream_error + unit) \<times> registry) option" where
  "registry_PublishAudio key fr r =
     (case map_of (streams r) key of None \<Rightarrow> Some (Inl ErrNotFound, r)
      | Some a \<Rightarrow> entry_publishAudio a fr r)"

definition registry_PublishOpus ::
  "string \<Rightarrow> opus_frame \<Rightarrow> registry \<Rightarrow> ((stream_error + unit) \<times> registry) option" where
  "registry_PublishOpus key fr r =
     (case map_of (streams r) key of None \<Rightarrow> Some (Inl ErrNotFound, r)
      | Some a \<Rightarrow> entry_publishOpus a fr r)"

definition registry_SetOpusAvailable ::
  "string \<Rightarrow> bool \<Rightarrow> registry \<Rightarrow> ((stream_error + unit) \<times> registry) option" where
  "registry_SetOpusAvailable key available r =
     (case map_of (streams r) key of None \<Rightarrow> Some (Inl ErrNotFound, r)
      | Some a \<Rightarrow> map_option (Pair (Inr ())) (entry_setOpus a available r))"

definition registry_Subscribe ::
  "string \<Rightarrow> registry \<Rightarrow> ((stream_error + addr) \<times> registry) option" where
  "registry_Subscribe key r =
     (case map_of (streams r) key of None \<Rightarrow> Some (Inl ErrNotFound, r)
      | Some a \<Rightarrow> entry_subscribe a r)"

definition registry_Get :: "string \<Rightarrow> int \<Rightarrow> registry \<Rightarrow> info option" where
  "registry_Get key now r =
     (case map_of (streams r) key of None \<Rightarrow> None
      | Some a \<Rightarrow> map_option (entry_info now) (entries r a))"

definition registry_Snapshot :: "int \<Rightarrow> registry \<Rightarrow> info list" where
  "registry_Snapshot now r =
     List.map_filter (\<lambda>(k, a). map_option (entry_info now) (entries r a)) (streams r)"

section \<open>The invariant\<close>

definition sub_open :: "subscription \<Rightarrow> bool" where
  "sub_open s \<longleftrightarrow> \<not> ch_closed (Frames s) \<and> \<not> ch_closed (Audio s) \<and> \<not> ch_closed (Opus s)"

definition sub_ok :: "subscription \<Rightarrow> bool" where
  "sub_ok s \<longleftrightarrow> chan_ok 256 (Frames s) \<and> chan_ok 512 (Audio s) \<and> chan_ok 256 (Opus s)"

text \<open>
  A subscriber in the map of an entry is open and is the subscription that was given this
  id by this entry; a closed entry has no subscriber left.
\<close>

definition entry_inv :: "registry \<Rightarrow> addr \<Rightarrow> entry \<Rightarrow> bool" where
  "entry_inv r a e \<longleftrightarrow>
     distinct (map fst (subscribers e)) \<and>
     (\<forall>(i, c) \<in> set (subscribers e).
        \<exists>s. subs r c = Some s \<and> sub_open s \<and> sub_entry s = a \<and> sub_id s = i) \<and>
     (e_closed e \<longrightarrow> subscribers e = [])"

definition registry_inv :: "registry \<Rightarrow> bool" where
  "registry_inv r \<longleftrightarrow>
     (\<forall>a e. entries r a = Some e \<longrightarrow> a < next_addr r \<and> entry_inv r a e) \<and>
     (\<forall>c s. subs r c = Some s \<longrightarrow>
        c < next_addr r \<and> sub_ok s \<and> (\<exists>e. entries r (sub_entry s) = Some e)) \<and>
     distinct (map fst (streams r)) \<and>
     (\<forall>(k, a) \<in> set (streams r). \<exists>e. entries r a = Some e \<and> e_key e = k \<and> \<not> e_closed e)"

lemma registry_inv_entry:
  "registry_inv r \<Longrightarrow> entries r a = Some e \<Longrightarrow> a < next_addr r \<and> entry_inv r a e"
  by (simp add: registry_inv_def)

lemma registry_inv_sub:
  "registry_inv r \<Longrightarrow> subs r c = Some s \<Longrightarrow>
   c < next_addr r \<and> sub_ok s \<and> (\<exists>e. entries r (sub_entry s) = Some e)"
  by (simp add: registry_inv_def)

lemma registry_inv_stream:
  "registry_inv r \<Longrightarrow> map_of (streams r) k = Some a \<Longrightarrow>
   \<exists>e. entries r a = Some e \<and> e_key e = k \<and> \<not> e_closed e"
  unfolding registry_inv_def by (auto dest: map_of_SomeD)

lemma registry_inv_new: "registry_inv NewRegistry"
  by (simp add: registry_inv_def NewRegistry_def)

lemma entry_invD:
  "entry_inv r a e \<Longrightarrow> (i, c) \<in> set (subscribers e) \<Longrightarrow>
   \<exists>s. subs r c = Some s \<and> sub_open s \<and> sub_entry s = a \<and> sub_id s = i"
  by (auto simp: entry_inv_def)

lemma entry_invI:
  assumes "distinct (map fst (subscribers e))" "e_closed e \<Longrightarrow> subscribers e = []"
    and "\<And>i c. (i, c) \<in> set (subscribers e) \<Longrightarrow>
      \<exists>s. subs r c = Some s \<and> sub_open s \<and> sub_entry s = a \<and> sub_id s = i"
  shows "entry_inv r a e"
  using assms by (auto simp: entry_inv_def)

lemma entry_inv_transfer:
  "entry_inv r a e \<Longrightarrow>
   (\<And>i c. (i, c) \<in> set (subscribers e) \<Longrightarrow>
      \<exists>s. subs r' c = Some s \<and> sub_open s \<and> sub_entry s = a \<and> sub_id s = i) \<Longrightarrow>
   entry_inv r' a e"
  by (rule entry_invI) (auto simp: entry_inv_def)

text \<open>Two subscribers of one entry never share a subscription.\<close>

lemma entry_inv_distinct:
  assumes "entry_inv r a e" shows "distinct (map snd (subscribers e))"
proof -
  have "inj_on snd (set (subscribers e))"
  proof (rule inj_onI)
    fix x y assume xy: "x \<in> set (subscribers e)" "y \<in> set (subscribers e)" "snd x = snd y"
    from xy(1) entry_invD [OF assms, of "fst x" "snd x"]
    obtain s where "subs r (snd x) = Some s" "sub_id s = fst x" by auto
    moreover from xy(2) entry_invD [OF assms, of "fst y" "snd y"]
    obtain t where "subs r (snd y) = Some t" "sub_id t = fst y" by auto
    ultimately show "x = y" using xy(3) by (simp add: prod_eq_iff)
  qed
  moreover have "distinct (subscribers e)"
    using assms by (auto simp: entry_inv_def distinct_map)
  ultimately show ?thesis by (simp add: distinct_map)
qed

lemma entry_inv_sub:
  assumes "entry_inv r a e" "c \<in> snd ` set (subscribers e)"
  shows "\<exists>s. subs r c = Some s \<and> sub_open s \<and> sub_entry s = a"
proof -
  from assms(2) obtain i where "(i, c) \<in> set (subscribers e)" by auto
  with entry_invD [OF assms(1)] show ?thesis by blast
qed

text \<open>The state after a loop over the subscribers of an entry.\<close>

definition fed :: "(subscription \<Rightarrow> subscription option) \<Rightarrow> entry \<Rightarrow> registry \<Rightarrow> registry" where
  "fed f e r = r\<lparr>subs := \<lambda>c.
     if c \<in> snd ` set (subscribers e) then Option.bind (subs r c) f else subs r c\<rparr>"

lemma fed_simps [simp]:
  "entries (fed f e r) = entries r" "streams (fed f e r) = streams r"
  "next_addr (fed f e r) = next_addr r"
  by (simp_all add: fed_def)

lemma each_subscriber_fed:
  assumes "entry_inv r a e"
    and "\<And>s. sub_open s \<Longrightarrow> \<exists>s'. f s = Some s'"
  shows "each_subscriber f e r = Some (fed f e r)"
proof -
  have "\<exists>s s'. subs r c = Some s \<and> f s = Some s'" if "c \<in> set (map snd (subscribers e))" for c
    using entry_inv_sub [OF assms(1), of c] assms(2) that by auto
  then show ?thesis
    unfolding each_subscriber_def fed_def
    by (subst for_each_cells) (simp_all add: entry_inv_distinct [OF assms(1)])
qed

section \<open>The interface between an entry and the three kinds of channel\<close>

text \<open>
  What \<open>publish\<close>, \<open>publishAudio\<close> and \<open>publishOpus\<close> rely on: sending to a subscriber offers
  the value to one of its channels and touches nothing else.
\<close>

locale subscriber_feed =
  fixes send :: "'x \<Rightarrow> subscription \<Rightarrow> subscription option"
    and ch :: "subscription \<Rightarrow> 'x chan"
    and cap :: nat
  assumes send_offer: "send x s = Some s' \<Longrightarrow> offer x (ch s) = Some (ch s')"
    and send_open: "sub_open s \<Longrightarrow> \<exists>s'. send x s = Some s'"
    and send_ok: "send x s = Some s' \<Longrightarrow> sub_ok s \<Longrightarrow> sub_ok s'"
    and send_frame: "send x s = Some s' \<Longrightarrow>
      sub_open s' = sub_open s \<and> sub_entry s' = sub_entry s \<and> sub_id s' = sub_id s"
    and ch_cap: "sub_ok s \<Longrightarrow> chan_ok cap (ch s)"
begin

lemma send_buf:
  "send x s = Some s' \<Longrightarrow> sub_ok s \<Longrightarrow> ch_buf (ch s') = take cap (ch_buf (ch s) @ [x])"
  using offer_buf [OF send_offer ch_cap] by blast

lemma fan_out: "entry_inv r a e \<Longrightarrow> each_subscriber (send x) e r = Some (fed (send x) e r)"
  by (rule each_subscriber_fed) (auto intro: send_open)

lemma fed_sub:
  assumes ei: "entry_inv r a e" and s: "subs r c = Some s" "sub_ok s"
  shows "\<exists>s'. subs (fed (send x) e r) c = Some s' \<and> sub_ok s' \<and> sub_open s' = sub_open s
           \<and> sub_entry s' = sub_entry s \<and> sub_id s' = sub_id s
           \<and> ch_buf (ch s') = (if c \<in> snd ` set (subscribers e)
                               then take cap (ch_buf (ch s) @ [x]) else ch_buf (ch s))"
proof (cases "c \<in> snd ` set (subscribers e)")
  case True
  with entry_inv_sub [OF ei True] s obtain s' where s': "send x s = Some s'"
    using send_open by auto
  then have "subs (fed (send x) e r) c = Some s'"
    using True s by (simp add: fed_def)
  with True s s' show ?thesis
    using send_ok [OF s' s(2)] send_frame [OF s'] send_buf [OF s' s(2)] by simp
next
  case False
  with s show ?thesis by (simp add: fed_def)
qed

lemma fed_back:
  assumes "subs (fed (send x) e r) c = Some s'"
  shows "\<exists>s. subs r c = Some s"
  using assms by (cases "subs r c") (simp_all add: fed_def split: if_splits)

lemma fed_inv:
  assumes inv: "registry_inv r" and e: "entries r a = Some e"
  shows "registry_inv (fed (send x) e r)"
proof -
  let ?r = "fed (send x) e r"
  have ei: "entry_inv r a e" using inv e by (simp add: registry_inv_def)
  have sub: "\<exists>s'. subs ?r c = Some s' \<and> sub_ok s' \<and> sub_open s' = sub_open s
           \<and> sub_entry s' = sub_entry s \<and> sub_id s' = sub_id s" if "subs r c = Some s" for c s
    using fed_sub [OF ei that] registry_inv_sub [OF inv that] by blast
  have "entry_inv ?r b f" if f: "entries r b = Some f" for b f
  proof (rule entry_invI)
    from registry_inv_entry [OF inv f] have fi: "entry_inv r b f" by simp
    then show "distinct (map fst (subscribers f))" "e_closed f \<Longrightarrow> subscribers f = []"
      by (simp_all add: entry_inv_def)
    show "\<exists>s. subs ?r c = Some s \<and> sub_open s \<and> sub_entry s = b \<and> sub_id s = i"
      if "(i, c) \<in> set (subscribers f)" for i c
      using entry_invD [OF fi that] sub by metis
  qed
  moreover have "c < next_addr r \<and> sub_ok s' \<and> (\<exists>e. entries r (sub_entry s') = Some e)"
    if s': "subs ?r c = Some s'" for c s'
  proof -
    from fed_back [OF s'] obtain s where s: "subs r c = Some s" by blast
    with s' sub [OF s] registry_inv_sub [OF inv s] show ?thesis by auto
  qed
  ultimately show ?thesis
    using inv unfolding registry_inv_def by simp
qed

end

lemmas send_defs = send_video_def send_audio_def send_opus_def sub_ok_def sub_open_def

interpretation video: subscriber_feed send_video Frames 256
  by unfold_locales (auto simp: send_defs offer_closed intro: offer_ok dest: offer_open)

interpretation audio: subscriber_feed send_audio Audio 512
  by unfold_locales (auto simp: send_defs offer_closed intro: offer_ok dest: offer_open)

interpretation opus: subscriber_feed send_opus Opus 256
  by unfold_locales (auto simp: send_defs offer_closed intro: offer_ok dest: offer_open)

section \<open>Every critical section keeps the invariant and does not panic\<close>

lemma cloneFrame_id [simp]: "cloneFrame fr = fr"
  by (simp add: cloneFrame_def)

lemma set_entry_simps [simp]:
  "entries (set_entry a e r) = (entries r)(a \<mapsto> e)" "subs (set_entry a e r) = subs r"
  "streams (set_entry a e r) = streams r" "next_addr (set_entry a e r) = next_addr r"
  by (simp_all add: set_entry_def)

lemma entry_inv_cong:
  "subs r' = subs r \<Longrightarrow> subscribers e' = subscribers e \<Longrightarrow> e_closed e' = e_closed e \<Longrightarrow>
   entry_inv r' a e' = entry_inv r a e"
  by (simp add: entry_inv_def)

lemma registry_invI:
  assumes "\<And>a e. entries r a = Some e \<Longrightarrow> a < next_addr r \<and> entry_inv r a e"
    and "\<And>c s. subs r c = Some s \<Longrightarrow>
      c < next_addr r \<and> sub_ok s \<and> (\<exists>e. entries r (sub_entry s) = Some e)"
    and "distinct (map fst (streams r))"
    and "\<And>k a. (k, a) \<in> set (streams r) \<Longrightarrow>
      \<exists>e. entries r a = Some e \<and> e_key e = k \<and> \<not> e_closed e"
  shows "registry_inv r"
  using assms by (auto simp: registry_inv_def)

lemma registry_inv_streams:
  "registry_inv r \<Longrightarrow> distinct (map fst (streams r))"
  "registry_inv r \<Longrightarrow> (k, a) \<in> set (streams r) \<Longrightarrow>
     \<exists>e. entries r a = Some e \<and> e_key e = k \<and> \<not> e_closed e"
  by (auto simp: registry_inv_def)

text \<open>Fields that the invariant does not mention may change.\<close>

lemma registry_inv_set_entry:
  assumes inv: "registry_inv r" and e: "entries r a = Some e"
    and same: "subscribers e' = subscribers e" "e_closed e' = e_closed e" "e_key e' = e_key e"
  shows "registry_inv (set_entry a e' r)"
proof (rule registry_invI)
  fix b f assume f: "entries (set_entry a e' r) b = Some f"
  have "entry_inv (set_entry a e' r) a e' = entry_inv r a e"
    using same by (intro entry_inv_cong) simp_all
  moreover have "entry_inv (set_entry a e' r) b f = entry_inv r b f"
    by (intro entry_inv_cong) simp_all
  ultimately show "b < next_addr (set_entry a e' r) \<and> entry_inv (set_entry a e' r) b f"
    using f registry_inv_entry [OF inv e] registry_inv_entry [OF inv, of b f]
    by (auto split: if_splits)
next
  fix c s assume "subs (set_entry a e' r) c = Some s"
  then show "c < next_addr (set_entry a e' r) \<and> sub_ok s \<and>
      (\<exists>e. entries (set_entry a e' r) (sub_entry s) = Some e)"
    using registry_inv_sub [OF inv] by auto
next
  show "distinct (map fst (streams (set_entry a e' r)))"
    using registry_inv_streams [OF inv] by simp
next
  fix k b assume "(k, b) \<in> set (streams (set_entry a e' r))"
  then show "\<exists>e. entries (set_entry a e' r) b = Some e \<and> e_key e = k \<and> \<not> e_closed e"
    using registry_inv_streams [OF inv] e same by fastforce
qed

text \<open>The three publications: what they return on an open entry.\<close>

definition counted :: "nat \<Rightarrow> entry \<Rightarrow> entry" where
  "counted n e = e\<lparr>totalBytes := totalBytes e + of_nat n\<rparr>"

lemma counted_simps [simp]:
  "subscribers (counted n e) = subscribers e" "e_closed (counted n e) = e_closed e"
  "e_key (counted n e) = e_key e" "hasOpus (counted n e) = hasOpus e" "e_aac (counted n e) = e_aac e"
  by (simp_all add: counted_def)

lemma total_nalus:
  "fold (\<lambda>nalu t. t + of_nat (length nalu)) ns (t :: 64 word) = t + of_nat (sum_list (map length ns))"
  by (induction ns arbitrary: t) (simp_all add: algebra_simps)

lemma publish_open:
  assumes inv: "registry_inv r" and e: "entries r a = Some e" and op: "\<not> e_closed e"
  shows "entry_publish a fr r = Some (Inr (), fed (send_video fr) e
           (set_entry a (counted (sum_list (map length (NALUs fr))) e) r))"
proof -
  let ?e = "counted (sum_list (map length (NALUs fr))) e"
  have "entry_inv (set_entry a ?e r) a ?e"
    using registry_inv_entry [OF inv e] by (simp add: entry_inv_cong [of "set_entry a ?e r" r])
  from video.fan_out [OF this] show ?thesis
    using e op by (simp add: entry_publish_def total_nalus counted_def fed_def Let_def)
qed

lemma publishAudio_open:
  assumes inv: "registry_inv r" and e: "entries r a = Some e" and op: "\<not> e_closed e"
  shows "entry_publishAudio a fr r = Some (Inr (), fed (send_audio fr) e
           (set_entry a (counted (length (a_Data fr)) e) r))"
proof -
  let ?e = "counted (length (a_Data fr)) e"
  have "entry_inv (set_entry a ?e r) a ?e"
    using registry_inv_entry [OF inv e] by (simp add: entry_inv_cong [of "set_entry a ?e r" r])
  from audio.fan_out [OF this] show ?thesis
    using e op by (simp add: entry_publishAudio_def counted_def fed_def Let_def)
qed

lemma publishOpus_open:
  assumes inv: "registry_inv r" and e: "entries r a = Some e" and op: "\<not> e_closed e"
  shows "entry_publishOpus a fr r = Some (Inr (), fed (send_opus fr) e r)"
  using registry_inv_entry [OF inv e] opus.fan_out [of r a e] e op
  by (simp add: entry_publishOpus_def)

lemma publish_closed:
  "entries r a = Some e \<Longrightarrow> e_closed e \<Longrightarrow> entry_publish a fr r = Some (Inl ErrNotFound, r)"
  "entries r a = Some e \<Longrightarrow> e_closed e \<Longrightarrow> entry_publishAudio a au r = Some (Inl ErrNotFound, r)"
  "entries r a = Some e \<Longrightarrow> e_closed e \<Longrightarrow> entry_publishOpus a op r = Some (Inl ErrNotFound, r)"
  "entries r a = Some e \<Longrightarrow> e_closed e \<Longrightarrow> entry_subscribe a r = Some (Inl ErrNotFound, r)"
  by (simp_all add: entry_publish_def entry_publishAudio_def entry_publishOpus_def
        entry_subscribe_def)

lemma fed_counted [simp]: "fed f (counted n e) r = fed f e r"
  by (simp add: fed_def)

lemma publish_inv [inv_intros]:
  assumes inv: "registry_inv r" and e: "entries r a = Some e"
  shows "\<exists>res r'. entry_publish a fr r = Some (res, r') \<and> registry_inv r'"
proof (cases "e_closed e")
  case False
  let ?e = "counted (sum_list (map length (NALUs fr))) e"
  have "registry_inv (set_entry a ?e r)" by (rule registry_inv_set_entry [OF inv e]) simp_all
  from video.fed_inv [OF this, of a ?e fr] show ?thesis
    using publish_open [OF inv e False] by simp
qed (use publish_closed e inv in simp)

lemma publishAudio_inv [inv_intros]:
  assumes inv: "registry_inv r" and e: "entries r a = Some e"
  shows "\<exists>res r'. entry_publishAudio a fr r = Some (res, r') \<and> registry_inv r'"
proof (cases "e_closed e")
  case False
  let ?e = "counted (length (a_Data fr)) e"
  have "registry_inv (set_entry a ?e r)" by (rule registry_inv_set_entry [OF inv e]) simp_all
  from audio.fed_inv [OF this, of a ?e fr] show ?thesis
    using publishAudio_open [OF inv e False] by simp
qed (use publish_closed e inv in simp)

lemma publishOpus_inv [inv_intros]:
  assumes inv: "registry_inv r" and e: "entries r a = Some e"
  shows "\<exists>res r'. entry_publishOpus a fr r = Some (res, r') \<and> registry_inv r'"
proof (cases "e_closed e")
  case False
  from opus.fed_inv [OF inv e, of fr] show ?thesis
    using publishOpus_open [OF inv e False] by simp
qed (use publish_closed e inv in simp)

lemma setOpus_inv [inv_intros]:
  assumes inv: "registry_inv r" and e: "entries r a = Some e"
  shows "\<exists>r'. entry_setOpus a b r = Some r' \<and> registry_inv r'"
  using registry_inv_set_entry [OF inv e, of "e\<lparr>hasOpus := b\<rparr>"] e by (simp add: entry_setOpus_def)

text \<open>Closing: only open subscriptions are in the map of an entry, so \<open>close\<close> cannot panic.\<close>

definition closed_sub :: "subscription \<Rightarrow> subscription" where
  "closed_sub s = s\<lparr>Frames := Frames s\<lparr>ch_closed := True\<rparr>, Audio := Audio s\<lparr>ch_closed := True\<rparr>,
                    Opus := Opus s\<lparr>ch_closed := True\<rparr>\<rparr>"

lemma close_channels_open: "sub_open s \<Longrightarrow> close_channels s = Some (closed_sub s)"
  by (simp add: close_channels_def close_chan_open sub_open_def closed_sub_def)

lemma closed_sub_simps [simp]:
  "sub_entry (closed_sub s) = sub_entry s" "sub_id (closed_sub s) = sub_id s"
  "sub_ok (closed_sub s) = sub_ok s" "\<not> sub_open (closed_sub s)"
  "ch_buf (Frames (closed_sub s)) = ch_buf (Frames s)"
  "ch_buf (Audio (closed_sub s)) = ch_buf (Audio s)"
  "ch_buf (Opus (closed_sub s)) = ch_buf (Opus s)"
  by (simp_all add: closed_sub_def sub_ok_def sub_open_def chan_ok_def)

lemma fed_close_sub:
  assumes "entry_inv r a e" "subs r c = Some s"
  shows "subs (fed close_channels e r) c =
           Some (if c \<in> snd ` set (subscribers e) then closed_sub s else s)"
proof (cases "c \<in> snd ` set (subscribers e)")
  case True
  from entry_inv_sub [OF assms(1) True] assms(2) have "sub_open s" by auto
  with True assms(2) show ?thesis by (simp add: fed_def close_channels_open)
qed (use assms(2) in \<open>simp add: fed_def\<close>)

lemma fed_close_back:
  "subs (fed f e r) c = Some s' \<Longrightarrow> \<exists>s. subs r c = Some s"
  by (cases "subs r c") (simp_all add: fed_def split: if_splits)

lemma entry_inv_disjoint:
  assumes "entry_inv r a e" "entry_inv r b f" "a \<noteq> b" "c \<in> snd ` set (subscribers e)"
  shows "c \<notin> snd ` set (subscribers f)"
proof
  assume "c \<in> snd ` set (subscribers f)"
  from entry_inv_sub [OF assms(2) this] entry_inv_sub [OF assms(1,4)] assms(3) show False by auto
qed

lemma shutdown_open:
  assumes inv: "registry_inv r" and e: "entries r a = Some e" and op: "\<not> e_closed e"
  shows "entry_shutdown a r = Some (set_entry a (e\<lparr>e_closed := True, subscribers := []\<rparr>)
           (fed close_channels e r))"
proof -
  from registry_inv_entry [OF inv e] have "entry_inv r a e" by simp
  then have "each_subscriber close_channels e r = Some (fed close_channels e r)"
    by (rule each_subscriber_fed) (auto intro: close_channels_open)
  with e op show ?thesis by (simp add: entry_shutdown_def)
qed

lemma shutdown_inv [inv_intros]:
  assumes inv: "registry_inv r" and e: "entries r a = Some e" and un: "a \<notin> snd ` set (streams r)"
  shows "\<exists>r'. entry_shutdown a r = Some r' \<and> registry_inv r'"
proof (cases "e_closed e")
  case True
  with e inv show ?thesis by (simp add: entry_shutdown_def)
next
  case False
  let ?e = "e\<lparr>e_closed := True, subscribers := []\<rparr>"
  let ?f = "fed close_channels e r"
  let ?r = "set_entry a ?e ?f"
  from registry_inv_entry [OF inv e] have ei: "entry_inv r a e" by simp
  have "registry_inv ?r"
  proof (rule registry_invI)
    fix b f assume f: "entries ?r b = Some f"
    have "entry_inv ?r b f" if "b \<noteq> a"
    proof (rule entry_invI)
      from f that have f': "entries r b = Some f" by simp
      from registry_inv_entry [OF inv f'] have fi: "entry_inv r b f" by simp
      then show "distinct (map fst (subscribers f))" "e_closed f \<Longrightarrow> subscribers f = []"
        by (simp_all add: entry_inv_def)
      fix i c assume ic: "(i, c) \<in> set (subscribers f)"
      then have "c \<in> snd ` set (subscribers f)" by force
      then have "c \<notin> snd ` set (subscribers e)"
        using entry_inv_disjoint [OF fi ei that] by simp
      with entry_invD [OF fi ic] fed_close_sub [OF ei]
      show "\<exists>s. subs ?r c = Some s \<and> sub_open s \<and> sub_entry s = b \<and> sub_id s = i"
        by auto
    qed
    moreover have "entry_inv ?r a ?e" by (simp add: entry_inv_def)
    ultimately show "b < next_addr ?r \<and> entry_inv ?r b f"
      using f registry_inv_entry [OF inv, of b] registry_inv_entry [OF inv e]
      by (cases "b = a") auto
  next
    fix c s' assume s': "subs ?r c = Some s'"
    then obtain s where s: "subs r c = Some s" using fed_close_back by fastforce
    with s' fed_close_sub [OF ei s] registry_inv_sub [OF inv s]
    show "c < next_addr ?r \<and> sub_ok s' \<and> (\<exists>e. entries ?r (sub_entry s') = Some e)"
      by (auto split: if_splits)
  next
    show "distinct (map fst (streams ?r))" using registry_inv_streams [OF inv] by simp
  next
    fix k b assume kb: "(k, b) \<in> set (streams ?r)"
    with un have "b \<noteq> a" by force
    with kb registry_inv_streams(2) [OF inv, of k b]
    show "\<exists>e. entries ?r b = Some e \<and> e_key e = k \<and> \<not> e_closed e" by simp
  qed
  with shutdown_open [OF inv e False] show ?thesis by simp
qed

lemma subscribe_open:
  assumes "entries r a = Some e" "\<not> e_closed e"
  shows "entry_subscribe a r = Some (Inr (next_addr r),
     set_entry a (e\<lparr>nextID := nextID e + 1,
                   subscribers := AList.update (nextID e) (next_addr r) (subscribers e)\<rparr>)
       (r\<lparr>subs := (subs r)(next_addr r \<mapsto>
           \<lparr>Frames = make_chan 256, Audio = make_chan 512, Opus = make_chan 256,
            SPS = e_sps e, PPS = e_pps e, AAC = e_aac e, HasOpus = hasOpus e,
            close_set = True, once_done = False, sub_entry = a, sub_id = nextID e\<rparr>),
          next_addr := Suc (next_addr r)\<rparr>))"
  using assms by (simp add: entry_subscribe_def Let_def)

lemma subscribe_inv [inv_intros]:
  assumes inv: "registry_inv r" and e: "entries r a = Some e"
  shows "\<exists>res r'. entry_subscribe a r = Some (res, r') \<and> registry_inv r'"
proof (cases "e_closed e")
  case True
  with publish_closed(4) [OF e] inv show ?thesis by simp
next
  case False
  let ?c = "next_addr r"
  define s0 where "s0 = \<lparr>Frames = make_chan 256, Audio = make_chan 512, Opus = make_chan 256,
    SPS = e_sps e, PPS = e_pps e, AAC = e_aac e, HasOpus = hasOpus e,
    close_set = True, once_done = False, sub_entry = a, sub_id = nextID e\<rparr>"
  define e' where "e' = e\<lparr>nextID := nextID e + 1,
    subscribers := AList.update (nextID e) ?c (subscribers e)\<rparr>"
  define r' where "r' = set_entry a e' (r\<lparr>subs := (subs r)(?c \<mapsto> s0), next_addr := Suc ?c\<rparr>)"
  have res: "entry_subscribe a r = Some (Inr ?c, r')"
    unfolding r'_def e'_def s0_def by (rule subscribe_open [OF e False])
  have r': "entries r' = (entries r)(a \<mapsto> e')" "subs r' = (subs r)(?c \<mapsto> s0)"
    "streams r' = streams r" "next_addr r' = Suc ?c"
    by (simp_all add: r'_def)
  have s0: "sub_open s0" "sub_ok s0" "sub_entry s0 = a" "sub_id s0 = nextID e"
    by (simp_all add: s0_def sub_open_def sub_ok_def)
  from registry_inv_entry [OF inv e] have ei: "entry_inv r a e" and a: "a < ?c" by simp_all
  have e': "set (subscribers e') = insert (nextID e, ?c) {p \<in> set (subscribers e). fst p \<noteq> nextID e}"
    "distinct (map fst (subscribers e'))" "e_closed e' = e_closed e" "e_key e' = e_key e"
    using ei by (simp_all add: e'_def entry_inv_def set_alist_update distinct_update)
  have keep: "\<exists>s. subs r' c = Some s \<and> sub_open s \<and> sub_entry s = b \<and> sub_id s = i"
    if f: "entries r b = Some f" and ic: "(i, c) \<in> set (subscribers f)" for b f i c
  proof -
    from registry_inv_entry [OF inv f] have "entry_inv r b f" by simp
    from entry_invD [OF this ic] obtain s where
      s: "subs r c = Some s" "sub_open s" "sub_entry s = b" "sub_id s = i" by blast
    with registry_inv_sub [OF inv s(1)] show ?thesis by (simp add: r')
  qed
  have "registry_inv r'"
  proof (rule registry_invI)
    fix b f assume f: "entries r' b = Some f"
    show "b < next_addr r' \<and> entry_inv r' b f"
    proof (cases "b = a")
      case True
      have "entry_inv r' a e'"
      proof (rule entry_invI)
        fix i c assume "(i, c) \<in> set (subscribers e')"
        with keep [OF e, of i c] show
          "\<exists>s. subs r' c = Some s \<and> sub_open s \<and> sub_entry s = a \<and> sub_id s = i"
          using s0 by (auto simp: e' r')
      qed (use e' False in simp_all)
      with True f a show ?thesis by (simp add: r')
    next
      case False
      with f have f': "entries r b = Some f" by (simp add: r')
      from registry_inv_entry [OF inv f'] have "b < ?c" "entry_inv r b f" by simp_all
      from this(2) have "entry_inv r' b f" by (rule entry_inv_transfer) (rule keep [OF f'])
      with \<open>b < ?c\<close> show ?thesis by (simp add: r')
    qed
  next
    fix c s assume "subs r' c = Some s"
    with registry_inv_sub [OF inv, of c] s0 a
    show "c < next_addr r' \<and> sub_ok s \<and> (\<exists>e. entries r' (sub_entry s) = Some e)"
      by (auto simp: r' split: if_splits)
  next
    show "distinct (map fst (streams r'))" using registry_inv_streams [OF inv] by (simp add: r')
  next
    fix k b assume "(k, b) \<in> set (streams r')"
    with registry_inv_streams(2) [OF inv, of k b] e e'
    show "\<exists>e. entries r' b = Some e \<and> e_key e = k \<and> \<not> e_closed e"
      by (auto simp: r')
  qed
  with res show ?thesis by simp
qed

lemma registry_inv_set_sub:
  assumes inv: "registry_inv r" and s: "subs r c = Some s"
    and same: "sub_open s' = sub_open s" "sub_ok s' = sub_ok s" "sub_entry s' = sub_entry s"
      "sub_id s' = sub_id s"
  shows "registry_inv (r\<lparr>subs := (subs r)(c \<mapsto> s')\<rparr>)"
proof (rule registry_invI)
  let ?r = "r\<lparr>subs := (subs r)(c \<mapsto> s')\<rparr>"
  fix b f assume "entries ?r b = Some f"
  with registry_inv_entry [OF inv, of b f] have b: "b < next_addr ?r" "entry_inv r b f" by simp_all
  from b(2) have "entry_inv ?r b f"
    by (rule entry_inv_transfer) (use entry_invD [OF b(2)] s same in fastforce)
  with b show "b < next_addr ?r \<and> entry_inv ?r b f" by simp
next
  fix d t assume "subs (r\<lparr>subs := (subs r)(c \<mapsto> s')\<rparr>) d = Some t"
  with registry_inv_sub [OF inv] s same
  show "d < next_addr (r\<lparr>subs := (subs r)(c \<mapsto> s')\<rparr>) \<and> sub_ok t \<and>
    (\<exists>e. entries (r\<lparr>subs := (subs r)(c \<mapsto> s')\<rparr>) (sub_entry t) = Some e)"
    by (auto split: if_splits)
qed (use registry_inv_streams [OF inv] in simp_all)

lemma close_current_inv:
  assumes inv: "registry_inv r" and e: "entries r a = Some e"
    and cur: "map_of (subscribers e) i = Some c"
  shows "\<exists>h. update_cell close_channels c (subs r) = Some h \<and>
           (\<forall>d s. subs r d = Some s \<longrightarrow> h d = Some (if d = c then closed_sub s else s)) \<and>
           registry_inv (set_entry a (e\<lparr>subscribers := AList.delete i (subscribers e)\<rparr>)
             (r\<lparr>subs := h\<rparr>))"
proof -
  let ?e = "e\<lparr>subscribers := AList.delete i (subscribers e)\<rparr>"
  from registry_inv_entry [OF inv e] have ei: "entry_inv r a e" by simp
  from cur have "(i, c) \<in> set (subscribers e)" by (rule map_of_SomeD)
  from entry_invD [OF ei this] obtain s where
    s: "subs r c = Some s" "sub_open s" "sub_entry s = a" "sub_id s = i" by blast
  define h where "h = (subs r)(c \<mapsto> closed_sub s)"
  have h: "update_cell close_channels c (subs r) = Some h"
    using s by (simp add: h_def update_cell_def close_channels_open)
  let ?r = "set_entry a ?e (r\<lparr>subs := h\<rparr>)"
  have keep: "\<exists>s. subs ?r d = Some s \<and> sub_open s \<and> sub_entry s = b \<and> sub_id s = j"
    if fi: "entry_inv r b f" and jd: "(j, d) \<in> set (subscribers f)" and ne: "(b, j) \<noteq> (a, i)"
    for b f j d
    using entry_invD [OF fi jd] s ne by (auto simp: h_def)
  have "registry_inv ?r"
  proof (rule registry_invI)
    fix b f assume f: "entries ?r b = Some f"
    show "b < next_addr ?r \<and> entry_inv ?r b f"
    proof (cases "b = a")
      case True
      have "entry_inv ?r a ?e"
      proof (rule entry_invI)
        fix j d assume "(j, d) \<in> set (subscribers ?e)"
        then have "(j, d) \<in> set (subscribers e)" "j \<noteq> i" by (auto simp: set_alist_delete)
        with keep [OF ei] show
          "\<exists>s. subs ?r d = Some s \<and> sub_open s \<and> sub_entry s = a \<and> sub_id s = j" by simp
      qed (use ei in \<open>auto simp: entry_inv_def distinct_delete\<close>)
      with True f registry_inv_entry [OF inv e] show ?thesis by simp
    next
      case False
      with f have f': "entries r b = Some f" by simp
      from registry_inv_entry [OF inv f'] have b: "b < next_addr r" "entry_inv r b f" by simp_all
      from b(2) have "entry_inv ?r b f"
        by (rule entry_inv_transfer) (rule keep [OF b(2)], use False in auto)
      with b(1) show ?thesis by simp
    qed
  next
    fix d t assume "subs ?r d = Some t"
    with registry_inv_sub [OF inv] s
    show "d < next_addr ?r \<and> sub_ok t \<and> (\<exists>e. entries ?r (sub_entry t) = Some e)"
      by (auto simp: h_def split: if_splits)
  next
    show "distinct (map fst (streams ?r))" using registry_inv_streams [OF inv] by simp
  next
    fix k b assume "(k, b) \<in> set (streams ?r)"
    with registry_inv_streams(2) [OF inv, of k b] e
    show "\<exists>e. entries ?r b = Some e \<and> e_key e = k \<and> \<not> e_closed e" by auto
  qed
  with h s show ?thesis by (auto simp: h_def)
qed

lemma close_closure_inv:
  assumes inv: "registry_inv r" and s: "subs r c = Some s"
  shows "\<exists>r'. close_closure c r = Some r' \<and> registry_inv r' \<and> (\<exists>s'. subs r' c = Some s')"
proof (cases "once_done s")
  case True
  with s inv show ?thesis by (simp add: close_closure_def)
next
  case False
  let ?r1 = "r\<lparr>subs := (subs r)(c \<mapsto> s\<lparr>once_done := True\<rparr>)\<rparr>"
  have inv1: "registry_inv ?r1"
    by (rule registry_inv_set_sub [OF inv s]) (simp_all add: sub_open_def sub_ok_def)
  from registry_inv_sub [OF inv s] obtain e where e: "entries ?r1 (sub_entry s) = Some e" by auto
  show ?thesis
  proof (cases "map_of (subscribers e) (sub_id s)")
    case None
    with s False e inv1 show ?thesis by (simp add: close_closure_def Let_def)
  next
    case (Some d)
    from close_current_inv [OF inv1 e Some] obtain h where
      h: "update_cell close_channels d (subs ?r1) = Some h"
      "\<forall>d' s. subs ?r1 d' = Some s \<longrightarrow> h d' = Some (if d' = d then closed_sub s else s)"
      "registry_inv (set_entry (sub_entry s)
         (e\<lparr>subscribers := AList.delete (sub_id s) (subscribers e)\<rparr>) (?r1\<lparr>subs := h\<rparr>))"
      by blast
    from h(2) have "\<exists>s'. h c = Some s'" by simp
    with h s False e Some show ?thesis by (simp add: close_closure_def Let_def)
  qed
qed

lemma Close_inv [inv_intros]:
  assumes inv: "registry_inv r" and s: "subs r c = Some s"
  shows "\<exists>r'. Subscription_Close c r = Some r' \<and> registry_inv r'"
proof (cases "close_set s")
  case True
  from close_closure_inv [OF inv s] obtain r' s' where
    r': "close_closure c r = Some r'" "registry_inv r'" "subs r' c = Some s'" by blast
  have "registry_inv (r'\<lparr>subs := (subs r')(c \<mapsto> s'\<lparr>close_set := False\<rparr>)\<rparr>)"
    by (rule registry_inv_set_sub [OF r'(2,3)]) (simp_all add: sub_open_def sub_ok_def)
  with True s r' show ?thesis by (simp add: Subscription_Close_def)
qed (use s inv in \<open>simp add: Subscription_Close_def\<close>)

lemma install_inv [inv_intros]:
  assumes inv: "registry_inv r"
  shows "registry_inv (snd (registry_install key sps pps aac now r))"
proof -
  let ?a = "next_addr r"
  obtain e where e: "snd (registry_install key sps pps aac now r)
      = set_entry ?a e (r\<lparr>streams := AList.update key ?a (streams r), next_addr := Suc ?a\<rparr>)"
    and ek: "e_key e = key" "subscribers e = []" "\<not> e_closed e"
    by (simp add: registry_install_def Let_def)
  let ?r = "set_entry ?a e (r\<lparr>streams := AList.update key ?a (streams r), next_addr := Suc ?a\<rparr>)"
  have fresh: "entries r ?a = None"
    using registry_inv_entry [OF inv, of ?a] by (cases "entries r ?a") auto
  have "registry_inv ?r"
  proof (rule registry_invI)
    fix b f assume f: "entries ?r b = Some f"
    show "b < next_addr ?r \<and> entry_inv ?r b f"
    proof (cases "b = ?a")
      case True
      with f ek show ?thesis by (auto simp: entry_inv_def)
    next
      case False
      with f have f': "entries r b = Some f" by simp
      from registry_inv_entry [OF inv f'] have b: "b < next_addr r" "entry_inv r b f" by simp_all
      from b(2) have "entry_inv ?r b f"
        by (rule entry_inv_transfer) (use entry_invD [OF b(2)] in auto)
      with b(1) show ?thesis by simp
    qed
  next
    fix c s assume "subs ?r c = Some s"
    with registry_inv_sub [OF inv, of c s]
    show "c < next_addr ?r \<and> sub_ok s \<and> (\<exists>e. entries ?r (sub_entry s) = Some e)"
      by (auto simp: less_Suc_eq)
  next
    show "distinct (map fst (streams ?r))"
      using registry_inv_streams [OF inv] by (simp add: distinct_update)
  next
    fix k b assume "(k, b) \<in> set (streams ?r)"
    then have "(k, b) = (key, ?a) \<or> (k, b) \<in> set (streams r)"
      using registry_inv_streams(1) [OF inv] by (auto simp: set_alist_update)
    then show "\<exists>e. entries ?r b = Some e \<and> e_key e = k \<and> \<not> e_closed e"
      using registry_inv_streams(2) [OF inv, of k b] ek fresh by fastforce
  qed
  with e show ?thesis by simp
qed

lemma unlink_inv [inv_intros]:
  assumes inv: "registry_inv r"
  shows "registry_inv (snd (registry_unlink key r))"
proof -
  have "registry_inv (r\<lparr>streams := AList.delete key (streams r)\<rparr>)" (is "registry_inv ?r")
  proof (rule registry_invI)
    fix b f assume "entries ?r b = Some f"
    with registry_inv_entry [OF inv] show "b < next_addr ?r \<and> entry_inv ?r b f"
      by (simp add: entry_inv_def)
  next
    fix c s assume "subs ?r c = Some s"
    with registry_inv_sub [OF inv]
    show "c < next_addr ?r \<and> sub_ok s \<and> (\<exists>e. entries ?r (sub_entry s) = Some e)" by simp
  next
    show "distinct (map fst (streams ?r))"
      using registry_inv_streams [OF inv] by (simp add: distinct_delete)
  next
    fix k b assume "(k, b) \<in> set (streams ?r)"
    with registry_inv_streams(2) [OF inv, of k b]
    show "\<exists>e. entries ?r b = Some e \<and> e_key e = k \<and> \<not> e_closed e"
      by (simp add: set_alist_delete)
  qed
  with inv show ?thesis by (simp add: registry_unlink_def Let_def)
qed

section \<open>Interleavings\<close>

text \<open>A reader receives from one of its three channels.\<close>

definition read_frame :: "addr \<Rightarrow> registry \<Rightarrow> (frame received \<times> registry) option" where
  "read_frame c r = do {
     s \<leftarrow> subs r c;
     let (x, ch) = receive (Frames s);
     Some (x, r\<lparr>subs := (subs r)(c \<mapsto> s\<lparr>Frames := ch\<rparr>)\<rparr>)
   }"

definition read_audio :: "addr \<Rightarrow> registry \<Rightarrow> (audio_frame received \<times> registry) option" where
  "read_audio c r = do {
     s \<leftarrow> subs r c;
     let (x, ch) = receive (Audio s);
     Some (x, r\<lparr>subs := (subs r)(c \<mapsto> s\<lparr>Audio := ch\<rparr>)\<rparr>)
   }"

definition read_opus :: "addr \<Rightarrow> registry \<Rightarrow> (opus_frame received \<times> registry) option" where
  "read_opus c r = do {
     s \<leftarrow> subs r c;
     let (x, ch) = receive (Opus s);
     Some (x, r\<lparr>subs := (subs r)(c \<mapsto> s\<lparr>Opus := ch\<rparr>)\<rparr>)
   }"

text \<open>
  Goroutines interleave between critical sections: a publisher may have looked its entry up
  before another goroutine unlinked it. So the step relation acts on entries and
  subscriptions by their address, whether or not the registry still knows them. Only an
  entry that is no longer registered is shut down.
\<close>

inductive registry_step :: "registry \<Rightarrow> registry \<Rightarrow> bool" where
  step_install: "registry_step r (snd (registry_install key sps pps aac now r))"
| step_unlink: "registry_step r (snd (registry_unlink key r))"
| step_shutdown: "a \<notin> snd ` set (streams r) \<Longrightarrow> entry_shutdown a r = Some r' \<Longrightarrow>
    registry_step r r'"
| step_publish: "entry_publish a fr r = Some (res, r') \<Longrightarrow> registry_step r r'"
| step_publishAudio: "entry_publishAudio a au r = Some (res, r') \<Longrightarrow> registry_step r r'"
| step_publishOpus: "entry_publishOpus a op r = Some (res, r') \<Longrightarrow> registry_step r r'"
| step_setOpus: "entry_setOpus a b r = Some r' \<Longrightarrow> registry_step r r'"
| step_subscribe: "entry_subscribe a r = Some (sub, r') \<Longrightarrow> registry_step r r'"
| step_close: "Subscription_Close c r = Some r' \<Longrightarrow> registry_step r r'"
| step_frame: "read_frame c r = Some (v, r') \<Longrightarrow> registry_step r r'"
| step_audio: "read_audio c r = Some (w, r') \<Longrightarrow> registry_step r r'"
| step_opus: "read_opus c r = Some (x, r') \<Longrightarrow> registry_step r r'"

inductive registry_reachable :: "registry \<Rightarrow> bool" where
  reach_new: "registry_reachable NewRegistry"
| reach_step: "registry_reachable r \<Longrightarrow> registry_step r r' \<Longrightarrow> registry_reachable r'"

lemmas entry_op_defs = entry_publish_def entry_publishAudio_def entry_publishOpus_def
  entry_setOpus_def entry_subscribe_def entry_shutdown_def

lemma entry_op_needs_entry:
  "entries r a = None \<Longrightarrow> entry_publish a fr r = None"
  "entries r a = None \<Longrightarrow> entry_publishAudio a au r = None"
  "entries r a = None \<Longrightarrow> entry_publishOpus a op r = None"
  "entries r a = None \<Longrightarrow> entry_setOpus a b r = None"
  "entries r a = None \<Longrightarrow> entry_subscribe a r = None"
  "entries r a = None \<Longrightarrow> entry_shutdown a r = None"
  by (simp_all add: entry_op_defs)

lemma read_inv:
  assumes inv: "registry_inv r" and s: "subs r c = Some s"
  shows "registry_inv (r\<lparr>subs := (subs r)(c \<mapsto> s\<lparr>Frames := snd (receive (Frames s))\<rparr>)\<rparr>)"
    and "registry_inv (r\<lparr>subs := (subs r)(c \<mapsto> s\<lparr>Audio := snd (receive (Audio s))\<rparr>)\<rparr>)"
    and "registry_inv (r\<lparr>subs := (subs r)(c \<mapsto> s\<lparr>Opus := snd (receive (Opus s))\<rparr>)\<rparr>)"
  using registry_inv_sub [OF inv s]
  by (auto intro!: registry_inv_set_sub [OF inv s] simp: sub_open_def sub_ok_def receive_ok)

lemma registry_step_inv:
  assumes "registry_step r r'" and inv: "registry_inv r"
  shows "registry_inv r'"
  using assms(1)
proof cases
  case (step_shutdown a)
  with shutdown_inv [OF inv] entry_op_needs_entry(6) [of r a] show ?thesis
    by (cases "entries r a") fastforce+
next
  case (step_publish a fr res)
  with publish_inv [OF inv, of a _ fr] entry_op_needs_entry(1) [of r a] show ?thesis
    by (cases "entries r a") fastforce+
next
  case (step_publishAudio a au res)
  with publishAudio_inv [OF inv, of a _ au] entry_op_needs_entry(2) [of r a] show ?thesis
    by (cases "entries r a") fastforce+
next
  case (step_publishOpus a op res)
  with publishOpus_inv [OF inv, of a _ op] entry_op_needs_entry(3) [of r a] show ?thesis
    by (cases "entries r a") fastforce+
next
  case (step_setOpus a b)
  with setOpus_inv [OF inv, of a _ b] entry_op_needs_entry(4) [of r a] show ?thesis
    by (cases "entries r a") fastforce+
next
  case (step_subscribe a sub)
  with subscribe_inv [OF inv, of a] entry_op_needs_entry(5) [of r a] show ?thesis
    by (cases "entries r a") fastforce+
next
  case (step_close c)
  with Close_inv [OF inv, of c] show ?thesis
    by (cases "subs r c") (fastforce simp: Subscription_Close_def)+
next
  case (step_frame c v)
  with read_inv [OF inv, of c] show ?thesis
    by (cases "subs r c") (auto simp: read_frame_def Let_def split: prod.splits)
next
  case (step_audio c w)
  with read_inv [OF inv, of c] show ?thesis
    by (cases "subs r c") (auto simp: read_audio_def Let_def split: prod.splits)
next
  case (step_opus c x)
  with read_inv [OF inv, of c] show ?thesis
    by (cases "subs r c") (auto simp: read_opus_def Let_def split: prod.splits)
qed (simp_all add: install_inv [OF inv] unlink_inv [OF inv])

lemma reachable_registry_inv: "registry_reachable r \<Longrightarrow> registry_inv r"
  by (induction rule: registry_reachable.induct) (auto intro: registry_inv_new registry_step_inv)

section \<open>The operations of the registry\<close>

text \<open>An address is registered under one key only, the key of its entry.\<close>

lemma stream_addr_key:
  assumes "registry_inv r" "(k, a) \<in> set (streams r)" "(k', a) \<in> set (streams r)"
  shows "k = k'"
  using registry_inv_streams(2) [OF assms(1,2)] registry_inv_streams(2) [OF assms(1,3)] by auto

lemma install_previous:
  assumes inv: "registry_inv r" and inst: "registry_install key sps pps aac now r = (Some p, r')"
  shows "p \<notin> snd ` set (streams r') \<and> entries r' p = entries r p
       \<and> (\<exists>e. entries r p = Some e \<and> e_key e = key \<and> \<not> e_closed e) \<and> subs r' = subs r"
proof -
  from inst have p: "map_of (streams r) key = Some p"
    and r': "streams r' = AList.update key (next_addr r) (streams r)" "subs r' = subs r"
    by (auto simp: registry_install_def Let_def)
  from p have kp: "(key, p) \<in> set (streams r)" by (rule map_of_SomeD)
  from registry_inv_streams(2) [OF inv kp] obtain e
    where e: "entries r p = Some e" "e_key e = key" "\<not> e_closed e" by blast
  from registry_inv_entry [OF inv e(1)] have "p \<noteq> next_addr r" by simp
  moreover from this inst have "entries r' p = entries r p"
    by (auto simp: registry_install_def Let_def)
  moreover have "p \<notin> snd ` set (streams r')"
    using stream_addr_key [OF inv _ kp] \<open>p \<noteq> next_addr r\<close> registry_inv_streams(1) [OF inv]
    by (auto simp: r' set_alist_update)
  ultimately show ?thesis using e r' by simp
qed

lemma unlink_some:
  assumes inv: "registry_inv r" and ul: "registry_unlink key r = (Some p, r')"
  shows "p \<notin> snd ` set (streams r') \<and> entries r' = entries r \<and> subs r' = subs r
       \<and> (\<exists>e. entries r p = Some e \<and> e_key e = key \<and> \<not> e_closed e)
       \<and> map_of (streams r') key = None"
proof -
  from ul have p: "map_of (streams r) key = Some p"
    and r': "r' = r\<lparr>streams := AList.delete key (streams r)\<rparr>"
    by (auto simp: registry_unlink_def Let_def split: if_splits)
  from p have kp: "(key, p) \<in> set (streams r)" by (rule map_of_SomeD)
  have "p \<notin> snd ` set (streams r')"
    using stream_addr_key [OF inv _ kp] by (auto simp: r' set_alist_delete)
  with registry_inv_streams(2) [OF inv kp] show ?thesis by (simp add: r' AList.delete_conv')
qed

lemma Start_ok [inv_intros]:
  assumes inv: "registry_inv r"
  shows "\<exists>r'. registry_Start key sps pps aac now r = Some r' \<and> registry_inv r'"
proof -
  obtain prev r1 where i: "registry_install key sps pps aac now r = (prev, r1)" by fastforce
  with install_inv [OF inv, of key sps pps aac now] have inv1: "registry_inv r1" by simp
  show ?thesis
  proof (cases prev)
    case None
    with i inv1 show ?thesis by (simp add: registry_Start_def)
  next
    case (Some p)
    from install_previous [OF inv i [unfolded Some]] obtain e where
      "p \<notin> snd ` set (streams r1)" "entries r1 p = Some e" by auto
    from shutdown_inv [OF inv1 this(2,1)] i Some show ?thesis by (simp add: registry_Start_def)
  qed
qed

lemma Stop_ok [inv_intros]:
  assumes inv: "registry_inv r"
  shows "\<exists>r'. registry_Stop key r = Some r' \<and> registry_inv r'"
proof -
  obtain e r1 where u: "registry_unlink key r = (e, r1)" by fastforce
  with unlink_inv [OF inv, of key] have inv1: "registry_inv r1" by simp
  show ?thesis
  proof (cases e)
    case None
    with u inv1 show ?thesis by (simp add: registry_Stop_def)
  next
    case (Some p)
    from unlink_some [OF inv u [unfolded Some]] obtain f where
      "p \<notin> snd ` set (streams r1)" "entries r1 p = Some f" by auto
    from shutdown_inv [OF inv1 this(2,1)] u Some show ?thesis by (simp add: registry_Stop_def)
  qed
qed

lemma registry_lookup_ok [inv_intros]:
  assumes inv: "registry_inv r"
  shows "\<exists>res r'. registry_Publish key fr r = Some (res, r') \<and> registry_inv r'"
    and "\<exists>res r'. registry_PublishAudio key au r = Some (res, r') \<and> registry_inv r'"
    and "\<exists>res r'. registry_PublishOpus key op r = Some (res, r') \<and> registry_inv r'"
    and "\<exists>res r'. registry_SetOpusAvailable key b r = Some (res, r') \<and> registry_inv r'"
    and "\<exists>sub r'. registry_Subscribe key r = Some (sub, r') \<and> registry_inv r'"
  using inv registry_inv_stream [OF inv, of key]
    publish_inv [OF inv] publishAudio_inv [OF inv] publishOpus_inv [OF inv]
    setOpus_inv [OF inv, of _ _ b] subscribe_inv [OF inv]
  by (cases "map_of (streams r) key";
      force simp: registry_Publish_def registry_PublishAudio_def registry_PublishOpus_def
        registry_SetOpusAvailable_def registry_Subscribe_def)+

text \<open>
  A stream named \<open>demo\<close> with one viewer and one frame on its way, for the witnesses.
\<close>

definition demo_frame :: "int \<Rightarrow> frame" where
  "demo_frame t = \<lparr>f_PTS = t, f_DTS = t, NALUs = [[0x65, 1, 2]], KeyFrame = True\<rparr>"

definition demo_registry :: registry where
  "demo_registry =
     snd (the (entry_subscribe 0 (snd (registry_install ''demo'' [1, 2, 3, 4] [5] [] 0 NewRegistry))))"

lemma demo_reachable: "registry_reachable demo_registry"
proof -
  let ?r = "snd (registry_install ''demo'' [1, 2, 3, 4] [5] [] 0 NewRegistry)"
  have "registry_reachable ?r" by (intro reach_step [OF reach_new] step_install)
  moreover have "entry_subscribe 0 ?r = Some (Inr 1, demo_registry)"
    by (simp add: demo_registry_def registry_install_def entry_subscribe_def NewRegistry_def Let_def)
  ultimately show ?thesis by (blast intro: reach_step step_subscribe)
qed

lemmas demo_defs = demo_registry_def registry_install_def entry_subscribe_def NewRegistry_def
  set_entry_def make_chan_def Let_def

lemma demo_simps:
  "streams demo_registry = [(''demo'', 0)]"
  "\<exists>e. entries demo_registry 0 = Some e \<and> subscribers e = [(0, 1)] \<and> nextID e = 1 \<and> \<not> e_closed e"
  "\<exists>s. subs demo_registry 1 = Some s \<and> Frames s = make_chan 256 \<and> sub_open s \<and> close_set s"
  by (simp_all add: demo_defs sub_open_def)

text \<open>Publishing a run of frames under one key.\<close>

definition publish_all :: "string \<Rightarrow> frame list \<Rightarrow> registry \<Rightarrow> registry option" where
  "publish_all key = for_each (\<lambda>fr r. map_option snd (registry_Publish key fr r))"

lemma publish_effect:
  assumes inv: "registry_inv r" and k: "map_of (streams r) key = Some a"
    and e: "entries r a = Some e"
  shows "\<exists>r' e'. registry_Publish key fr r = Some (Inr (), r') \<and> registry_inv r'
    \<and> streams r' = streams r \<and> entries r' a = Some e' \<and> subscribers e' = subscribers e
    \<and> (\<forall>c s. subs r c = Some s \<longrightarrow> (\<exists>s'. subs r' c = Some s' \<and>
        ch_buf (Frames s') = (if c \<in> snd ` set (subscribers e)
                              then take 256 (ch_buf (Frames s) @ [fr]) else ch_buf (Frames s))))"
proof -
  from registry_inv_stream [OF inv k] e have op: "\<not> e_closed e" by simp
  let ?e = "counted (sum_list (map length (NALUs fr))) e"
  let ?r = "set_entry a ?e r"
  have inv': "registry_inv ?r" by (rule registry_inv_set_entry [OF inv e]) simp_all
  have ei: "entry_inv ?r a ?e" using registry_inv_entry [OF inv', of a ?e] by simp
  have "registry_inv (fed (send_video fr) ?e ?r)" by (rule video.fed_inv [OF inv', of a]) simp
  moreover have "registry_Publish key fr r = Some (Inr (), fed (send_video fr) ?e ?r)"
    using publish_open [OF inv e op] k by (simp add: registry_Publish_def)
  moreover have "\<exists>s'. subs (fed (send_video fr) ?e ?r) c = Some s' \<and>
        ch_buf (Frames s') = (if c \<in> snd ` set (subscribers e)
                              then take 256 (ch_buf (Frames s) @ [fr]) else ch_buf (Frames s))"
    if "subs r c = Some s" for c s
    using video.fed_sub [OF ei, of c s fr] that registry_inv_sub [OF inv that]
    by (cases "c \<in> snd ` set (subscribers e)") (simp, metis)+
  ultimately show ?thesis by simp
qed

text \<open>A subscription and its close: what each of them leaves.\<close>

definition fresh_sub :: "addr \<Rightarrow> entry \<Rightarrow> subscription \<Rightarrow> bool" where
  "fresh_sub a e s \<longleftrightarrow> sub_open s \<and> close_set s \<and> \<not> once_done s \<and> sub_entry s = a \<and>
     sub_id s = nextID e \<and> SPS s = e_sps e \<and> PPS s = e_pps e \<and> AAC s = e_aac e \<and> HasOpus s = hasOpus e \<and>
     ch_buf (Frames s) = [] \<and> ch_buf (Audio s) = [] \<and> ch_buf (Opus s) = []"

lemma subscribe_close_round:
  assumes inv: "registry_inv r" and k: "map_of (streams r) key = Some a" and e: "entries r a = Some e"
    and new: "nextID e \<notin> fst ` set (subscribers e)"
  shows "\<exists>r1 r2 s. registry_Subscribe key r = Some (Inr (next_addr r), r1) \<and>
    subs r1 (next_addr r) = Some s \<and> fresh_sub a e s \<and> streams r1 = streams r \<and>
    entries r1 = (entries r)(a \<mapsto> e\<lparr>nextID := nextID e + 1,
                    subscribers := AList.update (nextID e) (next_addr r) (subscribers e)\<rparr>) \<and>
    Subscription_Close (next_addr r) r1 = Some r2 \<and> streams r2 = streams r \<and>
    entries r2 = (entries r)(a \<mapsto> e\<lparr>nextID := nextID e + 1\<rparr>) \<and>
    Subscription_Close (next_addr r) r2 = Some r2"
proof -
  from registry_inv_stream [OF inv k] e have op: "\<not> e_closed e" by simp
  let ?c = "next_addr r"
  define s0 where "s0 = \<lparr>Frames = make_chan 256, Audio = make_chan 512, Opus = make_chan 256,
    SPS = e_sps e, PPS = e_pps e, AAC = e_aac e, HasOpus = hasOpus e,
    close_set = True, once_done = False, sub_entry = a, sub_id = nextID e\<rparr>"
  define e1 where "e1 = e\<lparr>nextID := nextID e + 1,
    subscribers := AList.update (nextID e) ?c (subscribers e)\<rparr>"
  obtain r1 where sub: "registry_Subscribe key r = Some (Inr ?c, r1)"
    and r1: "entries r1 = (entries r)(a \<mapsto> e1)" "subs r1 ?c = Some s0" "streams r1 = streams r"
    using subscribe_open [OF e op] k by (auto simp: registry_Subscribe_def e1_def s0_def set_entry_def)
  define s2 where "s2 = closed_sub (s0\<lparr>once_done := True\<rparr>)\<lparr>close_set := False\<rparr>"
  have cur: "map_of (subscribers e1) (nextID e) = Some ?c"
    by (simp add: e1_def AList.update_conv')
  have del: "e1\<lparr>subscribers := AList.delete (nextID e) (subscribers e1)\<rparr> = e\<lparr>nextID := nextID e + 1\<rparr>"
    using alist_delete_update_fresh [OF new] by (simp add: e1_def)
  have "sub_open s0" by (simp add: s0_def sub_open_def)
  then obtain r2 where r2: "Subscription_Close ?c r1 = Some r2" "streams r2 = streams r1"
    "entries r2 = (entries r)(a \<mapsto> e\<lparr>nextID := nextID e + 1\<rparr>)" "subs r2 ?c = Some s2"
    using r1 cur del
    by (simp add: Subscription_Close_def close_closure_def update_cell_def close_channels_open
        sub_open_def s0_def s2_def Let_def set_entry_def)
  moreover have "Subscription_Close ?c r2 = Some r2"
    using r2 by (simp add: Subscription_Close_def s2_def)
  moreover have "fresh_sub a e s0" by (simp add: fresh_sub_def s0_def sub_open_def)
  ultimately show ?thesis using sub r1 unfolding e1_def
    by (intro exI [of _ r1] exI [of _ r2] exI [of _ s0]) simp
qed

section \<open>Properties\<close>

text \<open>
  C1: no interleaving of publishers, subscribers, readers and closers makes the registry
  send on a closed channel, close a channel twice or follow a nil pointer: in every state
  that any order of critical sections can reach, each operation returns.
\<close>

theorem registry_never_panics:
  assumes "registry_reachable r"
  shows "registry_Start key sps pps aac now r \<noteq> None \<and> registry_Stop key r \<noteq> None
    \<and> registry_Publish key fr r \<noteq> None \<and> registry_PublishAudio key au r \<noteq> None
    \<and> registry_PublishOpus key op r \<noteq> None \<and> registry_SetOpusAvailable key b r \<noteq> None
    \<and> registry_Subscribe key r \<noteq> None
    \<and> (entries r a \<noteq> None \<longrightarrow>
         entry_publish a fr r \<noteq> None \<and> entry_publishAudio a au r \<noteq> None \<and>
         entry_publishOpus a op r \<noteq> None \<and> entry_subscribe a r \<noteq> None \<and>
         (a \<notin> snd ` set (streams r) \<longrightarrow> entry_shutdown a r \<noteq> None))
    \<and> (subs r c \<noteq> None \<longrightarrow> Subscription_Close c r \<noteq> None)"
proof -
  from assms have inv: "registry_inv r" by (rule reachable_registry_inv)
  from registry_lookup_ok [OF inv, of key] Start_ok [OF inv, of key sps pps aac now]
    Stop_ok [OF inv, of key]
  have "registry_Start key sps pps aac now r \<noteq> None" "registry_Stop key r \<noteq> None"
    "registry_Publish key fr r \<noteq> None" "registry_PublishAudio key au r \<noteq> None"
    "registry_PublishOpus key op r \<noteq> None" "registry_SetOpusAvailable key b r \<noteq> None"
    "registry_Subscribe key r \<noteq> None"
    by (metis option.distinct(1))+
  moreover have "entry_publish a fr r \<noteq> None" "entry_publishAudio a au r \<noteq> None"
    "entry_publishOpus a op r \<noteq> None" "entry_subscribe a r \<noteq> None"
    "a \<notin> snd ` set (streams r) \<Longrightarrow> entry_shutdown a r \<noteq> None" if "entries r a = Some e" for e
    using publish_inv [OF inv that, of fr] publishAudio_inv [OF inv that, of au]
      publishOpus_inv [OF inv that, of op] subscribe_inv [OF inv that] shutdown_inv [OF inv that]
    by auto
  moreover have "Subscription_Close c r \<noteq> None" if "subs r c = Some s" for s
    using Close_inv [OF inv that] by auto
  ultimately show ?thesis by (cases "entries r a"; cases "subs r c") simp_all
qed

theorem registry_never_panics_witness:
  "registry_reachable demo_registry \<and> registry_Stop ''demo'' demo_registry \<noteq> None
   \<and> entry_publish 0 (demo_frame 0) demo_registry \<noteq> None \<and> Subscription_Close 1 demo_registry \<noteq> None"
  using registry_never_panics [OF demo_reachable, where key = "''demo''" and a = 0 and c = 1
      and fr = "demo_frame 0"] demo_reachable demo_simps
  by auto

text \<open>
  C24: publishing a run of frames hands every subscriber of that stream the same frames in
  the order of publication, as far as its buffer of 256 has room; what does not fit is
  dropped for that subscriber only. Readers of other streams, and readers whose
  subscription was closed, see nothing. Publishing never waits for a reader.
\<close>

theorem publish_all_fifo:
  assumes "registry_reachable r" "map_of (streams r) key = Some a" "entries r a = Some e"
    and "subs r c = Some s"
  shows "\<exists>r' s'. publish_all key frs r = Some r' \<and> subs r' c = Some s' \<and>
           ch_buf (Frames s') = (if c \<in> snd ` set (subscribers e)
                                 then take 256 (ch_buf (Frames s) @ frs) else ch_buf (Frames s))"
proof -
  have "\<exists>r' s'. publish_all key frs r = Some r' \<and> subs r' c = Some s' \<and>
           ch_buf (Frames s') = (if c \<in> snd ` set (subscribers e)
                                 then take 256 (ch_buf (Frames s) @ frs) else ch_buf (Frames s))"
    if "registry_inv r" using that assms(2-)
  proof (induction frs arbitrary: r e s)
    case Nil
    from registry_inv_sub [OF Nil(1,4)] have "chan_ok 256 (Frames s)" by (simp add: sub_ok_def)
    with Nil show ?case by (simp add: publish_all_def chan_ok_def)
  next
    case (Cons fr frs)
    from publish_effect [OF Cons.prems(1-3), of fr] obtain r1 e1 where
      r1: "registry_Publish key fr r = Some (Inr (), r1)" "registry_inv r1"
        "streams r1 = streams r" "entries r1 a = Some e1" "subscribers e1 = subscribers e"
      and sub: "\<forall>c s. subs r c = Some s \<longrightarrow> (\<exists>s'. subs r1 c = Some s' \<and>
        ch_buf (Frames s') = (if c \<in> snd ` set (subscribers e)
                              then take 256 (ch_buf (Frames s) @ [fr]) else ch_buf (Frames s)))"
      by blast
    from sub Cons.prems(4) obtain s1 where s1: "subs r1 c = Some s1"
        "ch_buf (Frames s1) = (if c \<in> snd ` set (subscribers e)
           then take 256 (ch_buf (Frames s) @ [fr]) else ch_buf (Frames s))" by blast
    have "map_of (streams r1) key = Some a" using r1(3) Cons.prems(2) by simp
    from Cons.IH [OF r1(2) this r1(4) s1(1)] r1 s1 show ?case
      by (cases "c \<in> snd ` set (subscribers e)") (simp_all add: publish_all_def take_overflow del: take_append)
  qed
  with reachable_registry_inv [OF assms(1)] show ?thesis by blast
qed

theorem publish_all_fifo_witness:
  "\<exists>r' s'. publish_all ''demo'' [demo_frame 0, demo_frame 40] demo_registry = Some r' \<and>
     subs r' 1 = Some s' \<and> ch_buf (Frames s') = [demo_frame 0, demo_frame 40]"
proof -
  obtain e s where e: "entries demo_registry 0 = Some e" "subscribers e = [(0, 1)]"
    and s: "subs demo_registry 1 = Some s" "Frames s = make_chan 256"
    using demo_simps by auto
  have "map_of (streams demo_registry) ''demo'' = Some 0" by (simp add: demo_simps)
  from publish_all_fifo [OF demo_reachable this e(1) s(1), of "[demo_frame 0, demo_frame 40]"]
  show ?thesis using e s by simp
qed

text \<open>
  A viewer is counted from \<open>Subscribe\<close> until its first \<open>Close\<close>: the count rises by one
  and returns to exactly what it was, and nothing else the registry reports about the
  stream changes. A second \<open>Close\<close> does nothing.
\<close>

theorem subscribe_then_close:
  assumes "registry_reachable r" "map_of (streams r) key = Some a" "entries r a = Some e"
    and "nextID e \<notin> fst ` set (subscribers e)"
  shows "\<exists>c r1 r2 i. registry_Subscribe key r = Some (Inr c, r1) \<and>
           registry_Get key now r = Some i \<and>
           registry_Get key now r1 = Some (i\<lparr>Viewers := Suc (Viewers i)\<rparr>) \<and>
           Subscription_Close c r1 = Some r2 \<and> registry_Get key now r2 = Some i \<and>
           Subscription_Close c r2 = Some r2"
proof -
  from subscribe_close_round [OF reachable_registry_inv [OF assms(1)] assms(2-4)]
  obtain r1 r2 s where r: "registry_Subscribe key r = Some (Inr (next_addr r), r1)"
    "subs r1 (next_addr r) = Some s" "fresh_sub a e s" "streams r1 = streams r"
    "entries r1 = (entries r)(a \<mapsto> e\<lparr>nextID := nextID e + 1,
                    subscribers := AList.update (nextID e) (next_addr r) (subscribers e)\<rparr>)"
    "Subscription_Close (next_addr r) r1 = Some r2" "streams r2 = streams r"
    "entries r2 = (entries r)(a \<mapsto> e\<lparr>nextID := nextID e + 1\<rparr>)"
    "Subscription_Close (next_addr r) r2 = Some r2" by blast
  with assms(2,3) length_alist_update_fresh [OF assms(4)] show ?thesis
    by (auto simp: registry_Get_def entry_info_def Let_def)
qed

theorem subscribe_then_close_witness:
  "\<exists>c r1 r2. registry_Subscribe ''demo'' demo_registry = Some (Inr c, r1) \<and>
     map_option Viewers (registry_Get ''demo'' 7 demo_registry) = Some 1 \<and>
     map_option Viewers (registry_Get ''demo'' 7 r1) = Some 2 \<and>
     Subscription_Close c r1 = Some r2 \<and>
     map_option Viewers (registry_Get ''demo'' 7 r2) = Some 1"
proof -
  obtain e where e: "entries demo_registry 0 = Some e" "subscribers e = [(0, 1)]" "nextID e = 1"
    using demo_simps by auto
  have k: "map_of (streams demo_registry) ''demo'' = Some 0" by (simp add: demo_simps)
  have "nextID e \<notin> fst ` set (subscribers e)" by (simp add: e)
  from subscribe_then_close [OF demo_reachable k e(1) this, of 7] show ?thesis
    using k e by (auto simp: registry_Get_def entry_info_def Let_def)
qed

text \<open>
  \<open>Stop\<close> takes the stream off the registry at once: it is no longer listed, nothing can
  be published to it or subscribed to it, and all three channels of each of its viewers are
  closed. What had been buffered stays readable, so a viewer drains it before it sees the
  end of the stream.
\<close>

theorem stop_ends_stream:
  assumes "registry_reachable r" "map_of (streams r) key = Some a" "entries r a = Some e"
    and "c \<in> snd ` set (subscribers e)" "subs r c = Some s"
  shows "\<exists>r' s'. registry_Stop key r = Some r' \<and> registry_Get key now r' = None \<and>
           registry_Publish key fr r' = Some (Inl ErrNotFound, r') \<and>
           registry_Subscribe key r' = Some (Inl ErrNotFound, r') \<and>
           entry_publish a fr r' = Some (Inl ErrNotFound, r') \<and>
           subs r' c = Some s' \<and> ch_closed (Frames s') \<and> ch_closed (Audio s') \<and> ch_closed (Opus s') \<and>
           fst (receive_n (length (ch_buf (Frames s))) (Frames s')) = map Value (ch_buf (Frames s))"
proof -
  from assms(1) have inv: "registry_inv r" by (rule reachable_registry_inv)
  obtain r1 where u: "registry_unlink key r = (Some a, r1)"
    using assms(2) by (simp add: registry_unlink_def Let_def)
  from unlink_some [OF inv u] assms(3) have
    r1: "entries r1 a = Some e" "subs r1 = subs r" "map_of (streams r1) key = None" "\<not> e_closed e"
    by auto
  from unlink_inv [OF inv, of key] u have inv1: "registry_inv r1" by simp
  let ?e = "e\<lparr>e_closed := True, subscribers := []\<rparr>"
  let ?r = "set_entry a ?e (fed close_channels e r1)"
  have stop: "registry_Stop key r = Some ?r"
    using u shutdown_open [OF inv1 r1(1,4)] by (simp add: registry_Stop_def)
  from registry_inv_entry [OF inv1 r1(1)] have "entry_inv r1 a e" by simp
  from fed_close_sub [OF this, of c s] assms(4,5) r1(2)
  have "subs ?r c = Some (closed_sub s)" by simp
  moreover have "fst (receive_n (length (ch_buf (Frames s))) (Frames (closed_sub s)))
      = map Value (ch_buf (Frames s))"
    using receive_n_drains [of "Frames (closed_sub s)"] by simp
  moreover have "registry_Get key now ?r = None" "registry_Publish key fr ?r = Some (Inl ErrNotFound, ?r)"
    "registry_Subscribe key ?r = Some (Inl ErrNotFound, ?r)"
    using r1(3) by (simp_all add: registry_Get_def registry_Publish_def registry_Subscribe_def)
  moreover have "entry_publish a fr ?r = Some (Inl ErrNotFound, ?r)"
    by (rule publish_closed(1) [of _ _ ?e]) simp_all
  ultimately show ?thesis using stop by (auto simp: closed_sub_def)
qed

theorem stop_ends_stream_witness:
  "\<exists>r' s'. registry_Stop ''demo'' demo_registry = Some r' \<and>
     registry_Subscribe ''demo'' r' = Some (Inl ErrNotFound, r') \<and>
     subs r' 1 = Some s' \<and> ch_closed (Frames s')"
proof -
  obtain e s where e: "entries demo_registry 0 = Some e" "subscribers e = [(0, 1)]"
    and s: "subs demo_registry 1 = Some s" using demo_simps by auto
  have k: "map_of (streams demo_registry) ''demo'' = Some 0" by (simp add: demo_simps)
  have "1 \<in> snd ` set (subscribers e)" by (simp add: e)
  from stop_ends_stream [OF demo_reachable k e(1) this s] show ?thesis by blast
qed

text \<open>
  \<open>Start\<close> on a key that is being published replaces the publication: the new entry is
  active, has no viewer and no Opus yet, carries the new parameter sets, and every viewer of
  the old publication has its channels closed.
\<close>

theorem start_replaces:
  assumes "registry_reachable r" "map_of (streams r) key = Some a" "entries r a = Some e"
    and "c \<in> snd ` set (subscribers e)"
  shows "\<exists>r' b e' s'. registry_Start key sps pps aac now r = Some r' \<and>
           map_of (streams r') key = Some b \<and> b \<noteq> a \<and> entries r' b = Some e' \<and>
           entry_info now e' = \<lparr>i_Key = key, Active = True, HasAudio = (aac \<noteq> [] \<and> hd aac \<noteq> []),
             i_HasOpus = False, Viewers = 0, BitrateKbps = 0, StartedAt = now\<rparr> \<and>
           e_sps e' = sps \<and> e_pps e' = pps \<and>
           subs r' c = Some s' \<and> ch_closed (Frames s') \<and> ch_closed (Audio s') \<and> ch_closed (Opus s')"
proof -
  from assms(1) have inv: "registry_inv r" by (rule reachable_registry_inv)
  obtain r1 where i: "registry_install key sps pps aac now r = (Some a, r1)"
    using assms(2) by (simp add: registry_install_def Let_def)
  from install_previous [OF inv i] assms(3) have
    r1: "entries r1 a = Some e" "subs r1 = subs r" "\<not> e_closed e" by auto
  from install_inv [OF inv, of key sps pps aac now] i have inv1: "registry_inv r1" by simp
  have ab: "next_addr r \<noteq> a" using registry_inv_entry [OF inv assms(3)] by simp
  from i obtain e' where new: "map_of (streams r1) key = Some (next_addr r)"
      "entries r1 (next_addr r) = Some e'" "e_sps e' = sps" "e_pps e' = pps"
      "entry_info now e' = \<lparr>i_Key = key, Active = True, HasAudio = (aac \<noteq> [] \<and> hd aac \<noteq> []),
         i_HasOpus = False, Viewers = 0, BitrateKbps = 0, StartedAt = now\<rparr>"
    by (cases aac) (auto simp: registry_install_def entry_info_def Let_def AList.update_conv')
  from registry_inv_entry [OF inv1 r1(1)] have ei: "entry_inv r1 a e" by simp
  from entry_inv_sub [OF ei assms(4)] obtain s where "subs r1 c = Some s" by blast
  from fed_close_sub [OF ei this] assms(4)
  have "subs (fed close_channels e r1) c = Some (closed_sub s)" by simp
  with i shutdown_open [OF inv1 r1(1,3)] new ab show ?thesis
    by (auto simp: registry_Start_def closed_sub_def)
qed

theorem start_replaces_witness:
  "\<exists>r' b e' s'. registry_Start ''demo'' [9, 9, 9, 9] [8] [] 50 demo_registry = Some r' \<and>
     map_of (streams r') ''demo'' = Some b \<and> entries r' b = Some e' \<and> Viewers (entry_info 50 e') = 0 \<and>
     subs r' 1 = Some s' \<and> ch_closed (Frames s')"
proof -
  obtain e where e: "entries demo_registry 0 = Some e" "subscribers e = [(0, 1)]"
    using demo_simps by auto
  have k: "map_of (streams demo_registry) ''demo'' = Some 0" by (simp add: demo_simps)
  have "1 \<in> snd ` set (subscribers e)" by (simp add: e)
  from start_replaces [OF demo_reachable k e(1) this, of "[9, 9, 9, 9]" "[8]" "[]" 50]
  show ?thesis by force
qed

end
