(* ===== verification/Ingress_Handler.thy ===== *)
theory Ingress_Handler
  imports Server_Config Hub Go_Url Stream_Registry
begin

text \<open>
  \<open>server/internal/api/handler/ingress.go\<close>: the ingresses of a room (the playback over HTTP is in
  \<open>Flv_Playback\<close>), and the two functions that \<open>cmd/server/main.go\<close> hands to the RTMP server: which
  stream keys may publish, and what happens when a stream starts or ends.
\<close>

section \<open>The address to publish to\<close>

definition stripHostPort :: "string \<Rightarrow> string" where
  "stripHostPort host = (case SplitHostPort host of Some (parsed, port) \<Rightarrow> parsed | None \<Rightarrow> Trim ''[]'' host)"

definition parsed_hostname :: "string \<Rightarrow> string" where
  "parsed_hostname s = (case url_Parse s of Some u \<Rightarrow> Hostname u | None \<Rightarrow> [])"

definition buildRTMPURL :: "string \<Rightarrow> int \<Rightarrow> string" where
  "buildRTMPURL val port =
     (let host = TrimSpace (hd (Split (CHR '','') val));
          host1 = (if parsed_hostname host \<noteq> [] then parsed_hostname host
                   else if parsed_hostname (''//'' @ host) \<noteq> [] then parsed_hostname (''//'' @ host)
                   else stripHostPort (Trim ''[]/'' host));
          host2 = (if host1 = [] then ''127.0.0.1'' else host1)
      in ''rtmp://'' @ JoinHostPort host2 (Itoa port) @ ''/live'')"

text \<open>The host comes from the configuration or from the request.\<close>

definition deriveRTMPURL :: "config \<Rightarrow> string \<Rightarrow> string \<Rightarrow> string" where
  "deriveRTMPURL cfg forwarded_host request_host =
     (let host = TrimSpace (srv_Domain (cf_Server cfg));
          host1 = (if host = [] then TrimSpace (mc_PublicIP (cf_Media cfg)) else host);
          host2 = (if host1 = [] \<or> host1 = ''your-server-public-ip'' then
                     (let f = TrimSpace (hd (Split (CHR '','') forwarded_host))
                      in if f = [] then request_host else f)
                   else host1);
          port = rm_Port (mc_RTMP (cf_Media cfg))
      in buildRTMPURL host2 (if port = 0 then 1935 else port))"

definition joinRTMPPublishURL :: "string \<Rightarrow> string \<Rightarrow> string" where
  "joinRTMPPublishURL baseURL streamKey = TrimRight ''/'' baseURL @ ''/'' @ TrimLeft ''/'' streamKey"

section \<open>The handlers\<close>

definition may_use_room :: "gorm \<Rightarrow> gin_context \<Rightarrow> uint64 \<Rightarrow> database \<Rightarrow> bool" where
  "may_use_room g cx roomID db \<longleftrightarrow> \<not> (\<not> IsMember g roomID (the_userID cx) db \<and> the_role cx \<noteq> ''super_admin'')"

definition new_ingress :: "env \<Rightarrow> uint64 \<Rightarrow> uint64 \<Rightarrow> string \<Rightarrow> string \<Rightarrow> room_ingress" where
  "new_ingress w roomID userID url label = \<lparr>ing_ID = 0, ing_RoomID = roomID, IngressID = e_uuid w 0,
     StreamKey = take 12 (e_uuid w 1), RTMPURL = url, Label = label, ing_IsActive = False,
     CreatedBy = userID, ing_CreatedAt = 0\<rparr>"

text \<open>\<open>uuid[:12]\<close> panics on a shorter text; a uuid has 36 characters.\<close>

definition IngressHandler_Create ::
  "env \<Rightarrow> config \<Rightarrow> gin_context \<Rightarrow> string \<Rightarrow> string \<Rightarrow> string \<Rightarrow> json option \<Rightarrow> database \<Rightarrow> hub
     \<Rightarrow> (response \<times> database \<times> hub) option" where
  "IngressHandler_Create w cfg cx roomId forwarded_host request_host body db h =
     (case ParseUint roomId of None \<Rightarrow> Some (Error 40001, db, h)
      | Some roomID \<Rightarrow>
     (case bind_string ''label'' body of None \<Rightarrow> Some (Error 40001, db, h)
      | Some label \<Rightarrow>
      if \<not> e_valid w ''required,min=1,max=64'' (FString label) then Some (Error 40001, db, h)
      else let userID = the_userID cx in
     (case Room_FindByID (e_gorm w) roomID db of Inl err \<Rightarrow> Some (Error 40401, db, h)
      | Inr v \<Rightarrow>
      if \<not> may_use_room (e_gorm w 4) cx roomID db then Some (ErrorWithStatus 403 40301, db, h)
      else if length (e_uuid w 1) < 12 then None
      else case Ingress_Create (e_gorm w 5)
                  (new_ingress w roomID userID (deriveRTMPURL cfg forwarded_host request_host) label) db of
             (Inl err, db1) \<Rightarrow> Some (Error 50001, db1, h)
           | (Inr i, db1) \<Rightarrow> Some (Success (JObj
               [(''id'', JUint (ing_ID i)), (''ingress_id'', JStr (IngressID i)), (''rtmp_url'', JStr (RTMPURL i)),
                (''stream_key'', JStr (StreamKey i)),
                (''publish_url'', JStr (joinRTMPPublishURL (RTMPURL i) (StreamKey i))), (''label'', JStr (Label i))]),
               db1, BroadcastToRoom roomID (IngressUpdateP roomID ''created'') 0 h))))"

text \<open>\<open>active\<close> is whether the registry knows the key; the clock does not matter for that.\<close>

definition active :: "string \<Rightarrow> registry \<Rightarrow> bool" where
  "active key reg \<longleftrightarrow> registry_Get key 0 reg \<noteq> None"

definition IngressHandler_List ::
  "env \<Rightarrow> config \<Rightarrow> gin_context \<Rightarrow> string \<Rightarrow> string \<Rightarrow> string \<Rightarrow> registry \<Rightarrow> database \<Rightarrow> response" where
  "IngressHandler_List w cfg cx roomId forwarded_host request_host reg db =
     (case ParseUint roomId of None \<Rightarrow> Error 40001
      | Some roomID \<Rightarrow>
     (case Room_FindByID (e_gorm w) roomID db of Inl err \<Rightarrow> Error 40401
      | Inr v \<Rightarrow>
      if \<not> may_use_room (e_gorm w 4) cx roomID db then ErrorWithStatus 403 40301
      else case Ingress_ListByRoom (e_gorm w 5) roomID db of Inl err \<Rightarrow> Error 50001
      | Inr is \<Rightarrow>
          let rtmpURL = deriveRTMPURL cfg forwarded_host request_host in
          Success (JArr (map (\<lambda>i. JObj
            [(''id'', JUint (ing_ID i)), (''ingress_id'', JStr (IngressID i)), (''rtmp_url'', JStr rtmpURL),
             (''stream_key'', JStr (StreamKey i)), (''publish_url'', JStr (joinRTMPPublishURL rtmpURL (StreamKey i))),
             (''label'', JStr (Label i)), (''is_active'', JBool (active (StreamKey i) reg))]) is))))"

definition IngressHandler_Delete ::
  "env \<Rightarrow> gin_context \<Rightarrow> string \<Rightarrow> string \<Rightarrow> registry \<Rightarrow> database \<Rightarrow> hub \<Rightarrow> response \<times> database \<times> hub" where
  "IngressHandler_Delete w cx roomId ingressId reg db h =
     (case ParseUint roomId of None \<Rightarrow> (Error 40001, db, h)
      | Some roomID \<Rightarrow>
     (case ParseUint ingressId of None \<Rightarrow> (Error 40001, db, h)
      | Some ingressID \<Rightarrow>
     (case Room_FindByID (e_gorm w) roomID db of Inl err \<Rightarrow> (Error 40401, db, h)
      | Inr v \<Rightarrow>
      if \<not> may_use_room (e_gorm w 4) cx roomID db then (ErrorWithStatus 403 40301, db, h)
      else case Ingress_FindByID (e_gorm w 5) ingressID db of Inl err \<Rightarrow> (Error 40401, db, h)
      | Inr i \<Rightarrow>
      if ing_RoomID i \<noteq> roomID then (Error 40401, db, h)
      else if active (StreamKey i) reg then (Error 40901, db, h)
      else case Ingress_Delete (e_gorm w 6) ingressID db of
             (Inl err, db1) \<Rightarrow> (Error 50001, db1, h)
           | (Inr _, db1) \<Rightarrow>
               (Success JNull, db1, BroadcastToRoom roomID (IngressUpdateP roomID ''deleted'') 0 h))))"

section \<open>What the RTMP server reports\<close>

definition on_stream_state :: "(nat \<Rightarrow> gorm) \<Rightarrow> string \<Rightarrow> bool \<Rightarrow> database \<Rightarrow> hub \<Rightarrow> database \<times> hub" where
  "on_stream_state g streamKey isActive db h =
     (case FindByStreamKey (g 0) streamKey db of Inl err \<Rightarrow> (db, h)
      | Inr i \<Rightarrow>
          let db1 = snd (Ingress_SetActive (g 1) (ing_ID i) isActive db)
          in (db1, BroadcastToRoom (ing_RoomID i) (IngressUpdateP (ing_RoomID i) ''status_changed'') 0 h))"

end
