(* ===== verification/File_Handler.thy ===== *)
theory File_Handler
  imports Auth_Handler Server_Config Go_Url
begin

text \<open>
  \<open>server/internal/api/handler/file.go\<close> and the upload of an avatar in \<open>user.go\<close>: the files that
  the members of a room share. The files are a map from paths to contents; the answers of the
  operating system, the sniffing of a content type and the table of file types are parameters.
  Paths are those of Unix.
\<close>

section \<open>Paths\<close>

fun clean_elems :: "bool \<Rightarrow> string list \<Rightarrow> string list \<Rightarrow> string list" where
  "clean_elems rooted done [] = done"
| "clean_elems rooted done (e # es) =
     (if e = [] \<or> e = ''.'' then clean_elems rooted done es
      else if e = ''..'' then
        (if done \<noteq> [] \<and> last done \<noteq> ''..'' then clean_elems rooted (butlast done) es
         else if rooted then clean_elems rooted done es
         else clean_elems rooted (done @ [e]) es)
      else clean_elems rooted (done @ [e]) es)"

fun join_path :: "string list \<Rightarrow> string" where
  "join_path [] = []"
| "join_path [e] = e"
| "join_path (e # es) = e @ ''/'' @ join_path es"

definition Clean :: "string \<Rightarrow> string" where
  "Clean path =
     (let rooted = HasPrefix path ''/'';
          out = (if rooted then ''/'' else []) @ join_path (clean_elems rooted [] (Split (CHR ''/'') path))
      in if out = [] then ''.'' else out)"

definition filepath_Join :: "string list \<Rightarrow> string" where
  "filepath_Join es =
     (case dropWhile (\<lambda>e. e = []) es of [] \<Rightarrow> [] | es' \<Rightarrow> Clean (join_path es'))"

definition Ext :: "string \<Rightarrow> string" where
  "Ext path =
     (let name = rev (takeWhile (\<lambda>c. c \<noteq> CHR ''/'') (rev path))
      in case dropWhile (\<lambda>c. c \<noteq> CHR ''.'') (rev name) of [] \<Rightarrow> []
         | _ \<Rightarrow> CHR ''.'' # rev (takeWhile (\<lambda>c. c \<noteq> CHR ''.'') (rev name)))"

section \<open>The outside\<close>

record uploaded =
  up_Filename :: string
  up_Size :: int
  up_ContentType :: string
  up_Content :: bytes

type_synonym files = "string \<Rightarrow> bytes option"

text \<open>A save that fails may leave a part of the file behind.\<close>

record file_os =
  fo_open :: "string option"
  fo_mkdir :: "nat \<Rightarrow> string option"
  fo_save :: "(string \<times> bytes option) option"
  fo_stat :: "string option"
  fo_detect :: "bytes \<Rightarrow> string"
  fo_type :: "string \<Rightarrow> string"

definition save_file :: "file_os \<Rightarrow> string \<Rightarrow> bytes \<Rightarrow> files \<Rightarrow> string option \<times> files" where
  "save_file os path content fs =
     (case fo_save os of
        None \<Rightarrow> (None, fs(path \<mapsto> content))
      | Some (err, left) \<Rightarrow> (Some err, case left of None \<Rightarrow> fs | Some part \<Rightarrow> fs(path \<mapsto> part)))"

definition max_size :: "storage_config \<Rightarrow> int" where
  "max_size st = int64 (st_MaxFileSizeMB st * 1024 * 1024)"

section \<open>Files of a room\<close>

definition allowedExtensions :: "string list" where
  "allowedExtensions = [''.jpg'', ''.jpeg'', ''.png'', ''.gif'', ''.webp'', ''.mp4'', ''.webm'', ''.mp3'',
     ''.ogg'', ''.wav'', ''.pdf'', ''.doc'', ''.docx'', ''.txt'', ''.zip'']"

definition file_id :: "uint64 \<Rightarrow> string \<Rightarrow> string \<Rightarrow> string" where
  "file_id roomID uuid ext = ''r'' @ digits roomID @ ''_'' @ uuid @ ext"

definition private_path :: "storage_config \<Rightarrow> string \<Rightarrow> string" where
  "private_path st fileID = filepath_Join [filepath_Join [st_Path st, ''private_files''], fileID]"

definition FileHandler_Upload ::
  "env \<Rightarrow> file_os \<Rightarrow> storage_config \<Rightarrow> gin_context \<Rightarrow> string \<Rightarrow> uploaded option \<Rightarrow> database \<Rightarrow> files
     \<Rightarrow> response \<times> files" where
  "FileHandler_Upload w os st cx room_id upload db fs =
     (case ParseUint room_id of None \<Rightarrow> (Error 40001, fs)
      | Some roomID \<Rightarrow>
      if roomID = 0 then (Error 40001, fs)
      else if \<not> IsMember (e_gorm w 0) roomID (the_userID cx) db then (ErrorWithStatus 403 40301, fs)
      else case upload of None \<Rightarrow> (Error 40001, fs)
      | Some f \<Rightarrow>
      if 0 < max_size st \<and> max_size st < up_Size f then (Error 40001, fs)
      else let ext = ToLower (Ext (up_Filename f)) in
      if ext \<notin> set allowedExtensions then (Error 40001, fs)
      else if fo_open os \<noteq> None then (Error 50001, fs)
      else let detectedType = fo_detect os (take 512 (up_Content f)) in
      if Contains detectedType ''octet-stream'' \<and> ext \<notin> set allowedExtensions then (Error 40001, fs)
      else if fo_mkdir os 0 \<noteq> None then (Error 50001, fs)
      else let fileID = file_id roomID (e_uuid w 0) ext in
      if fo_mkdir os 1 \<noteq> None then (Error 50001, fs)
      else case save_file os (private_path st fileID) (up_Content f) fs of
             (Some err, fs1) \<Rightarrow> (Error 50001, fs1)
           | (None, fs1) \<Rightarrow> (Success (JObj [(''file_id'', JStr fileID), (''url'', JStr (''/api/v1/files/'' @ fileID)),
               (''mime_type'', JStr detectedType), (''size_bytes'', JNum (up_Size f)),
               (''file_name'', JStr (up_Filename f))]), fs1))"

text \<open>The token of a download: the query has precedence over the header.\<close>

definition download_token :: "string \<Rightarrow> string \<Rightarrow> string" where
  "download_token query auth =
     (if query = [] then (if HasPrefix auth ''Bearer '' then TrimPrefix auth ''Bearer '' else []) else query)"

definition room_of_file :: "string \<Rightarrow> uint64 option" where
  "room_of_file fileID =
     (let parts = SplitN2 CHR ''_'' fileID in
      if length parts \<noteq> 2 \<or> \<not> HasPrefix (parts ! 0) ''r'' then None
      else case ParseUint (TrimPrefix (parts ! 0) ''r'') of
             None \<Rightarrow> None | Some roomID \<Rightarrow> if roomID = 0 then None else Some roomID)"

text \<open>A refusal, or the path of the file that is served and its content type.\<close>

definition FileHandler_GetByID ::
  "env \<Rightarrow> auth_config \<Rightarrow> file_os \<Rightarrow> storage_config \<Rightarrow> gin_context \<Rightarrow> string \<Rightarrow> string \<Rightarrow> string \<Rightarrow> database \<Rightarrow> files
     \<Rightarrow> response + (string \<times> string)" where
  "FileHandler_GetByID w cfg os st cx fileID query auth db fs =
     (if fileID = [] then Inl (Error 40001)
      else case room_of_file fileID of None \<Rightarrow> Inl (Error 40001)
      | Some roomID \<Rightarrow>
     (case (if the_userID cx \<noteq> 0 then Inr (the_userID cx)
            else let tokenStr = download_token query auth in
              if tokenStr = [] then Inl (ErrorWithStatus 401 40101)
              else case ParseToken (e_jwt w) cfg (e_clock w 0) tokenStr of
                     Inl err \<Rightarrow> Inl (ErrorWithStatus 401 40101)
                   | Inr claims \<Rightarrow> Inr (cl_UserID claims)) of
        Inl resp \<Rightarrow> Inl resp
      | Inr userID \<Rightarrow>
          if \<not> IsMember (e_gorm w 0) roomID userID db then Inl (ErrorWithStatus 403 40301)
          else let fullPath = filepath_Join [st_Path st, ''private_files'', fileID] in
            if fs fullPath = None \<or> fo_stat os \<noteq> None then Inl (Error 40401)
            else Inr (fullPath, fo_type os (ToLower (Ext fileID)))))"

section \<open>Avatars\<close>

definition UserHandler_UploadAvatar ::
  "env \<Rightarrow> file_os \<Rightarrow> storage_config \<Rightarrow> gin_context \<Rightarrow> uploaded option \<Rightarrow> database \<Rightarrow> files
     \<Rightarrow> response \<times> database \<times> files" where
  "UserHandler_UploadAvatar w os st cx upload db fs =
     (case upload of None \<Rightarrow> (Error 40001, db, fs)
      | Some f \<Rightarrow>
      if 0 < max_size st \<and> max_size st < up_Size f then (Error 40001, db, fs)
      else if \<not> HasPrefix (up_ContentType f) ''image/'' then (Error 40001, db, fs)
      else if fo_open os \<noteq> None then (Error 50001, db, fs)
      else let detectedType = fo_detect os (take 512 (up_Content f)) in
      if \<not> HasPrefix detectedType ''image/'' then (Error 40001, db, fs)
      else if fo_mkdir os 0 \<noteq> None then (Error 50001, db, fs)
      else let fileName = ''avatar_'' @ e_uuid w 0 @ Ext (up_Filename f);
               avatarDir = filepath_Join [st_Path st, ''avatars''] in
      if fo_mkdir os 1 \<noteq> None then (Error 50001, db, fs)
      else case save_file os (filepath_Join [avatarDir, fileName]) (up_Content f) fs of
             (Some err, fs1) \<Rightarrow> (Error 50001, db, fs1)
           | (None, fs1) \<Rightarrow>
               let avatarURL = ''/uploads/avatars/'' @ fileName in
               (case User_UpdateProfile (e_gorm w 0) (the_userID cx) [] avatarURL db of
                  (Inl err, db1) \<Rightarrow> (Error 50001, db1, fs1)
                | (Inr _, db1) \<Rightarrow> (Success (JObj [(''avatar_url'', JStr avatarURL)]), db1, fs1)))"

end
