(* ===== verification/Rtc_Play.thy ===== *)
theory Rtc_Play
  imports Stream_Registry Go_Net
begin

text \<open>
  \<open>server/internal/media/rtcplay/engine.go\<close>: WebRTC playback of a live stream. The answers of
  the WebRTC library (\<open>pion\<close>) are the fields of a record; the payloads, the durations and
  what happens to the subscription are computed as in the code.
\<close>

section \<open>Options\<close>

record rtc_options =
  PublicIP :: string
  PublicIPProvider :: "(unit \<Rightarrow> string) option"
  UDPMin :: "16 word"
  UDPMax :: "16 word"

record rtc_engine =
  publicIPProvider :: "unit \<Rightarrow> string"
  udpMin :: "16 word"
  udpMax :: "16 word"

text \<open>\<open>New\<close>; \<open>register\<close> answers the calls to the library with an error or none.\<close>

definition rtc_New :: "string option \<Rightarrow> string option \<Rightarrow> rtc_options \<Rightarrow> string + rtc_engine" where
  "rtc_New register setRange opts =
     (case register of Some err \<Rightarrow> Inl err
      | None \<Rightarrow>
          (case (if UDPMin opts \<noteq> 0 \<and> UDPMax opts \<ge> UDPMin opts then setRange else None) of
             Some err \<Rightarrow> Inl err
           | None \<Rightarrow>
               Inr \<lparr>publicIPProvider = (case PublicIPProvider opts of
                        None \<Rightarrow> (let publicIP = PublicIP opts in (\<lambda>_. publicIP))
                      | Some p \<Rightarrow> p),
                    udpMin = UDPMin opts, udpMax = UDPMax opts\<rparr>))"

definition rtcPublicIPv4 :: "(unit \<Rightarrow> string) option \<Rightarrow> string" where
  "rtcPublicIPv4 provider =
     (case provider of None \<Rightarrow> []
      | Some f \<Rightarrow>
          (case Option.bind (ParseIP (TrimSpace (f ()))) IPv4_String of None \<Rightarrow> [] | Some s \<Rightarrow> s))"

text \<open>What \<open>newPeerConnection\<close> configures: the port range and the address to advertise.\<close>

definition peer_settings :: "rtc_engine \<Rightarrow> (16 word \<times> 16 word) option \<times> string list" where
  "peer_settings e =
     (if udpMin e \<noteq> 0 \<and> udpMax e \<ge> udpMin e then Some (udpMin e, udpMax e) else None,
      let publicIP = rtcPublicIPv4 (Some (publicIPProvider e))
      in if publicIP \<noteq> [] then [publicIP] else [])"

section \<open>The format of the video\<close>

definition hex_digit :: "nat \<Rightarrow> char" where
  "hex_digit n = char_of (if n < 10 then 48 + n else 87 + n)"

text \<open>\<open>fmt.Sprintf("%02x", b)\<close>\<close>

definition hex_byte :: "byte \<Rightarrow> string" where
  "hex_byte b = [hex_digit (unat b div 16), hex_digit (unat b mod 16)]"

definition h264FMTP :: "string \<Rightarrow> string" where
  "h264FMTP profileLevelID =
     ''level-asymmetry-allowed=1;packetization-mode=1;profile-level-id='' @ profileLevelID"

definition h264ProfileLevelID :: "bytes \<Rightarrow> string" where
  "h264ProfileLevelID sps =
     (if length sps < 4 then ''42e01f''
      else let level = hex_byte (sps ! 3)
           in if sps ! 1 = 0x42 then
                (if sps ! 2 AND 0x40 \<noteq> 0 then ''42e0'' @ level else ''4200'' @ level)
              else if sps ! 1 = 0x4d then ''4d00'' @ level
              else if sps ! 1 = 0x64 then ''6400'' @ level
              else ''42e01f'')"

definition annexB :: "frame \<Rightarrow> bytes \<Rightarrow> bytes \<Rightarrow> bytes" where
  "annexB fr sps pps =
     (let parts = (if KeyFrame fr then [sps, pps] else []) @ NALUs fr
      in concat (map (\<lambda>part. [0, 0, 0, 1] @ part) parts))"

section \<open>The writing goroutines\<close>

record sample =
  s_Data :: bytes
  s_Duration :: duration

datatype write_error = ClosedPipe | OtherError string

type_synonym ('x, 'w) rtc_writer = "'x \<Rightarrow> 'w \<Rightarrow> write_error option \<times> 'w"

text \<open>The loop of \<open>writeStream\<close> over the frames received until the channel is closed.\<close>

fun writeStream ::
  "(sample, 'w) rtc_writer \<Rightarrow> bytes \<Rightarrow> bytes \<Rightarrow> frame list \<Rightarrow> bool \<Rightarrow> duration \<Rightarrow> 'w \<Rightarrow> 'w" where
  "writeStream wr sps pps [] started lastDTS w = w"
| "writeStream wr sps pps (fr # frs) started lastDTS w =
     (if \<not> started \<and> \<not> KeyFrame fr then writeStream wr sps pps frs started lastDTS w
      else
        let dur = (if lastDTS \<ge> 0 \<and> f_DTS fr > lastDTS then int64 (f_DTS fr - lastDTS)
                   else go_quot second 30)
        in case wr \<lparr>s_Data = annexB fr sps pps, s_Duration = dur\<rparr> w of (err, w1) \<Rightarrow>
             if err \<noteq> None \<and> err \<noteq> Some ClosedPipe then w1
             else writeStream wr sps pps frs True (f_DTS fr) w1)"

record rtp_packet =
  Version :: nat
  rtp_Marker :: bool
  PayloadType :: nat
  rtp_SequenceNumber :: "16 word"
  rtp_Timestamp :: "32 word"
  rtp_Payload :: bytes

fun writeOpus :: "(rtp_packet, 'w) rtc_writer \<Rightarrow> opus_frame list \<Rightarrow> 'w \<Rightarrow> 'w" where
  "writeOpus wr [] w = w"
| "writeOpus wr (fr # frs) w =
     (case wr \<lparr>Version = 2, rtp_Marker = Marker fr, PayloadType = 111,
               rtp_SequenceNumber = SequenceNumber fr, rtp_Timestamp = o_Timestamp fr,
               rtp_Payload = o_Payload fr\<rparr> w of (err, w1) \<Rightarrow>
        if err \<noteq> None \<and> err \<noteq> Some ClosedPipe then w1 else writeOpus wr frs w1)"

section \<open>Answering an offer\<close>

datatype gathering = GatheringComplete | RequestDone string | GatheringTimeout

record webrtc_answers =
  NewPeerConnection :: "string option"
  NewVideoTrack :: "string option"
  AddVideoTrack :: "string option"
  NewAudioTrack :: "string option"
  AddAudioTrack :: "string option"
  SetRemoteDescription :: "string option"
  CreateAnswer :: "string option"
  SetLocalDescription :: "string option"
  Gathering :: gathering
  LocalDescription :: "string option"

datatype rtc_error =
    EmptyOffer | StreamError stream_error | ErrAudioTranscoderUnavailable | RtcError string
  | GatheringTimedOut | MissingAnswer

text \<open>
  The library calls after the subscription, in order; each line is one early return of
  \<open>Answer\<close> (all of which close the subscription and, once it exists, the peer).
\<close>

fun first_error :: "string option list \<Rightarrow> string option" where
  "first_error [] = None"
| "first_error (Some err # calls) = Some err"
| "first_error (None # calls) = first_error calls"

definition negotiate :: "webrtc_answers \<Rightarrow> bool \<Rightarrow> rtc_error + string" where
  "negotiate lib withOpus =
     (case first_error
        ([NewPeerConnection lib, NewVideoTrack lib, AddVideoTrack lib]
         @ (if withOpus then [NewAudioTrack lib, AddAudioTrack lib] else [])
         @ [SetRemoteDescription lib, CreateAnswer lib, SetLocalDescription lib]) of
        Some err \<Rightarrow> Inl (RtcError err)
      | None \<Rightarrow>
          (case Gathering lib of
             RequestDone err \<Rightarrow> Inl (RtcError err)
           | GatheringTimeout \<Rightarrow> Inl GatheringTimedOut
           | GatheringComplete \<Rightarrow>
               (case LocalDescription lib of None \<Rightarrow> Inl MissingAnswer | Some sdp \<Rightarrow> Inr sdp)))"

text \<open>The result, the subscription that stays attached (with its peer) and the registry.\<close>

definition Answer ::
  "webrtc_answers \<Rightarrow> string \<Rightarrow> string \<Rightarrow> registry \<Rightarrow> ((rtc_error + string \<times> addr) \<times> registry) option" where
  "Answer lib streamKey offerSDP r =
     (if offerSDP = [] then Some (Inl EmptyOffer, r)
      else do {
        (res, r1) \<leftarrow> registry_Subscribe streamKey r;
        (case res of Inl err \<Rightarrow> Some (Inl (StreamError err), r1)
         | Inr c \<Rightarrow> do {
             s \<leftarrow> subs r1 c;
             (case (if length (AAC s) \<noteq> 0 \<and> \<not> HasOpus s then Inl ErrAudioTranscoderUnavailable
                    else negotiate lib (HasOpus s)) of
                Inl err \<Rightarrow> map_option (Pair (Inl err)) (Subscription_Close c r1)
              | Inr sdp \<Rightarrow> Some (Inr (sdp, c), r1))
           })
      })"

section \<open>Facts\<close>

text \<open>A track that keeps what it is given, and the duration of a sample.\<close>

definition keep :: "('x, 'x list) rtc_writer" where
  "keep x w = (None, w @ [x])"

definition sample_of :: "bytes \<Rightarrow> bytes \<Rightarrow> duration \<Rightarrow> frame \<Rightarrow> sample" where
  "sample_of sps pps lastDTS fr =
     \<lparr>s_Data = annexB fr sps pps,
      s_Duration = (if lastDTS \<ge> 0 \<and> f_DTS fr > lastDTS then int64 (f_DTS fr - lastDTS)
                    else go_quot second 30)\<rparr>"

fun samples :: "bytes \<Rightarrow> bytes \<Rightarrow> duration \<Rightarrow> frame list \<Rightarrow> sample list" where
  "samples sps pps lastDTS [] = []"
| "samples sps pps lastDTS (fr # frs) =
     sample_of sps pps lastDTS fr # samples sps pps (f_DTS fr) frs"

lemma writeStream_started:
  assumes "\<And>x w. wr x w = (None, w @ [x])"
  shows "writeStream wr sps pps frs True lastDTS w = w @ samples sps pps lastDTS frs"
  by (induction frs arbitrary: lastDTS w) (simp_all add: assms sample_of_def Let_def)

lemma writeStream_all:
  assumes "\<And>x w. wr x w = (None, w @ [x])"
  shows "writeStream wr sps pps frs False lastDTS w
     = w @ samples sps pps lastDTS (dropWhile (\<lambda>fr. \<not> KeyFrame fr) frs)"
  by (induction frs) (simp_all add: assms sample_of_def writeStream_started Let_def)

lemmas writeStream_keep = writeStream_all [of keep, OF keep_def]

definition int64_time :: "duration \<Rightarrow> bool" where
  "int64_time t \<longleftrightarrow> - (2 ^ 63) \<le> t \<and> t < 2 ^ 63"

lemma thirtieth: "go_quot second 30 = 33333333"
  by (simp add: go_quot_def second_def)

lemma sample_duration:
  assumes "int64_time lastDTS" "int64_time (f_DTS fr)"
  shows "0 < s_Duration (sample_of sps pps lastDTS fr)"
    and "0 \<le> lastDTS \<Longrightarrow> lastDTS < f_DTS fr \<Longrightarrow>
         s_Duration (sample_of sps pps lastDTS fr) = f_DTS fr - lastDTS"
  using assms int64_id [of "f_DTS fr - lastDTS"]
  by (auto simp: sample_of_def thirtieth int64_time_def)

lemma samples_positive:
  assumes "int64_time lastDTS" "\<forall>fr \<in> set frs. int64_time (f_DTS fr)"
  shows "\<forall>s \<in> set (samples sps pps lastDTS frs). 0 < s_Duration s"
  using assms by (induction frs arbitrary: lastDTS) (auto simp: sample_duration)

text \<open>The clock of the peer follows the decoding times.\<close>

lemma samples_total:
  assumes "0 \<le> lastDTS" "int64_time lastDTS" "\<forall>fr \<in> set frs. int64_time (f_DTS fr)"
    "sorted_wrt (<) (lastDTS # map f_DTS frs)"
  shows "sum_list (map s_Duration (samples sps pps lastDTS frs)) = last (lastDTS # map f_DTS frs) - lastDTS"
  using assms
proof (induction frs arbitrary: lastDTS)
  case (Cons fr frs)
  from Cons.prems have lt: "lastDTS < f_DTS fr" by simp
  with Cons.prems Cons.IH [of "f_DTS fr"] show ?case
    by (auto simp: sample_duration split: if_splits)
qed simp

lemma samples_length: "length (samples sps pps t frs) = length frs"
  by (induction frs arbitrary: t) simp_all

lemma samples_data: "map s_Data (samples sps pps t frs) = map (\<lambda>fr. annexB fr sps pps) frs"
  by (induction frs arbitrary: t) (simp_all add: sample_of_def)

section \<open>Properties\<close>

text \<open>
  C22: what a WebRTC viewer is sent. Nothing before the first key frame; from there on one
  sample per frame in order, carrying the frame's units (a key frame with the parameter sets
  in front), each with a positive duration; and while the decoding times grow the durations
  add up to them, so the viewer's clock does not drift.
\<close>

theorem webrtc_samples:
  assumes "\<forall>fr \<in> set frs. int64_time (f_DTS fr)"
    and "dropWhile (\<lambda>fr. \<not> KeyFrame fr) frs = k # rest"
  shows "\<exists>s ss. writeStream keep sps pps frs False (-1) [] = s # ss \<and>
     map s_Data (s # ss) = map (\<lambda>fr. annexB fr sps pps) (k # rest) \<and>
     s_Data s = [0, 0, 0, 1] @ sps @ [0, 0, 0, 1] @ pps
                  @ concat (map (\<lambda>nalu. [0, 0, 0, 1] @ nalu) (NALUs k)) \<and>
     (\<forall>x \<in> set (s # ss). 0 < s_Duration x) \<and>
     (0 \<le> f_DTS k \<and> sorted_wrt (<) (map f_DTS (k # rest)) \<longrightarrow>
        sum_list (map s_Duration ss) = f_DTS (last (k # rest)) - f_DTS k)"
proof -
  have out: "writeStream keep sps pps frs False (-1) []
      = sample_of sps pps (-1) k # samples sps pps (f_DTS k) rest"
    by (simp add: writeStream_keep assms(2))
  have key: "KeyFrame k" using assms(2) by (metis dropWhile_eq_Cons_conv)
  have sub: "set (k # rest) \<subseteq> set frs" using assms(2) by (metis set_dropWhileD subsetI)
  then have t: "int64_time (f_DTS k)" "\<forall>fr \<in> set rest. int64_time (f_DTS fr)" using assms(1) by auto
  have m1: "int64_time (-1)" by (simp add: int64_time_def)
  have "last (f_DTS k # map f_DTS rest) = f_DTS (last (k # rest))" by (simp add: last_map)
  with samples_total [OF _ t, of sps pps] samples_positive [OF t, of sps pps] sample_duration(1) [OF m1 t(1)]
  show ?thesis
    unfolding out using key
    by (auto simp: samples_data sample_of_def annexB_def)
qed

theorem webrtc_samples_witness:
  "\<exists>s ss. writeStream keep [7] [8] [(demo_frame 5)\<lparr>KeyFrame := False\<rparr>, demo_frame 10, demo_frame 30] False (-1) []
       = s # ss \<and> length ss = 1 \<and> sum_list (map s_Duration ss) = 20"
  using webrtc_samples [of "[(demo_frame 5)\<lparr>KeyFrame := False\<rparr>, demo_frame 10, demo_frame 30]"
      "demo_frame 10" "[demo_frame 30]" "[7]" "[8]"]
  by (auto simp: demo_frame_def int64_time_def)

text \<open>
  C38: a WebRTC offer that is not answered, whatever step failed, leaves no viewer behind:
  the registry reports the stream exactly as before. An answered offer leaves exactly one.
\<close>

theorem answer_viewers:
  assumes "registry_reachable r" "map_of (streams r) key = Some a" "entries r a = Some e"
    and "nextID e \<notin> fst ` set (subscribers e)"
  shows "\<exists>res r' i. Answer lib key offerSDP r = Some (res, r') \<and> registry_Get key now r = Some i \<and>
     (case res of
        Inl err \<Rightarrow> registry_Get key now r' = Some i
      | Inr (sdp, c) \<Rightarrow> LocalDescription lib = Some sdp \<and> offerSDP \<noteq> [] \<and>
          registry_Get key now r' = Some (i\<lparr>Viewers := Suc (Viewers i)\<rparr>) \<and>
          (i_HasOpus i \<or> \<not> HasAudio i))"
proof -
  from subscribe_close_round [OF reachable_registry_inv [OF assms(1)] assms(2-4)]
  obtain r1 r2 s where r: "registry_Subscribe key r = Some (Inr (next_addr r), r1)"
    "subs r1 (next_addr r) = Some s" "fresh_sub a e s" "streams r1 = streams r"
    "entries r1 = (entries r)(a \<mapsto> e\<lparr>nextID := nextID e + 1,
                    subscribers := AList.update (nextID e) (next_addr r) (subscribers e)\<rparr>)"
    "Subscription_Close (next_addr r) r1 = Some r2" "streams r2 = streams r"
    "entries r2 = (entries r)(a \<mapsto> e\<lparr>nextID := nextID e + 1\<rparr>)" by blast
  define i where "i = entry_info now e"
  have get: "registry_Get key now r = Some i" "registry_Get key now r2 = Some i"
    "registry_Get key now r1 = Some (i\<lparr>Viewers := Suc (Viewers i)\<rparr>)"
    using r assms(2,3) length_alist_update_fresh [OF assms(4)]
    by (simp_all add: registry_Get_def entry_info_def i_def Let_def)
  have i: "HasAudio i = (length (AAC s) \<noteq> 0)" "i_HasOpus i = HasOpus s"
    using r(3) by (simp_all add: i_def entry_info_def fresh_sub_def Let_def)
  let ?n = "if length (AAC s) \<noteq> 0 \<and> \<not> HasOpus s then Inl ErrAudioTranscoderUnavailable
            else negotiate lib (HasOpus s)"
  show ?thesis
  proof (cases "offerSDP = []")
    case True
    with get show ?thesis by (simp add: Answer_def)
  next
    case False
    show ?thesis
    proof (cases ?n)
      case (Inl err)
      then have "Answer lib key offerSDP r = Some (Inl err, r2)"
        using False r by (simp add: Answer_def)
      with get show ?thesis by simp
    next
      case (Inr sdp)
      then have "Answer lib key offerSDP r = Some (Inr (sdp, next_addr r), r1)"
        using False r by (simp add: Answer_def)
      moreover have "LocalDescription lib = Some sdp" "HasOpus s \<or> length (AAC s) = 0"
        using Inr by (auto simp: negotiate_def split: if_splits option.splits gathering.splits)
      ultimately show ?thesis using get i False by auto
    qed
  qed
qed

definition demo_answers :: webrtc_answers where
  "demo_answers = \<lparr>NewPeerConnection = None, NewVideoTrack = None, AddVideoTrack = None,
     NewAudioTrack = None, AddAudioTrack = None, SetRemoteDescription = Some ''bad SDP'',
     CreateAnswer = None, SetLocalDescription = None, Gathering = GatheringComplete,
     LocalDescription = Some ''v=0''\<rparr>"

theorem answer_viewers_witness:
  "\<exists>res r' i. Answer demo_answers ''demo'' ''offer'' demo_registry = Some (res, r') \<and>
     registry_Get ''demo'' 0 demo_registry = Some i"
proof -
  obtain e where e: "entries demo_registry 0 = Some e" "subscribers e = [(0, 1)]" "nextID e = 1"
    using demo_simps by auto
  have k: "map_of (streams demo_registry) ''demo'' = Some 0" by (simp add: demo_simps)
  have "nextID e \<notin> fst ` set (subscribers e)" by (simp add: e)
  from answer_viewers [OF demo_reachable k e(1) this, of demo_answers "''offer''" 0] show ?thesis by blast
qed

end
