(* ===== verification/Web_Public.thy ===== *)
theory Web_Public
  imports Http_Api Go_Url Rtc_Play "HOL-Library.List_Lexorder" "HOL-Library.Product_Lexorder"
begin

text \<open>
  \<open>server/internal/api/handler/web_public.go\<close>: the live rooms for the web page and WebRTC
  playback. \<open>sort.Slice\<close> orders a slice by a comparison and does not say how it orders equal
  elements: the two sorts are parameters. Strings are compared byte by byte.
\<close>

section \<open>Live rooms\<close>

record web_stream =
  wls_App :: string
  wls_StreamKey :: string
  wls_Label :: string
  wls_Clients :: nat
  wls_Bitrate :: rat
  wls_PlayURL :: string

record web_room =
  wr_ID :: string
  wr_Name :: string
  wr_Type :: string
  wr_RoomID :: uint64
  wr_Streams :: "web_stream list"
  wr_StreamCnt :: nat

definition toWebStream :: "info \<Rightarrow> string \<Rightarrow> web_stream" where
  "toWebStream i label = \<lparr>wls_App = ''live'', wls_StreamKey = i_Key i, wls_Label = label,
     wls_Clients = Viewers i, wls_Bitrate = BitrateKbps i, wls_PlayURL = ''/api/v1/stream/'' @ i_Key i\<rparr>"

text \<open>The UTF-8 bytes of the two texts of the code.\<close>

definition temporary_prefix :: string where
  "temporary_prefix = map char_of [228 :: nat, 184, 180, 230, 151, 182, 231, 155, 180, 230, 146, 173, 45]"

definition unknown_stream :: string where
  "unknown_stream = map char_of [230 :: nat, 156, 170, 231, 159, 165, 230, 181, 129]"

definition virtual_room :: "info \<Rightarrow> web_room" where
  "virtual_room i = \<lparr>wr_ID = ''virtual-'' @ i_Key i, wr_Name = temporary_prefix @ take 8 (i_Key i),
     wr_Type = ''virtual'', wr_RoomID = 0, wr_Streams = [toWebStream i unknown_stream], wr_StreamCnt = 0\<rparr>"

definition known_room :: "stream_room_ref \<Rightarrow> web_room" where
  "known_room ref = \<lparr>wr_ID = ''room-'' @ digits (ref_RoomID ref), wr_Name = ref_RoomName ref,
     wr_Type = ''known'', wr_RoomID = ref_RoomID ref, wr_Streams = [], wr_StreamCnt = 0\<rparr>"

definition stream_label :: "stream_room_ref \<Rightarrow> info \<Rightarrow> string" where
  "stream_label ref i = (if TrimSpace (ref_Label ref) = [] then i_Key i else TrimSpace (ref_Label ref))"

definition add_stream :: "web_stream \<Rightarrow> web_room \<Rightarrow> web_room" where
  "add_stream s r = r\<lparr>wr_Streams := wr_Streams r @ [s]\<rparr>"

text \<open>The loop: the rooms so far and the index of each known room.\<close>

definition add_live ::
  "(string \<rightharpoonup> stream_room_ref) \<Rightarrow> info \<Rightarrow> web_room list \<times> (uint64 \<rightharpoonup> nat) \<Rightarrow> web_room list \<times> (uint64 \<rightharpoonup> nat)" where
  "add_live refByKey live acc =
     (case acc of (rs, knownIndex) \<Rightarrow>
      case refByKey (i_Key live) of
        None \<Rightarrow> (rs @ [virtual_room live], knownIndex)
      | Some ref \<Rightarrow>
          (let (rs1, index, known1) =
             (case knownIndex (ref_RoomID ref) of
                Some index \<Rightarrow> (rs, index, knownIndex)
              | None \<Rightarrow> (rs @ [known_room ref], length rs, knownIndex(ref_RoomID ref \<mapsto> length rs)))
           in (rs1[index := add_stream (toWebStream live (stream_label ref live)) (rs1 ! index)], known1)))"

definition finish_room :: "(web_stream list \<Rightarrow> web_stream list) \<Rightarrow> web_room \<Rightarrow> web_room" where
  "finish_room sortStreams r = r\<lparr>wr_StreamCnt := length (wr_Streams r), wr_Streams := sortStreams (wr_Streams r)\<rparr>"

definition buildWebLiveRooms ::
  "(web_stream list \<Rightarrow> web_stream list) \<Rightarrow> (web_room list \<Rightarrow> web_room list) \<Rightarrow> info list \<Rightarrow> stream_room_ref list
     \<Rightarrow> web_room list" where
  "buildWebLiveRooms sortStreams sortRooms liveStreams refs =
     (let refByKey = map_of (rev (map (\<lambda>ref. (ref_StreamKey ref, ref)) refs))
      in sortRooms (map (finish_room sortStreams) (fst (fold (add_live refByKey) liveStreams ([], Map.empty)))))"

text \<open>What \<open>sort.Slice\<close> promises for the two comparisons.\<close>

definition stream_less :: "web_stream \<Rightarrow> web_stream \<Rightarrow> bool" where
  "stream_less a b \<longleftrightarrow> wls_StreamKey a < wls_StreamKey b"

definition room_less :: "web_room \<Rightarrow> web_room \<Rightarrow> bool" where
  "room_less a b \<longleftrightarrow> (if wr_Type a \<noteq> wr_Type b then wr_Type a < wr_Type b else wr_Name a < wr_Name b)"

definition sorts :: "('a \<Rightarrow> 'a \<Rightarrow> bool) \<Rightarrow> ('a list \<Rightarrow> 'a list) \<Rightarrow> bool" where
  "sorts lt f \<longleftrightarrow> (\<forall>xs. mset (f xs) = mset xs \<and> sorted_wrt (\<lambda>a b. \<not> lt b a) (f xs))"

definition web_stream_json :: "(rat \<Rightarrow> json) \<Rightarrow> web_stream \<Rightarrow> json" where
  "web_stream_json number s = JObj [(''app'', JStr (wls_App s)), (''stream_key'', JStr (wls_StreamKey s)),
     (''label'', JStr (wls_Label s)), (''clients'', JUint (wls_Clients s)), (''bitrate_kbps'', number (wls_Bitrate s)),
     (''play_url'', JStr (wls_PlayURL s))]"

definition web_room_json :: "(rat \<Rightarrow> json) \<Rightarrow> web_room \<Rightarrow> json" where
  "web_room_json number r = JObj ([(''id'', JStr (wr_ID r)), (''name'', JStr (wr_Name r)), (''type'', JStr (wr_Type r))] @
     (if wr_RoomID r = 0 then [] else [(''room_id'', JUint (wr_RoomID r))]) @
     [(''streams'', JArr (map (web_stream_json number) (wr_Streams r))), (''stream_count'', JUint (wr_StreamCnt r))])"

definition ListLiveRooms ::
  "env \<Rightarrow> (web_stream list \<Rightarrow> web_stream list) \<Rightarrow> (web_room list \<Rightarrow> web_room list) \<Rightarrow> (rat \<Rightarrow> json)
     \<Rightarrow> registry \<Rightarrow> database \<Rightarrow> response" where
  "ListLiveRooms w sortStreams sortRooms number reg db =
     (let liveStreams = registry_Snapshot (e_clock w 0) reg in
      case ListRoomRefsByStreamKeys (e_gorm w 0) (map i_Key liveStreams) db of
        Inl err \<Rightarrow> Error 50001
      | Inr refs \<Rightarrow>
          let rs = buildWebLiveRooms sortStreams sortRooms liveStreams refs in
          Success (JObj [(''rooms'', JArr (map (web_room_json number) rs)), (''total'', JUint (length rs)),
            (''generated_at'', e_time w (e_clock w 1))]))"

section \<open>Playback\<close>

definition streamKeyFromURL :: "string \<Rightarrow> string option" where
  "streamKeyFromURL raw =
     (case url_Parse (TrimSpace raw) of None \<Rightarrow> None
      | Some u \<Rightarrow>
          let parts = Split (CHR ''/'') (Trim ''/'' (url_Path u)) in
          if length parts \<noteq> 2 \<or> parts ! 0 \<noteq> ''live'' \<or> TrimSpace (parts ! 1) = [] then None
          else Some (parts ! 1))"

text \<open>The status and the body, without the texts; these answers have no \<open>data\<close>.\<close>

definition rendered :: "response \<Rightarrow> int \<times> json" where
  "rendered r = (resp_status r, JObj [(''code'', JNum (resp_code r)), (''data'', resp_data r)])"

definition RTCPlay ::
  "webrtc_answers \<Rightarrow> time \<Rightarrow> json option \<Rightarrow> registry \<Rightarrow> ((int \<times> json) \<times> registry) option" where
  "RTCPlay lib now body reg =
     (case Option.bind (bind_string ''sdp'' body) (\<lambda>s. map_option (Pair s) (bind_string ''streamurl'' body)) of
        None \<Rightarrow> Some (rendered (Error 40001), reg)
      | Some (sdp, streamURL) \<Rightarrow>
     (case streamKeyFromURL streamURL of None \<Rightarrow> Some (rendered (Error 40001), reg)
      | Some streamKey \<Rightarrow>
     (case registry_Get streamKey now reg of
        None \<Rightarrow> Some ((404, JObj [(''code'', JNum 40001)]), reg)
      | Some streamInfo \<Rightarrow> do {
          (res, reg1) \<leftarrow> Answer lib streamKey sdp reg;
          (case res of
             Inl err \<Rightarrow>
               Some ((if err = StreamError ErrNotFound then 404 else 400, JObj [(''code'', JNum 40001)]), reg1)
           | Inr (answer, c) \<Rightarrow>
               Some ((200, JObj [(''code'', JNum 0), (''server'', JStr ''nexusroom''), (''sdp'', JStr answer),
                 (''sessionid'', JStr streamKey), (''source_has_audio'', JBool (HasAudio streamInfo))]), reg1))
        })))"

end
