(* ===== verification/Flv_Muxer.thy ===== *)
theory Flv_Muxer
  imports Stream_Registry
begin

text \<open>
  \<open>server/internal/media/flv/muxer.go\<close>: the FLV muxer of the HTTP-FLV playback. The
  \<open>io.Writer\<close> is a function from the bytes and the writer's state to an error (or none) and
  the writer's next state; \<open>buffer_write\<close> is the in-memory writer that never fails.
  The lemmas show that a demultiplexer written from the FLV layout (tag header, body,
  back pointer) reads back exactly what was written.
\<close>

unbundle bit_operations_syntax

datatype flv_error = ErrInvalidH264Config | WriteFailed string

type_synonym 'w writer = "bytes \<Rightarrow> 'w \<Rightarrow> string option \<times> 'w"

definition buffer_write :: "bytes writer" where
  "buffer_write bs w = (None, w @ bs)"

section \<open>Big-endian numbers\<close>

definition putUint24 :: "32 word \<Rightarrow> bytes" where
  "putUint24 v = [ucast (drop_bit 16 v), ucast (drop_bit 8 v), ucast v]"

definition BigEndian_Uint16 :: "16 word \<Rightarrow> bytes" where
  "BigEndian_Uint16 v = [ucast (drop_bit 8 v), ucast v]"

definition BigEndian_Uint32 :: "32 word \<Rightarrow> bytes" where
  "BigEndian_Uint32 v =
     [ucast (drop_bit 24 v), ucast (drop_bit 16 v), ucast (drop_bit 8 v), ucast v]"

section \<open>The muxer\<close>

definition writeTag :: "'w writer \<Rightarrow> byte \<Rightarrow> 32 word \<Rightarrow> bytes \<Rightarrow> 'w \<Rightarrow> flv_error option \<times> 'w" where
  "writeTag wr tagType timestamp body w =
     (let header = [tagType] @ putUint24 (of_nat (length body))
                     @ putUint24 (timestamp AND 0xffffff)
                     @ [ucast (drop_bit 24 timestamp), 0, 0, 0]
      in case wr header w of
           (Some err, w1) \<Rightarrow> (Some (WriteFailed err), w1)
         | (None, w1) \<Rightarrow>
             (case wr body w1 of
                (Some err, w2) \<Rightarrow> (Some (WriteFailed err), w2)
              | (None, w2) \<Rightarrow>
                  (case wr (BigEndian_Uint32 (of_nat (length header + length body))) w2 of
                     (err, w3) \<Rightarrow> (map_option WriteFailed err, w3))))"

definition frameSize :: "bytes list \<Rightarrow> nat" where
  "frameSize nalus = fold (\<lambda>nalu size. size + (4 + length nalu)) nalus 0"

definition WriteHeader ::
  "'w writer \<Rightarrow> bytes \<Rightarrow> bytes \<Rightarrow> bytes list \<Rightarrow> 'w \<Rightarrow> flv_error option \<times> 'w" where
  "WriteHeader wr sps pps aac w =
     (if length sps < 4 \<or> length pps = 0 \<or> length sps > 0xffff \<or> length pps > 0xffff
      then (Some ErrInvalidH264Config, w)
      else
        let audioConfig = (case aac of [] \<Rightarrow> [] | a # _ \<Rightarrow> a);
            flags = (if length audioConfig \<noteq> 0 then 5 else 1);
            header = [0x46, 0x4c, 0x56, 1, flags, 0, 0, 0, 9, 0, 0, 0, 0]
        in case wr header w of
             (Some err, w1) \<Rightarrow> (Some (WriteFailed err), w1)
           | (None, w1) \<Rightarrow>
               (let config = [0x17, 0, 0, 0, 0]
                      @ [1, sps ! 1, sps ! 2, sps ! 3, 0xff, 0xe1]
                      @ BigEndian_Uint16 (of_nat (length sps)) @ sps
                      @ [1] @ BigEndian_Uint16 (of_nat (length pps)) @ pps
                in case writeTag wr 9 0 config w1 of
                     (Some err, w2) \<Rightarrow> (Some err, w2)
                   | (None, w2) \<Rightarrow>
                       (if length audioConfig \<noteq> 0
                        then writeTag wr 8 0 ([0xaf, 0] @ audioConfig) w2
                        else (None, w2))))"

definition WriteAudio :: "'w writer \<Rightarrow> audio_frame \<Rightarrow> 'w \<Rightarrow> flv_error option \<times> 'w" where
  "WriteAudio wr fr w =
     (if length (a_Data fr) = 0 then (None, w)
      else writeTag wr 8 (of_int (go_quot (a_PTS fr) millisecond)) ([0xaf, 1] @ a_Data fr) w)"

definition frame_body :: "frame \<Rightarrow> bytes" where
  "frame_body fr =
     (let composition = go_quot (int64 (f_PTS fr - f_DTS fr)) millisecond
      in [if KeyFrame fr then 0x17 else 0x27] @ [1]
         @ [of_int (composition div 2 ^ 16), of_int (composition div 2 ^ 8), of_int composition]
         @ concat (map (\<lambda>nalu. BigEndian_Uint32 (of_nat (length nalu)) @ nalu) (NALUs fr)))"

definition WriteFrame :: "'w writer \<Rightarrow> frame \<Rightarrow> 'w \<Rightarrow> flv_error option \<times> 'w" where
  "WriteFrame wr fr w =
     (if length (NALUs fr) = 0 then (None, w)
      else writeTag wr 9 (of_int (go_quot (f_DTS fr) millisecond)) (frame_body fr) w)"

text \<open>The capacity reserved for the body is exactly what the body needs.\<close>

lemma frameSize_exact: "length (frame_body fr) = 5 + frameSize (NALUs fr)"
proof -
  have "fold (\<lambda>nalu size. size + (4 + length nalu)) ns k
      = k + length (concat (map (\<lambda>nalu. BigEndian_Uint32 (of_nat (length nalu)) @ nalu) ns))" for ns k
    by (induction ns arbitrary: k) (simp_all add: BigEndian_Uint32_def)
  then show ?thesis by (simp add: frame_body_def frameSize_def Let_def)
qed

section \<open>A demultiplexer\<close>

fun nat_be :: "bytes \<Rightarrow> nat" where
  "nat_be [] = 0"
| "nat_be (b # bs) = unat b * 256 ^ length bs + nat_be bs"

record flv_tag =
  tag_type :: byte
  tag_time :: nat
  tag_body :: bytes

definition flv_tag :: "bytes \<Rightarrow> (flv_tag \<times> bytes) option" where
  "flv_tag bs =
     (let n = nat_be (take 3 (drop 1 bs));
          t = nat_be (take 3 (drop 4 bs)) + 2 ^ 24 * nat_be (take 1 (drop 7 bs))
      in if length bs < 15 + n \<or> drop 8 (take 11 bs) \<noteq> [0, 0, 0]
            \<or> nat_be (take 4 (drop (11 + n) bs)) \<noteq> 11 + n
         then None
         else Some (\<lparr>tag_type = hd bs, tag_time = t, tag_body = take n (drop 11 bs)\<rparr>,
                    drop (15 + n) bs))"

fun flv_tags :: "nat \<Rightarrow> bytes \<Rightarrow> flv_tag list option" where
  "flv_tags 0 bs = (if bs = [] then Some [] else None)"
| "flv_tags (Suc fuel) bs =
     (if bs = [] then Some []
      else case flv_tag bs of None \<Rightarrow> None
         | Some (t, rest) \<Rightarrow> map_option ((#) t) (flv_tags fuel rest))"

text \<open>The file: signature, version, flags, header length 9, first back pointer 0, tags.\<close>

definition flv_file :: "bytes \<Rightarrow> (byte \<times> flv_tag list) option" where
  "flv_file bs =
     (if length bs < 13 \<or> take 4 bs \<noteq> [0x46, 0x4c, 0x56, 1]
         \<or> nat_be (take 4 (drop 5 bs)) \<noteq> 9 \<or> nat_be (take 4 (drop 9 bs)) \<noteq> 0
      then None else map_option (Pair (bs ! 4)) (flv_tags (length bs) (drop 13 bs)))"

text \<open>The body of an AVC tag: length-prefixed units.\<close>

fun avcc_units :: "nat \<Rightarrow> bytes \<Rightarrow> bytes list option" where
  "avcc_units 0 bs = (if bs = [] then Some [] else None)"
| "avcc_units (Suc fuel) bs =
     (if bs = [] then Some []
      else let n = nat_be (take 4 bs)
           in if length bs < 4 + n then None
              else map_option ((#) (take n (drop 4 bs))) (avcc_units fuel (drop (4 + n) bs)))"

section \<open>Numbers read back\<close>

lemma unat_byte: "unat (ucast (w :: 'a::len word) :: byte) = unat w mod 256"
  by (simp add: unsigned_ucast_eq take_bit_eq_mod)

lemma unat_drop: "unat (drop_bit n (w :: 'a::len word)) = unat w div 2 ^ n"
  by (subst unat_drop_bit_eq) (rule drop_bit_eq_div)

lemma base256:
  "x div 65536 mod 256 * 65536 + (x div 256 mod 256 * 256 + x mod 256) = x mod (2 ^ 24 :: nat)"
proof -
  have "x mod 2 ^ 24 = x mod (256 * 65536)" by simp
  also have "\<dots> = 256 * (x div 256 mod 65536) + x mod 256" by (rule mod_mult2_eq [of x 256 65536])
  also have "x div 256 mod 65536 = 256 * (x div 256 div 256 mod 256) + x div 256 mod 256"
    using mod_mult2_eq [of "x div 256" 256 256] by simp
  also have "x div 256 div 256 = x div 65536" by (simp add: div_mult2_eq [symmetric])
  finally show ?thesis by simp
qed

lemma nat_be_Uint24 [simp]: "nat_be (putUint24 v) = unat v mod 2 ^ 24"
  using base256 [of "unat v"] by (simp add: putUint24_def unat_byte unat_drop)

lemma nat_be_Uint32 [simp]: "nat_be (BigEndian_Uint32 v) = unat v"
proof -
  have "unat v < 2 ^ 32" using unsigned_less [of v, where ?'a = nat] by simp
  then have "unat v div 2 ^ 24 mod 256 = unat v div 2 ^ 24" by simp
  moreover have "unat v = 2 ^ 24 * (unat v div 2 ^ 24) + unat v mod 2 ^ 24" by simp
  ultimately show ?thesis
    using base256 [of "unat v"]
    by (simp add: BigEndian_Uint32_def unat_byte unat_drop)
qed

lemma nat_be_Uint16 [simp]: "nat_be (BigEndian_Uint16 v) = unat v"
proof -
  have "unat v < 2 ^ 16" using unsigned_less [of v, where ?'a = nat] by simp
  then show ?thesis by (simp add: BigEndian_Uint16_def unat_byte unat_drop)
qed

lemma length_numbers [simp]:
  "length (putUint24 v) = 3" "length (BigEndian_Uint32 w) = 4" "length (BigEndian_Uint16 x) = 2"
  by (simp_all add: putUint24_def BigEndian_Uint32_def BigEndian_Uint16_def)

lemma unat_low24: "unat ((ts :: 32 word) AND 0xffffff) = unat ts mod 2 ^ 24"
proof -
  have "ts AND 0xffffff = take_bit 24 ts"
    by (simp add: take_bit_eq_mask mask_eq_exp_minus_1)
  then show ?thesis by (simp only: unsigned_take_bit_eq) (simp add: take_bit_eq_mod)
qed

section \<open>Tags read back\<close>

definition tag_bytes :: "byte \<Rightarrow> 32 word \<Rightarrow> bytes \<Rightarrow> bytes" where
  "tag_bytes ty ts body =
     [ty] @ putUint24 (of_nat (length body)) @ putUint24 (ts AND 0xffffff)
       @ [ucast (drop_bit 24 ts), 0, 0, 0] @ body @ BigEndian_Uint32 (of_nat (11 + length body))"

lemma tag_bytes_nonempty: "tag_bytes ty ts body \<noteq> []" "length (tag_bytes ty ts body) = 15 + length body"
  by (simp_all add: tag_bytes_def)

lemma writeTag_buffer: "writeTag buffer_write ty ts body w = (None, w @ tag_bytes ty ts body)"
  by (simp add: writeTag_def buffer_write_def tag_bytes_def Let_def add.commute)

lemma unat_small: "n < 2 ^ LENGTH('a) \<Longrightarrow> unat (of_nat n :: 'a::len word) = n"
  by (simp add: unat_of_nat)

lemma flv_tag_bytes:
  assumes "length body < 2 ^ 24"
  shows "flv_tag (tag_bytes ty ts body @ rest)
       = Some (\<lparr>tag_type = ty, tag_time = unat ts, tag_body = body\<rparr>, rest)"
proof -
  let ?n = "length body"
  have n: "unat (of_nat ?n :: 32 word) = ?n" "unat (of_nat (11 + ?n) :: 32 word) = 11 + ?n"
    using assms unat_small [of ?n, where 'a = 32] unat_small [of "11 + ?n", where 'a = 32] by simp_all
  let ?h = "tag_bytes ty ts body @ rest"
  have 1: "take 3 (drop 1 ?h) = putUint24 (of_nat ?n)"
    by (simp add: tag_bytes_def)
  have 2: "take 3 (drop 4 ?h) = putUint24 (ts AND 0xffffff)"
    by (simp add: tag_bytes_def)
  have 3: "take 1 (drop 7 ?h) = [ucast (drop_bit 24 ts)]"
    by (simp add: tag_bytes_def)
  have 4: "drop 8 (take 11 ?h) = [0, 0, 0]" by (simp add: tag_bytes_def)
  have 5: "take 4 (drop (11 + ?n) ?h) = BigEndian_Uint32 (of_nat (11 + ?n))"
  proof -
    let ?pre = "[ty] @ putUint24 (of_nat ?n) @ putUint24 (ts AND 0xffffff)
       @ [ucast (drop_bit 24 ts), 0, 0, 0] @ body"
    have eq: "?h = ?pre @ BigEndian_Uint32 (of_nat (11 + ?n)) @ rest" by (simp add: tag_bytes_def)
    show ?thesis unfolding eq by (rule take_drop_mid) simp_all
  qed
  have 6: "take ?n (drop 11 ?h) = body" by (simp add: tag_bytes_def)
  have 7: "drop (15 + ?n) ?h = rest" by (simp add: tag_bytes_nonempty)
  have 8: "length ?h = 15 + ?n + length rest" by (simp add: tag_bytes_def)
  have 9: "hd ?h = ty" by (simp add: tag_bytes_def)
  have "nat_be (take 1 (drop 7 ?h)) = unat ts div 2 ^ 24"
  proof -
    have "unat ts < 2 ^ 32" using unsigned_less [of ts, where ?'a = nat] by simp
    then show ?thesis unfolding 3 by (simp add: unat_byte unat_drop)
  qed
  then have time: "nat_be (take 3 (drop 4 ?h)) + 2 ^ 24 * nat_be (take 1 (drop 7 ?h)) = unat ts"
    unfolding 2 by (simp add: unat_low24)
  have len: "nat_be (take 3 (drop 1 ?h)) = ?n"
    unfolding 1 using assms n(1) by simp
  show ?thesis
    unfolding flv_tag_def Let_def len time 4 5 6 7 8 9 using n by simp
qed

lemma flv_tags_bytes:
  assumes "\<And>t. t \<in> set ts \<Longrightarrow> length (snd (snd t)) < 2 ^ 24"
    and "length (concat (map (\<lambda>(ty, t, b). tag_bytes ty t b) ts)) \<le> fuel"
  shows "flv_tags fuel (concat (map (\<lambda>(ty, t, b). tag_bytes ty t b) ts))
       = Some (map (\<lambda>(ty, t, b). \<lparr>tag_type = ty, tag_time = unat t, tag_body = b\<rparr>) ts)"
  using assms
proof (induction ts arbitrary: fuel)
  case Nil
  then show ?case by (cases fuel) simp_all
next
  case (Cons x ts)
  obtain ty t b where x: "x = (ty, t, b)" by (cases x) auto
  from Cons.prems(2) obtain f where f: "fuel = Suc f"
      "length (concat (map (\<lambda>(ty, t, b). tag_bytes ty t b) ts)) \<le> f"
    by (cases fuel) (auto simp: x tag_bytes_nonempty)
  from Cons.prems(1) [of x] have "length b < 2 ^ 24" by (simp add: x)
  from flv_tag_bytes [OF this] Cons.IH [OF _ f(2)] Cons.prems(1) show ?case
    by (simp add: x f(1) tag_bytes_nonempty)
qed

section \<open>A whole playback\<close>

datatype media = Video frame | Sound audio_frame

fun write_media :: "'w writer \<Rightarrow> media list \<Rightarrow> 'w \<Rightarrow> flv_error option \<times> 'w" where
  "write_media wr [] w = (None, w)"
| "write_media wr (m # ms) w =
     (case (case m of Video fr \<Rightarrow> WriteFrame wr fr w | Sound fr \<Rightarrow> WriteAudio wr fr w) of
        (Some err, w1) \<Rightarrow> (Some err, w1)
      | (None, w1) \<Rightarrow> write_media wr ms w1)"

text \<open>What each item stands for in the file: type, time and body; an empty item has no tag.\<close>

definition media_tag :: "media \<Rightarrow> (byte \<times> 32 word \<times> bytes) list" where
  "media_tag m = (case m of
     Video fr \<Rightarrow> if NALUs fr = [] then []
                 else [(9, of_int (go_quot (f_DTS fr) millisecond), frame_body fr)]
   | Sound fr \<Rightarrow> if a_Data fr = [] then []
                 else [(8, of_int (go_quot (a_PTS fr) millisecond), [0xaf, 1] @ a_Data fr)])"

definition config_tags :: "bytes \<Rightarrow> bytes \<Rightarrow> bytes \<Rightarrow> (byte \<times> 32 word \<times> bytes) list" where
  "config_tags sps pps aac =
     (9, 0, [0x17, 0, 0, 0, 0] @ [1, sps ! 1, sps ! 2, sps ! 3, 0xff, 0xe1]
            @ BigEndian_Uint16 (of_nat (length sps)) @ sps
            @ [1] @ BigEndian_Uint16 (of_nat (length pps)) @ pps)
     # (if aac = [] then [] else [(8, 0, [0xaf, 0] @ aac)])"

definition tag_of :: "byte \<times> 32 word \<times> bytes \<Rightarrow> flv_tag" where
  "tag_of = (\<lambda>(ty, t, b). \<lparr>tag_type = ty, tag_time = unat t, tag_body = b\<rparr>)"

definition tags_bytes :: "(byte \<times> 32 word \<times> bytes) list \<Rightarrow> bytes" where
  "tags_bytes ts = concat (map (\<lambda>(ty, t, b). tag_bytes ty t b) ts)"

lemma tags_bytes_simps [simp]:
  "tags_bytes [] = []" "tags_bytes ((ty, t, b) # ts) = tag_bytes ty t b @ tags_bytes ts"
  "tags_bytes (xs @ ys) = tags_bytes xs @ tags_bytes ys"
  by (simp_all add: tags_bytes_def)

lemma write_media_buffer:
  "write_media buffer_write ms w = (None, w @ tags_bytes (concat (map media_tag ms)))"
  by (induction ms arbitrary: w)
     (auto simp: WriteFrame_def WriteAudio_def media_tag_def writeTag_buffer split: media.splits)

lemma WriteHeader_buffer:
  assumes "4 \<le> length sps" "length sps \<le> 0xffff" "pps \<noteq> []" "length pps \<le> 0xffff"
  shows "WriteHeader buffer_write sps pps [aac] [] =
     (None, [0x46, 0x4c, 0x56, 1, if aac = [] then 1 else 5, 0, 0, 0, 9, 0, 0, 0, 0]
            @ tags_bytes (config_tags sps pps aac))"
proof -
  have w: "buffer_write bs [] = (None, bs)" for bs by (simp add: buffer_write_def)
  show ?thesis
    using assms
    by (cases "aac = []")
       (simp_all add: WriteHeader_def writeTag_buffer config_tags_def Let_def w)
qed

lemma writeTag_error: "fst (writeTag wr ty ts body w) \<noteq> Some ErrInvalidH264Config"
  by (simp add: writeTag_def Let_def split: prod.split option.split)

lemma flv_file_bytes:
  assumes "\<And>t. t \<in> set ts \<Longrightarrow> length (snd (snd t)) < 2 ^ 24"
  shows "flv_file ([0x46, 0x4c, 0x56, 1, f, 0, 0, 0, 9, 0, 0, 0, 0] @ tags_bytes ts)
       = Some (f, map tag_of ts)"
proof -
  let ?bs = "[0x46, 0x4c, 0x56, 1, f, 0, 0, 0, 9, 0, 0, 0, 0] @ tags_bytes ts"
  have "flv_tags (length ?bs) (tags_bytes ts) = Some (map tag_of ts)"
    using flv_tags_bytes [OF assms, where fuel = "length ?bs"] by (simp add: tags_bytes_def tag_of_def)
  then show ?thesis by (simp add: flv_file_def)
qed

text \<open>The body of a video tag.\<close>

lemma avcc_units_body:
  assumes "\<And>n. n \<in> set ns \<Longrightarrow> length n < 2 ^ 32"
    and "length (concat (map (\<lambda>n. BigEndian_Uint32 (of_nat (length n)) @ n) ns)) \<le> fuel"
  shows "avcc_units fuel (concat (map (\<lambda>n. BigEndian_Uint32 (of_nat (length n)) @ n) ns)) = Some ns"
  using assms
proof (induction ns arbitrary: fuel)
  case Nil
  then show ?case by (cases fuel) simp_all
next
  case (Cons n ns)
  from Cons.prems(2) obtain f where f: "fuel = Suc f"
      "length (concat (map (\<lambda>n. BigEndian_Uint32 (of_nat (length n)) @ n) ns)) \<le> f"
    by (cases fuel) auto
  have ne: "BigEndian_Uint32 x \<noteq> []" for x by (simp add: BigEndian_Uint32_def)
  have n: "unat (of_nat (length n) :: 32 word) = length n"
    using Cons.prems(1) [of n] by (intro unat_small) simp
  from Cons.IH [OF _ f(2)] Cons.prems(1) n show ?case by (simp add: f(1) ne)
qed

lemma composition_bytes:
  "nat_be [of_int (x div 2 ^ 16), of_int (x div 2 ^ 8), of_int x] = nat (x mod 2 ^ 24)"
proof -
  have u: "unat (of_int y :: byte) = nat (y mod 256)" for y
    by (simp add: word_of_int_eq_0_iff unsigned_of_int take_bit_eq_mod)
  have "int (nat_be [of_int (x div 2 ^ 16), of_int (x div 2 ^ 8), of_int x])
      = x div 65536 mod 256 * 65536 + (x div 256 mod 256 * 256 + x mod 256)"
    by (simp add: u)
  also have "\<dots> = x mod 2 ^ 24"
  proof -
    have "x mod 2 ^ 24 = x mod (256 * 65536)" by simp
    also have "\<dots> = 256 * (x div 256 mod 65536) + x mod 256" by (rule zmod_zmult2_eq) simp
    also have "x div 256 mod 65536 = 256 * (x div 256 div 256 mod 256) + x div 256 mod 256"
      using zmod_zmult2_eq [of 256 "x div 256" 256] by simp
    also have "x div 256 div 256 = x div 65536" by (simp add: zdiv_zmult2_eq [symmetric])
    finally show ?thesis by simp
  qed
  finally have "int (nat_be [of_int (x div 2 ^ 16), of_int (x div 2 ^ 8), of_int x]) = x mod 2 ^ 24" .
  then show ?thesis by (simp only: nat_int [symmetric])
qed

section \<open>Properties\<close>

text \<open>
  C12: whatever the mixture of frames, a playback written to a writer that accepts
  everything is an FLV file that a demultiplexer reads back tag by tag: the flags, the two
  configuration tags, then one tag per non-empty frame in order, each with its type, its
  32-bit millisecond time and its body, with consistent sizes and back pointers.
\<close>

theorem flv_playback_roundtrip:
  assumes "4 \<le> length sps" "length sps \<le> 0xffff" "pps \<noteq> []" "length pps \<le> 0xffff"
    and "length aac < 2 ^ 24 - 2"
    and "\<forall>m \<in> set ms. \<forall>t \<in> set (media_tag m). length (snd (snd t)) < 2 ^ 24"
  shows "\<exists>h out. WriteHeader buffer_write sps pps [aac] [] = (None, h) \<and>
           write_media buffer_write ms h = (None, out) \<and>
           flv_file out = Some (if aac = [] then 1 else 5,
             map tag_of (config_tags sps pps aac @ concat (map media_tag ms)))"
proof -
  have "length (snd (snd t)) < 2 ^ 24"
    if "t \<in> set (config_tags sps pps aac @ concat (map media_tag ms))" for t
    using that assms by (auto simp: config_tags_def split: if_splits)
  from flv_file_bytes [of "config_tags sps pps aac @ concat (map media_tag ms)", OF this]
  show ?thesis
    using WriteHeader_buffer [OF assms(1-4), of aac] by (simp add: write_media_buffer)
qed

theorem flv_playback_roundtrip_witness:
  "\<exists>h out. WriteHeader buffer_write [0x67, 0x64, 0, 0x1f] [0x68] [[0x12, 0x10]] [] = (None, h) \<and>
     write_media buffer_write [Video (demo_frame 40000000), Sound \<lparr>a_PTS = 1, a_Data = [7]\<rparr>] h = (None, out) \<and>
     flv_file out = Some (5, map tag_of (config_tags [0x67, 0x64, 0, 0x1f] [0x68] [0x12, 0x10]
       @ concat (map media_tag [Video (demo_frame 40000000), Sound \<lparr>a_PTS = 1, a_Data = [7]\<rparr>])))"
  using flv_playback_roundtrip [of "[0x67, 0x64, 0, 0x1f]" "[0x68]" "[0x12, 0x10]"
      "[Video (demo_frame 40000000), Sound \<lparr>a_PTS = 1, a_Data = [7]\<rparr>]"]
  by (simp add: media_tag_def demo_frame_def frame_body_def BigEndian_Uint32_def Let_def)

text \<open>
  The body of a video tag says what the frame said: key frame or not, the composition
  time as a 24-bit number, and the units of the access unit, each behind its own length.
\<close>

theorem frame_body_roundtrip:
  assumes "\<forall>n \<in> set (NALUs fr). length n < 2 ^ 32"
  shows "hd (frame_body fr) = (if KeyFrame fr then 0x17 else 0x27) \<and> frame_body fr ! 1 = 1 \<and>
         nat_be (take 3 (drop 2 (frame_body fr)))
           = nat (go_quot (int64 (f_PTS fr - f_DTS fr)) millisecond mod 2 ^ 24) \<and>
         avcc_units (length (frame_body fr)) (drop 5 (frame_body fr)) = Some (NALUs fr)"
proof -
  have "avcc_units (length (frame_body fr)) (drop 5 (frame_body fr)) = Some (NALUs fr)"
    using avcc_units_body [of "NALUs fr" "length (frame_body fr)"] assms
    by (simp add: frame_body_def Let_def)
  then show ?thesis
    using composition_bytes [of "go_quot (int64 (f_PTS fr - f_DTS fr)) millisecond"]
    by (simp add: frame_body_def Let_def del: nat_be.simps)
qed

theorem frame_body_roundtrip_witness:
  "avcc_units (length (frame_body (demo_frame 0))) (drop 5 (frame_body (demo_frame 0)))
     = Some [[0x65, 1, 2]]"
  using frame_body_roundtrip [of "demo_frame 0"] by (simp add: demo_frame_def)

text \<open>
  Parameter sets the muxer cannot describe are refused before a single byte is written,
  and these are the only ones refused.
\<close>

theorem WriteHeader_rejects:
  "(length sps < 4 \<or> pps = [] \<or> 0xffff < length sps \<or> 0xffff < length pps)
   = (WriteHeader wr sps pps aac w = (Some ErrInvalidH264Config, w))" (is "?bad = _")
proof (cases ?bad)
  case True
  then show ?thesis by (auto simp: WriteHeader_def)
next
  case False
  then have "fst (WriteHeader wr sps pps aac w) \<noteq> Some ErrInvalidH264Config"
    using writeTag_error [of wr]
    by (auto simp: WriteHeader_def Let_def split: prod.split option.split) (metis fst_conv)+
  with False show ?thesis by (cases "WriteHeader wr sps pps aac w") auto
qed

end
