(* ===== verification/Flv_Playback.thy ===== *)
theory Flv_Playback
  imports Flv_Muxer Go_Strings
begin

text \<open>
  \<open>ProxyStream\<close> of \<open>server/internal/api/handler/ingress.go\<close>: the HTTP-FLV playback. The loop
  is a function of what its \<open>select\<close> receives, in order; the writer is the one of the muxer.
\<close>

datatype select_event =
    ContextDone | FramesReceived "frame option" | AudioReceived "audio_frame option"

fun proxy_loop ::
  "'w writer \<Rightarrow> bytes \<Rightarrow> select_event list \<Rightarrow> bool \<Rightarrow> 'w \<Rightarrow> 'w" where
  "proxy_loop wr aac [] started w = w"
| "proxy_loop wr aac (ContextDone # evs) started w = w"
| "proxy_loop wr aac (FramesReceived None # evs) started w = w"
| "proxy_loop wr aac (FramesReceived (Some fr) # evs) started w =
     (if \<not> started \<and> \<not> KeyFrame fr then proxy_loop wr aac evs started w
      else case WriteFrame wr fr w of
             (Some err, w1) \<Rightarrow> w1
           | (None, w1) \<Rightarrow> proxy_loop wr aac evs True w1)"
| "proxy_loop wr aac (AudioReceived None # evs) started w = w"
| "proxy_loop wr aac (AudioReceived (Some au) # evs) started w =
     (if started \<and> length aac \<noteq> 0
      then case WriteAudio wr au w of
             (Some err, w1) \<Rightarrow> w1
           | (None, w1) \<Rightarrow> proxy_loop wr aac evs started w1
      else proxy_loop wr aac evs started w)"

text \<open>The handler: the status, the final state of the writer and of the registry.\<close>

definition ProxyStream ::
  "'w writer \<Rightarrow> string \<Rightarrow> select_event list \<Rightarrow> registry \<Rightarrow> 'w \<Rightarrow> (nat \<times> 'w \<times> registry) option" where
  "ProxyStream wr param evs r w = do {
     let streamKey = TrimSpace param;
     (res, r1) \<leftarrow> registry_Subscribe streamKey r;
     (case res of
        Inl err \<Rightarrow> Some (404, w, r1)
      | Inr c \<Rightarrow> do {
          s \<leftarrow> subs r1 c;
          let (err, w1) = WriteHeader wr (SPS s) (PPS s) [AAC s] w;
          let w2 = (if err \<noteq> None then w1 else proxy_loop wr (AAC s) evs False w1);
          r2 \<leftarrow> Subscription_Close c r1;
          Some (200, w2, r2)
        })
   }"

section \<open>What a playback shows\<close>

text \<open>The items that come out of the two channels until one of them is closed.\<close>

fun received :: "select_event list \<Rightarrow> media list" where
  "received [] = []"
| "received (ContextDone # evs) = []"
| "received (FramesReceived x # evs) = (case x of None \<Rightarrow> [] | Some fr \<Rightarrow> Video fr # received evs)"
| "received (AudioReceived x # evs) = (case x of None \<Rightarrow> [] | Some au \<Rightarrow> Sound au # received evs)"

fun is_key :: "media \<Rightarrow> bool" where
  "is_key (Video fr) = KeyFrame fr"
| "is_key (Sound au) = False"

fun is_video :: "media \<Rightarrow> bool" where
  "is_video (Video fr) = True"
| "is_video (Sound au) = False"

definition shown :: "bytes \<Rightarrow> media list \<Rightarrow> media list" where
  "shown aac ms =
     filter (\<lambda>m. is_video m \<or> aac \<noteq> []) (dropWhile (\<lambda>m. \<not> is_key m) ms)"

lemma write_one:
  "WriteFrame buffer_write fr w = (None, w @ tags_bytes (media_tag (Video fr)))"
  "WriteAudio buffer_write au w = (None, w @ tags_bytes (media_tag (Sound au)))"
  by (simp_all add: WriteFrame_def WriteAudio_def media_tag_def writeTag_buffer)

lemma proxy_loop_started:
  "proxy_loop buffer_write aac evs True w
     = w @ tags_bytes (concat (map media_tag (filter (\<lambda>m. is_video m \<or> aac \<noteq> []) (received evs))))"
  by (induction "buffer_write :: bytes writer" aac evs True w rule: proxy_loop.induct)
     (auto simp: write_one)

lemma proxy_loop_shown:
  "proxy_loop buffer_write aac evs False w
     = w @ tags_bytes (concat (map media_tag (shown aac (received evs))))"
  by (induction "buffer_write :: bytes writer" aac evs False w rule: proxy_loop.induct)
     (auto simp: write_one proxy_loop_started shown_def)

lemma shown_starts_with_key: "shown aac ms = m # rest \<Longrightarrow> is_key m"
  unfolding shown_def
proof (cases "dropWhile (\<lambda>m. \<not> is_key m) ms")
  case (Cons x xs)
  moreover from this have "is_key x" by (metis dropWhile_eq_Cons_conv)
  moreover from this have "is_video x" by (cases x) auto
  moreover assume "filter (\<lambda>m. is_video m \<or> aac \<noteq> []) (dropWhile (\<lambda>m. \<not> is_key m) ms) = m # rest"
  ultimately show ?thesis by simp
qed simp

section \<open>Properties\<close>

text \<open>
  C9: what an HTTP-FLV viewer of a live stream gets, for every order in which the two
  channels deliver: a status 200 and one FLV file with the parameter sets of the stream,
  then from the first key frame on every video frame and, when the stream has audio, every
  audio frame, in the order received; nothing before the first key frame. When it ends the
  viewer is no longer counted.
\<close>

theorem flv_playback:
  assumes "registry_reachable r" "map_of (streams r) (TrimSpace param) = Some a" "entries r a = Some e"
    and "nextID e \<notin> fst ` set (subscribers e)"
    and "4 \<le> length (e_sps e)" "length (e_sps e) \<le> 0xffff" "e_pps e \<noteq> []" "length (e_pps e) \<le> 0xffff"
    and "length (e_aac e) < 2 ^ 24 - 2"
    and "\<forall>m \<in> set (received evs). \<forall>t \<in> set (media_tag m). length (snd (snd t)) < 2 ^ 24"
  shows "\<exists>out r'. ProxyStream buffer_write param evs r [] = Some (200, out, r') \<and>
     flv_file out = Some (if e_aac e = [] then 1 else 5,
       map tag_of (config_tags (e_sps e) (e_pps e) (e_aac e)
                   @ concat (map media_tag (shown (e_aac e) (received evs))))) \<and>
     (\<forall>m rest. shown (e_aac e) (received evs) = m # rest \<longrightarrow> is_key m) \<and>
     registry_Get (TrimSpace param) now r' = registry_Get (TrimSpace param) now r"
proof -
  from subscribe_close_round [OF reachable_registry_inv [OF assms(1)] assms(2-4)]
  obtain r1 r2 s where r: "registry_Subscribe (TrimSpace param) r = Some (Inr (next_addr r), r1)"
    "subs r1 (next_addr r) = Some s" "fresh_sub a e s"
    "Subscription_Close (next_addr r) r1 = Some r2" "streams r2 = streams r"
    "entries r2 = (entries r)(a \<mapsto> e\<lparr>nextID := nextID e + 1\<rparr>)" by blast
  have s: "SPS s = e_sps e" "PPS s = e_pps e" "AAC s = e_aac e" using r(3) by (simp_all add: fresh_sub_def)
  let ?ts = "config_tags (e_sps e) (e_pps e) (e_aac e)
             @ concat (map media_tag (shown (e_aac e) (received evs)))"
  let ?out = "[0x46, 0x4c, 0x56, 1, if e_aac e = [] then 1 else 5, 0, 0, 0, 9, 0, 0, 0, 0] @ tags_bytes ?ts"
  have "set (shown (e_aac e) (received evs)) \<subseteq> set (received evs)"
    by (auto simp: shown_def dest: set_dropWhileD)
  then have "length (snd (snd t)) < 2 ^ 24" if "t \<in> set ?ts" for t
    using that assms(6,8-10) by (auto simp: config_tags_def split: if_splits)
  from flv_file_bytes [OF this] have "flv_file ?out = Some (if e_aac e = [] then 1 else 5, map tag_of ?ts)"
    by blast
  moreover have "ProxyStream buffer_write param evs r [] = Some (200, ?out, r2)"
    using r s WriteHeader_buffer [OF assms(5-8), of "e_aac e"]
    by (simp add: ProxyStream_def Let_def proxy_loop_shown)
  moreover have "registry_Get (TrimSpace param) now r2 = registry_Get (TrimSpace param) now r"
    using r assms(2,3) by (simp add: registry_Get_def entry_info_def Let_def)
  ultimately show ?thesis using shown_starts_with_key by blast
qed

theorem flv_playback_witness:
  "\<exists>out r'. ProxyStream buffer_write '' demo'' [AudioReceived (Some \<lparr>a_PTS = 0, a_Data = [1]\<rparr>),
        FramesReceived (Some (demo_frame 1000000)), ContextDone] demo_registry [] = Some (200, out, r') \<and>
     flv_file out = Some (1, map tag_of (config_tags [1, 2, 3, 4] [5] []
       @ media_tag (Video (demo_frame 1000000))))"
proof -
  obtain e where e: "entries demo_registry 0 = Some e" "subscribers e = [(0, 1)]" "nextID e = 1"
    "e_sps e = [1, 2, 3, 4]" "e_pps e = [5]" "e_aac e = []"
    by (simp add: demo_defs)
  have ts: "TrimSpace '' demo'' = ''demo''"
    by (simp add: TrimSpace_def trim_def trim_left_def trim_right_def is_space_def)
  have k: "map_of (streams demo_registry) (TrimSpace '' demo'') = Some 0" by (simp add: ts demo_simps)
  have f: "nextID e \<notin> fst ` set (subscribers e)" by (simp add: e)
  have kf: "KeyFrame (demo_frame 1000000)" by (simp add: demo_frame_def)
  have "\<forall>m \<in> set (received [AudioReceived (Some \<lparr>a_PTS = 0, a_Data = [1]\<rparr>),
        FramesReceived (Some (demo_frame 1000000)), ContextDone]).
      \<forall>t \<in> set (media_tag m). length (snd (snd t)) < 2 ^ 24"
    by (simp add: media_tag_def demo_frame_def frame_body_def BigEndian_Uint32_def Let_def)
  from flv_playback [OF demo_reachable k e(1) f _ _ _ _ _ this, of 0] e kf show ?thesis
    by (auto simp: shown_def)
qed

end
