(* ===== verification/Router.thy ===== *)
theory Router
  imports Room_Handler Friend_Handler Message_Handler Auth_Handler Admin_Handler Vlan_Handler
    Ingress_Handler File_Handler Web_Public Flv_Playback
begin

text \<open>
  \<open>server/internal/api/router.go\<close>: the routes of the server, which middleware each one goes through,
  and the state that the handlers share. Finding the route of a path is gin's: a request comes
  with its endpoint and the values of its parameters. A request is handled in one step.
\<close>

section \<open>Routes\<close>

datatype endpoint =
    Ping | IndexPage string | GetFile | Register | Login | GetMe | UpdateMe | UploadMyAvatar | SearchUser
  | CreateRoom | JoinRoomByCode | ListRooms | GetRoom | UpdateRoom | DeleteRoom | LeaveRoomById | KickFromRoom
  | OnlineInRoom | RoomMessages | CreateIngress | ListIngresses | DeleteIngress | JoinVlan | LeaveVlan | VlanPeers
  | MyFriends | PendingFriends | RequestFriend | AnswerFriend | UploadFile
  | AdminUsers | AdminToggle | AdminRooms | AdminDelete | AdminGetConfig | AdminSetConfig | AdminStats
  | Webhook | LiveStream | LiveRooms | PlayRTC | Connect | Uploads

datatype guard = Auth | Admin

definition grouped :: "string \<Rightarrow> guard list \<Rightarrow> (string \<times> string \<times> endpoint) list
    \<Rightarrow> (string \<times> string \<times> guard list \<times> endpoint) list" where
  "grouped prefix gs rs = map (\<lambda>(verb, path, e). (verb, prefix @ path, gs, e)) rs"

definition routes :: "(string \<times> string \<times> guard list \<times> endpoint) list" where
  "routes =
     grouped [] [] [(''GET'', ''/ping'', Ping), (''GET'', ''/uploads/*filepath'', Uploads), (''GET'', ''/'', IndexPage ''index.html''),
       (''GET'', ''/index.html'', IndexPage ''index.html''), (''GET'', ''/player.html'', IndexPage ''player.html''),
       (''GET'', ''/nexusroom-rtc.js'', IndexPage ''nexusroom-rtc.js''),
       (''GET'', ''/mpegts.min.js'', IndexPage ''mpegts.min.js'')] @
     grouped ''/api/v1'' [] [(''GET'', ''/files/:fileId'', GetFile), (''POST'', ''/auth/register'', Register),
       (''POST'', ''/auth/login'', Login)] @
     grouped ''/api/v1/users'' [Auth] [(''GET'', ''/me'', GetMe), (''PATCH'', ''/me'', UpdateMe),
       (''POST'', ''/me/avatar'', UploadMyAvatar), (''GET'', ''/search'', SearchUser)] @
     grouped ''/api/v1/rooms'' [Auth] [(''POST'', [], CreateRoom), (''POST'', ''/join'', JoinRoomByCode),
       (''GET'', [], ListRooms), (''GET'', ''/:roomId'', GetRoom), (''PATCH'', ''/:roomId'', UpdateRoom),
       (''DELETE'', ''/:roomId'', DeleteRoom), (''DELETE'', ''/:roomId/leave'', LeaveRoomById),
       (''DELETE'', ''/:roomId/members/:userId'', KickFromRoom), (''GET'', ''/:roomId/online-users'', OnlineInRoom),
       (''GET'', ''/:roomId/messages'', RoomMessages), (''POST'', ''/:roomId/ingresses'', CreateIngress),
       (''GET'', ''/:roomId/ingresses'', ListIngresses),
       (''DELETE'', ''/:roomId/ingresses/:ingressId'', DeleteIngress), (''POST'', ''/:roomId/vlan/join'', JoinVlan),
       (''DELETE'', ''/:roomId/vlan/leave'', LeaveVlan), (''GET'', ''/:roomId/vlan/peers'', VlanPeers)] @
     grouped ''/api/v1/friends'' [Auth] [(''GET'', [], MyFriends), (''GET'', ''/pending'', PendingFriends),
       (''POST'', ''/request'', RequestFriend), (''PATCH'', ''/request/:requestId'', AnswerFriend)] @
     grouped ''/api/v1/files'' [Auth] [(''POST'', ''/upload'', UploadFile)] @
     grouped ''/api/v1/admin'' [Auth, Admin] [(''GET'', ''/users'', AdminUsers), (''PATCH'', ''/users/:userId'', AdminToggle),
       (''GET'', ''/rooms'', AdminRooms), (''DELETE'', ''/rooms/:roomId'', AdminDelete),
       (''GET'', ''/config'', AdminGetConfig), (''PATCH'', ''/config'', AdminSetConfig), (''GET'', ''/stats'', AdminStats)] @
     grouped ''/api/v1'' [] [(''POST'', ''/webhook/qq'', Webhook), (''GET'', ''/stream/:streamKey'', LiveStream),
       (''GET'', ''/web/rooms/live'', LiveRooms), (''POST'', ''/web/rtc/play'', PlayRTC)] @
     grouped [] [] [(''GET'', ''/ws'', Connect)]"

definition guards :: "endpoint \<Rightarrow> guard list" where
  "guards e = (case find (\<lambda>(verb, path, gs, e'). e' = e) routes of Some (verb, path, gs, e') \<Rightarrow> gs | None \<Rightarrow> [])"

section \<open>The state of the server\<close>

record 'k server =
  s_db :: database
  s_hub :: hub
  s_wg :: "'k coordinator"
  s_streams :: registry
  s_cfg :: config
  s_files :: files

record request =
  rq_param :: "string \<Rightarrow> string"
  rq_query :: "string \<Rightarrow> string option"
  rq_header :: "string \<Rightarrow> string"
  rq_form :: "string \<Rightarrow> string"
  rq_host :: string
  rq_body :: "json option"
  rq_upload :: "uploaded option"

text \<open>What else the handlers take from the outside.\<close>

record ('k, 'w) world =
  w_env :: env
  w_keys :: "'k wgtypes"
  w_device :: "'k device"
  w_files :: file_os
  w_parse :: "string \<Rightarrow> json"
  w_write :: "string \<times> int \<Rightarrow> string option"
  w_rtc :: webrtc_answers
  w_sortStreams :: "web_stream list \<Rightarrow> web_stream list"
  w_sortRooms :: "web_room list \<Rightarrow> web_room list"
  w_number :: "rat \<Rightarrow> json"
  w_writer :: "'w writer"
  w_events :: "select_event list"
  w_out :: 'w
  w_asset :: "string \<Rightarrow> string option"
  w_upgrade :: "addr option"

datatype 'w reply = Answered response | Raw int json | FileServed string string | Streamed nat 'w
  | Asset string string | Upgraded | NoReply

section \<open>One request\<close>

definition query :: "request \<Rightarrow> string \<Rightarrow> string" where
  "query rq name = (case rq_query rq name of None \<Rightarrow> [] | Some q \<Rightarrow> q)"

definition on_db :: "response \<times> database \<Rightarrow> 'k server \<Rightarrow> ('w reply \<times> 'k server) option" where
  "on_db x s = (case x of (r, db) \<Rightarrow> Some (Answered r, s\<lparr>s_db := db\<rparr>))"

definition on_db_hub :: "(response \<times> database \<times> hub) option \<Rightarrow> 'k server \<Rightarrow> ('w reply \<times> 'k server) option" where
  "on_db_hub x s = map_option (\<lambda>(r, db, h). (Answered r, s\<lparr>s_db := db, s_hub := h\<rparr>)) x"

definition on_vlan ::
  "(response \<times> database \<times> 'k coordinator \<times> hub) option \<Rightarrow> 'k server \<Rightarrow> ('w reply \<times> 'k server) option" where
  "on_vlan x s = map_option (\<lambda>(r, db, c, h). (Answered r, s\<lparr>s_db := db, s_wg := c, s_hub := h\<rparr>)) x"

definition answered :: "response \<Rightarrow> 'k server \<Rightarrow> ('w reply \<times> 'k server) option" where
  "answered r s = Some (Answered r, s)"

text \<open>\<open>serveEmbeddedFile\<close>\<close>

definition serveEmbeddedFile :: "(string \<Rightarrow> string option) \<Rightarrow> string \<Rightarrow> 'w reply" where
  "serveEmbeddedFile files name =
     (case files name of None \<Rightarrow> Raw 404 JNull
      | Some content \<Rightarrow>
          Asset (if HasSuffix name ''.html'' then ''text/html; charset=utf-8''
                 else if HasSuffix name ''.js'' then ''application/javascript; charset=utf-8''
                 else ''application/octet-stream'') content)"

text \<open>
  \<open>router.Static\<close>: the file of \<open>directory\<close> at the path, cleaned as an absolute one. The type is that
  of the extension, or else sniffed. Paths of directories are not in the map of the files.
\<close>

definition StaticFile :: "file_os \<Rightarrow> string \<Rightarrow> string \<Rightarrow> files \<Rightarrow> 'w reply" where
  "StaticFile os directory path fs =
     (let full = filepath_Join [if directory = [] then ''.'' else directory, Clean (''/'' @ path)] in
      case fs full of None \<Rightarrow> Raw 404 JNull
      | Some content \<Rightarrow>
          if HasSuffix path ''/index.html'' then Raw 301 JNull
          else let type = fo_type os (Ext full) in
            FileServed full (if type = [] then fo_detect os (take 512 content) else type))"

text \<open>
  The WebSocket route: the client of an accepted connection, in the cell that the upgrade picks,
  is handed to \<open>Run\<close>.
\<close>

definition connect ::
  "env \<Rightarrow> auth_config \<Rightarrow> addr option \<Rightarrow> string \<Rightarrow> 'k server \<Rightarrow> ('w reply \<times> 'k server) option" where
  "connect w cfg upgrade tokenString s =
     (if tokenString = [] then answered (Error 40101) s
      else case ParseToken (e_jwt w) cfg (e_clock w 0) tokenString of
        Inl err \<Rightarrow> answered (Error 40101) s
      | Inr claims \<Rightarrow>
     (case upgrade of None \<Rightarrow> Some (NoReply, s)
      | Some a \<Rightarrow>
          let c = NewClient (cl_UserID claims) (cl_Username claims) (cl_Role claims)
          in map_option (\<lambda>h. (Upgraded, s\<lparr>s_hub := h\<rparr>))
               (Run_Register a ((s_hub s)\<lparr>h_cells := (h_cells (s_hub s))(a \<mapsto> c)\<rparr>))))"

definition handle ::
  "('k, 'w) world \<Rightarrow> gin_context \<Rightarrow> endpoint \<Rightarrow> request \<Rightarrow> 'k server \<Rightarrow> ('w reply \<times> 'k server) option" where
  "handle W cx e rq s =
     (let w = w_env W; db = s_db s; h = s_hub s; cfg = s_cfg s; auth = cf_Auth cfg; room = rq_param rq ''roomId'';
          body = rq_body rq; fwd = rq_header rq ''X-Forwarded-Host'' in
      case e of
        Ping \<Rightarrow> answered (Success (JObj [(''status'', JStr ''ok''), (''version'', JStr ''2.3.0'')])) s
      | IndexPage name \<Rightarrow> Some (serveEmbeddedFile (w_asset W) name, s)
      | Uploads \<Rightarrow> Some (StaticFile (w_files W) (st_Path (cf_Storage cfg)) (rq_param rq ''filepath'') (s_files s), s)
      | GetFile \<Rightarrow>
          (case FileHandler_GetByID w auth (w_files W) (cf_Storage cfg) cx (rq_param rq ''fileId'')
                  (query rq ''token'') (rq_header rq ''Authorization'') db (s_files s) of
             Inl r \<Rightarrow> answered r s | Inr (path, type) \<Rightarrow> Some (FileServed path type, s))
      | Register \<Rightarrow> on_db (AuthHandler_Register w auth body db) s
      | Login \<Rightarrow> on_db (AuthHandler_Login w auth body db) s
      | GetMe \<Rightarrow> answered (UserHandler_GetMe w cx db) s
      | UpdateMe \<Rightarrow> on_db (UserHandler_UpdateProfile w cx body db) s
      | UploadMyAvatar \<Rightarrow>
          (case UserHandler_UploadAvatar w (w_files W) (cf_Storage cfg) cx (rq_upload rq) db (s_files s) of
             (r, db1, fs1) \<Rightarrow> Some (Answered r, s\<lparr>s_db := db1, s_files := fs1\<rparr>))
      | SearchUser \<Rightarrow> answered (UserHandler_SearchByDisplayID w (query rq ''display_id'') db) s
      | CreateRoom \<Rightarrow> on_db (RoomHandler_Create w cx body db) s
      | JoinRoomByCode \<Rightarrow> on_db (RoomHandler_Join w cx body db) s
      | ListRooms \<Rightarrow> answered (RoomHandler_List w cx db) s
      | GetRoom \<Rightarrow> answered (RoomHandler_GetDetail w cx room db) s
      | UpdateRoom \<Rightarrow> on_db (RoomHandler_UpdateRoom w cx room body db) s
      | DeleteRoom \<Rightarrow> on_db_hub (Some (RoomHandler_Delete w cx room db h)) s
      | LeaveRoomById \<Rightarrow> on_db_hub (Some (RoomHandler_Leave w cx room db h)) s
      | KickFromRoom \<Rightarrow> on_db_hub (RoomHandler_KickMember w cx room (rq_param rq ''userId'') db h) s
      | OnlineInRoom \<Rightarrow> answered (RoomHandler_OnlineUsers w cx room db h) s
      | RoomMessages \<Rightarrow> answered (MessageHandler_GetMessages w (w_parse W) cx room (query rq ''after_id'')
          (query rq ''before_id'') (query rq ''limit'') db) s
      | CreateIngress \<Rightarrow> on_db_hub (IngressHandler_Create w cfg cx room fwd (rq_host rq) body db h) s
      | ListIngresses \<Rightarrow> answered (IngressHandler_List w cfg cx room fwd (rq_host rq) (s_streams s) db) s
      | DeleteIngress \<Rightarrow>
          on_db_hub (Some (IngressHandler_Delete w cx room (rq_param rq ''ingressId'') (s_streams s) db h)) s
      | JoinVlan \<Rightarrow> on_vlan (VLANHandler_Join w (w_keys W) (w_device W) cx room (rq_host rq) body db (s_wg s) h) s
      | LeaveVlan \<Rightarrow> on_vlan (VLANHandler_Leave w (w_keys W) (w_device W) cx room db (s_wg s) h) s
      | VlanPeers \<Rightarrow> answered (VLANHandler_Peers w cx room db) s
      | MyFriends \<Rightarrow> answered (FriendHandler_ListFriends w cx db h) s
      | PendingFriends \<Rightarrow> answered (FriendHandler_ListPendingRequests w cx db) s
      | RequestFriend \<Rightarrow> on_db_hub (FriendHandler_SendRequest w cx body db h) s
      | AnswerFriend \<Rightarrow> on_db_hub (FriendHandler_HandleRequest w cx (rq_param rq ''requestId'') body db h) s
      | UploadFile \<Rightarrow>
          (case FileHandler_Upload w (w_files W) (cf_Storage cfg) cx (rq_form rq ''room_id'') (rq_upload rq) db (s_files s) of
             (r, fs1) \<Rightarrow> Some (Answered r, s\<lparr>s_files := fs1\<rparr>))
      | AdminUsers \<Rightarrow> answered (AdminHandler_ListUsers w (rq_query rq ''page'') (rq_query rq ''page_size'') db) s
      | AdminToggle \<Rightarrow> on_db (AdminHandler_ToggleUser w (rq_param rq ''userId'') body db) s
      | AdminRooms \<Rightarrow> answered (AdminHandler_ListRooms w (rq_query rq ''page'') (rq_query rq ''page_size'') db) s
      | AdminDelete \<Rightarrow> on_db (AdminHandler_DeleteRoom w room db) s
      | AdminGetConfig \<Rightarrow> answered (AdminHandler_GetConfig cfg) s
      | AdminSetConfig \<Rightarrow>
          (case AdminHandler_UpdateConfig (w_write W) body cfg of (r, cfg1) \<Rightarrow> Some (Answered r, s\<lparr>s_cfg := cfg1\<rparr>))
      | AdminStats \<Rightarrow> answered (AdminHandler_GetStats w db h) s
      | Webhook \<Rightarrow> on_db_hub (Some (QQWebhook w auth (rq_header rq ''Authorization'') body db h)) s
      | LiveStream \<Rightarrow>
          map_option (\<lambda>(status, out, reg). (Streamed status out, s\<lparr>s_streams := reg\<rparr>))
            (ProxyStream (w_writer W) (rq_param rq ''streamKey'') (w_events W) (s_streams s) (w_out W))
      | LiveRooms \<Rightarrow> answered (ListLiveRooms w (w_sortStreams W) (w_sortRooms W) (w_number W) (s_streams s) db) s
      | PlayRTC \<Rightarrow>
          map_option (\<lambda>((status, j), reg). (Raw status j, s\<lparr>s_streams := reg\<rparr>))
            (RTCPlay (w_rtc W) (e_clock w 0) body (s_streams s))
      | Connect \<Rightarrow> connect w auth (w_upgrade W) (query rq ''token'') s)"

definition middleware ::
  "env \<Rightarrow> auth_config \<Rightarrow> guard \<Rightarrow> string \<Rightarrow> gin_context \<Rightarrow> response + gin_context" where
  "middleware w cfg g authHeader cx =
     (case g of Auth \<Rightarrow> AuthMiddleware (e_jwt w) cfg (e_clock w 0) authHeader cx | Admin \<Rightarrow> AdminMiddleware cx)"

fun run_guards ::
  "env \<Rightarrow> auth_config \<Rightarrow> guard list \<Rightarrow> string \<Rightarrow> gin_context \<Rightarrow> response + gin_context" where
  "run_guards w cfg [] authHeader cx = Inr cx"
| "run_guards w cfg (g # gs) authHeader cx =
     (case middleware w cfg g authHeader cx of Inl r \<Rightarrow> Inl r | Inr cx1 \<Rightarrow> run_guards w cfg gs authHeader cx1)"

text \<open>A panic is recovered by gin; here it is \<open>None\<close>.\<close>

definition serve ::
  "('k, 'w) world \<Rightarrow> endpoint \<Rightarrow> request \<Rightarrow> 'k server \<Rightarrow> ('w reply \<times> 'k server) option" where
  "serve W e rq s =
     (case run_guards (w_env W) (cf_Auth (s_cfg s)) (guards e) (rq_header rq ''Authorization'') no_context of
        Inl r \<Rightarrow> answered r s
      | Inr cx \<Rightarrow> handle W cx e rq s)"

section \<open>In front of the routes\<close>

text \<open>\<open>CORSMiddleware\<close>: the headers that every answer gets, and the status that ends a request.\<close>

definition CORSMiddleware :: "string \<Rightarrow> (string \<times> string) list \<times> int option" where
  "CORSMiddleware verb =
     ([(''Access-Control-Allow-Origin'', ''*''), (''Access-Control-Allow-Credentials'', ''true''),
       (''Access-Control-Allow-Headers'', ''Content-Type, Content-Length, Accept-Encoding, X-CSRF-Token, Authorization, accept, origin, Cache-Control, X-Requested-With''),
       (''Access-Control-Allow-Methods'', ''POST, OPTIONS, GET, PUT, PATCH, DELETE'')],
      if verb = ''OPTIONS'' then Some 204 else None)"

definition page_headers :: "string \<Rightarrow> (string \<times> string) list" where
  "page_headers path =
     (if path \<in> {''/'', ''/index.html'', ''/player.html'', ''/nexusroom-rtc.js'', ''/mpegts.min.js''}
      then [(''Cache-Control'', ''no-store, no-cache, must-revalidate, max-age=0''), (''Pragma'', ''no-cache''), (''Expires'', ''0'')]
      else [])"

text \<open>A request with its method and path, when gin has found the endpoint: the headers that the two add, the answer, the state.\<close>

definition front ::
  "('k, 'w) world \<Rightarrow> string \<Rightarrow> string \<Rightarrow> endpoint \<Rightarrow> request \<Rightarrow> 'k server
     \<Rightarrow> ((string \<times> string) list \<times> 'w reply \<times> 'k server) option" where
  "front W verb path e rq s =
     (case CORSMiddleware verb of
        (headers, Some status) \<Rightarrow> Some (headers, Raw status JNull, s)
      | (headers, None) \<Rightarrow> map_option (\<lambda>(reply, s1). (headers @ page_headers path, reply, s1)) (serve W e rq s))"

text \<open>A preflight request reaches no handler; any other is served as if the middleware were not there.\<close>

lemma front_serves:
  "verb = ''OPTIONS'' \<Longrightarrow> \<exists>headers. front W verb path e rq s = Some (headers, Raw 204 JNull, s)"
  "verb \<noteq> ''OPTIONS'' \<Longrightarrow> map_option snd (front W verb path e rq s) = serve W e rq s"
  by (auto simp: front_def CORSMiddleware_def option.map_comp o_def split_beta option.map_ident)

end
