(* ===== verification/Public_Ip.thy ===== *)
theory Public_Ip
  imports Go_Net
begin

text \<open>
  \<open>server/internal/network/publicip/resolver.go\<close>: which IPv4 address the server advertises.
  The STUN probe and the list of the interfaces are what the code takes as \<open>Options\<close>, so they
  are parameters here too; the callback is the list of its calls.
\<close>

type_synonym probe = "string \<Rightarrow> string + ip option"
type_synonym interfaces = "string + ip option list"

record resolver_options =
  ManualIP :: string
  Enabled :: bool
  RefreshInterval :: duration
  STUNServers :: "string list"

record resolver =
  manual :: string
  enabled :: bool
  refreshInterval :: duration
  stunServers :: "string list"
  current :: string

datatype resolver_error =
    NotIPv4 string | DiscoveryDisabled | NoServer | DiscoveryFailed "(string \<times> string option) list"

definition resolver_New :: "resolver_options \<Rightarrow> resolver_error + resolver" where
  "resolver_New opts =
     (let m = TrimSpace (ManualIP opts);
          mk = (\<lambda>m. \<lparr>manual = m, enabled = Enabled opts,
                 refreshInterval = (if RefreshInterval opts \<le> 0 then 5 * 60 * second
                                    else RefreshInterval opts),
                 stunServers = [] @ STUNServers opts, current = m\<rparr>)
      in if m \<noteq> [] then
           (case Option.bind (ParseIP m) IPv4_String of
              None \<Rightarrow> Inl (NotIPv4 m)
            | Some s \<Rightarrow> Inr (mk s))
         else Inr (mk m))"

definition Current :: "resolver \<Rightarrow> string" where
  "Current r = current r"

definition Automatic :: "resolver \<Rightarrow> bool" where
  "Automatic r \<longleftrightarrow> manual r = [] \<and> enabled r"

definition isPublicIPv4 :: "ip option \<Rightarrow> bool" where
  "isPublicIPv4 i =
     (case Option.bind i To4 of
        Some (V4 a b c d) \<Rightarrow>
          if \<not> IsGlobalUnicast a b c d \<or> IsPrivate a b \<or> IsLoopback a \<or> IsLinkLocalUnicast a b
          then False else \<not> (a = 100 \<and> b \<ge> 64 \<and> b \<le> 127)
      | _ \<Rightarrow> False)"

text \<open>The calls of \<open>onChange\<close> are appended to a list.\<close>

definition resolver_set :: "string \<Rightarrow> resolver \<times> (string \<times> string) list \<Rightarrow> resolver \<times> (string \<times> string) list" where
  "resolver_set value s =
     (let (r, calls) = s; previous = Current r
      in if previous = value then s
         else (r\<lparr>current := value\<rparr>, calls @ [(previous, value)]))"

definition To4_String :: "ip option \<Rightarrow> string" where
  "To4_String i = (case Option.bind i IPv4_String of Some s \<Rightarrow> s | None \<Rightarrow> [])"

fun probe_servers ::
  "probe \<Rightarrow> string list \<Rightarrow> (string \<times> string option) list \<Rightarrow> (string \<times> string option) list + string" where
  "probe_servers p [] failures = Inl failures"
| "probe_servers p (s # servers) failures =
     (let server = TrimSpace s
      in if server = [] then probe_servers p servers failures
         else case p server of
                Inl err \<Rightarrow> probe_servers p servers (failures @ [(server, Some err)])
              | Inr address \<Rightarrow>
                  if \<not> isPublicIPv4 address then probe_servers p servers (failures @ [(server, None)])
                  else Inr (To4_String address))"

definition Refresh ::
  "probe \<Rightarrow> interfaces \<Rightarrow> resolver \<times> (string \<times> string) list
     \<Rightarrow> resolver_error option \<times> resolver \<times> (string \<times> string) list" where
  "Refresh p ifs s =
     (let r = fst s
      in if manual r \<noteq> [] then (None, s)
         else if \<not> enabled r then (Some DiscoveryDisabled, s)
         else case (case ifs of Inl _ \<Rightarrow> None | Inr addresses \<Rightarrow> find isPublicIPv4 addresses) of
           Some address \<Rightarrow> (None, resolver_set (To4_String address) s)
         | None \<Rightarrow>
             (case probe_servers p (stunServers r) [] of
                Inr value \<Rightarrow> (None, resolver_set value s)
              | Inl failures \<Rightarrow>
                  if length failures = 0 then (Some NoServer, s)
                  else (Some (DiscoveryFailed failures), s)))"

text \<open>
  \<open>Run\<close>: one refresh per tick until the context is done; it stops at once when there is
  nothing to discover. The second component is what \<open>onError\<close> was called with.
\<close>

fun Run_ticks ::
  "(probe \<times> interfaces) list \<Rightarrow> resolver \<times> (string \<times> string) list
     \<Rightarrow> (resolver \<times> (string \<times> string) list) \<times> resolver_error list" where
  "Run_ticks [] s = (s, [])"
| "Run_ticks ((p, ifs) # ticks) s =
     (if \<not> Automatic (fst s) then (s, [])
      else case Refresh p ifs s of (err, s1) \<Rightarrow>
        (case Run_ticks ticks s1 of (s2, errs) \<Rightarrow>
           (s2, (case err of None \<Rightarrow> errs | Some e \<Rightarrow> e # errs))))"

datatype net_addr = IPNet "ip option" | IPAddr "ip option" | OtherAddr

definition interfaceIPv4s :: "string + net_addr list \<Rightarrow> interfaces" where
  "interfaceIPv4s addresses =
     (case addresses of Inl err \<Rightarrow> Inl err
      | Inr as \<Rightarrow> Inr (List.map_filter (\<lambda>address.
          (case (case address of IPNet i \<Rightarrow> i | IPAddr i \<Rightarrow> i | OtherAddr \<Rightarrow> None) of
             None \<Rightarrow> None
           | Some i \<Rightarrow> map_option Some (To4 i))) as))"

section \<open>Facts\<close>

text \<open>An advertised address: the dotted form of an address reachable from outside.\<close>

definition public_string :: "string \<Rightarrow> bool" where
  "public_string s \<longleftrightarrow> (\<exists>a b c d. s = dotted a b c d \<and> isPublicIPv4 (Some (V4 a b c d)))"

lemma isPublicIPv4_iff:
  "isPublicIPv4 i \<longleftrightarrow> (\<exists>j a b c d. i = Some j \<and> To4 j = Some (V4 a b c d) \<and>
     IsGlobalUnicast a b c d \<and> \<not> IsPrivate a b \<and> \<not> IsLoopback a \<and> \<not> IsLinkLocalUnicast a b \<and>
     \<not> (a = 100 \<and> 64 \<le> b \<and> b \<le> 127))"
proof (cases "Option.bind i To4")
  case None
  then have "\<not> isPublicIPv4 i" by (simp add: isPublicIPv4_def)
  with None show ?thesis by auto
next
  case (Some k)
  then obtain j where j: "i = Some j" "To4 j = Some k" by (auto simp: bind_eq_Some_conv)
  then show ?thesis by (cases k) (auto simp: isPublicIPv4_def)
qed

lemma public_To4_String: "isPublicIPv4 i \<Longrightarrow> public_string (To4_String i)"
proof -
  assume "isPublicIPv4 i"
  then obtain j a b c d where i: "i = Some j" "To4 j = Some (V4 a b c d)" "isPublicIPv4 (Some (V4 a b c d))"
    unfolding isPublicIPv4_iff by auto
  then have "To4_String i = dotted a b c d" by (simp add: To4_String_def IPv4_String_def)
  with i(3) show ?thesis unfolding public_string_def by blast
qed

lemma probe_servers_public: "probe_servers p ss fs = Inr v \<Longrightarrow> public_string v"
  by (induction p ss fs rule: probe_servers.induct)
     (auto simp: Let_def public_To4_String split: if_splits sum.splits)

text \<open>The calls of the callback: each starts where the previous one ended.\<close>

fun call_chain :: "string \<Rightarrow> (string \<times> string) list \<Rightarrow> string \<Rightarrow> bool" where
  "call_chain s [] t = (s = t)"
| "call_chain s ((p, v) # calls) t = (p = s \<and> p \<noteq> v \<and> public_string v \<and> call_chain v calls t)"

lemma call_chain_snoc:
  "call_chain s calls t \<Longrightarrow> t \<noteq> v \<Longrightarrow> public_string v \<Longrightarrow> call_chain s (calls @ [(t, v)]) v"
  by (induction s calls t rule: call_chain.induct) auto

lemma call_chain_end: "call_chain s calls t \<Longrightarrow> t = s \<or> public_string t"
  by (induction s calls t rule: call_chain.induct) auto

definition resolver_inv :: "string \<Rightarrow> resolver \<times> (string \<times> string) list \<Rightarrow> bool" where
  "resolver_inv m s \<longleftrightarrow> manual (fst s) = m \<and> call_chain m (snd s) (current (fst s)) \<and>
     (m \<noteq> [] \<longrightarrow> snd s = [] \<and> current (fst s) = m)"

lemma resolver_set_inv:
  "resolver_inv [] s \<Longrightarrow> public_string v \<Longrightarrow> resolver_inv [] (resolver_set v s)"
  by (auto simp: resolver_inv_def resolver_set_def Current_def Let_def split: prod.split
      intro: call_chain_snoc)

lemma Refresh_inv: "resolver_inv m s \<Longrightarrow> resolver_inv m (snd (Refresh p ifs s))"
proof (cases "m = []")
  case False
  assume "resolver_inv m s"
  with False show ?thesis by (auto simp: Refresh_def resolver_inv_def)
next
  case True
  assume inv: "resolver_inv m s"
  show ?thesis
  proof (cases "case ifs of Inl _ \<Rightarrow> None | Inr addresses \<Rightarrow> find isPublicIPv4 addresses")
    case None
    with inv True resolver_set_inv probe_servers_public show ?thesis
      by (auto simp: Refresh_def Let_def split: sum.split)
  next
    case (Some address)
    then have "isPublicIPv4 address" by (auto simp: find_Some_iff split: sum.splits)
    with Some inv True resolver_set_inv public_To4_String show ?thesis
      by (simp add: Refresh_def Let_def)
  qed
qed

lemma Refresh_failed: "fst (Refresh p ifs s) = Some err \<Longrightarrow> snd (Refresh p ifs s) = s"
  by (auto simp: Refresh_def Let_def split: if_splits option.splits sum.splits)

lemma Run_ticks_inv: "resolver_inv m s \<Longrightarrow> resolver_inv m (fst (Run_ticks ticks s))"
proof (induction ticks s rule: Run_ticks.induct)
  case (2 p ifs ticks s)
  show ?case
  proof (cases "Automatic (fst s)")
    case True
    obtain err s1 where r: "Refresh p ifs s = (err, s1)" by (cases "Refresh p ifs s")
    with Refresh_inv [OF "2.prems", of p ifs] have "resolver_inv m s1" by simp
    with "2.IH" [of err s1] True r show ?thesis
      by (auto split: prod.split)
  qed (use "2.prems" in simp)
qed simp

lemma New_inv:
  "resolver_New opts = Inr r \<Longrightarrow> resolver_inv (manual r) (r, []) \<and>
     (manual r = [] \<longleftrightarrow> TrimSpace (ManualIP opts) = [])"
  by (auto simp: resolver_New_def Let_def resolver_inv_def IPv4_String_iff bind_eq_Some_conv
      split: if_splits option.splits)

section \<open>Properties\<close>

text \<open>
  C30: which address is advertised. A configured address is normalised once and never
  replaced. Without one, at every moment the advertised address is empty or a public IPv4
  address (never private, loopback, link-local, multicast, broadcast or carrier-grade NAT),
  whatever the interfaces and the STUN servers answer; and the callback is told every change,
  each exactly once and in order.
\<close>

theorem advertised_address:
  assumes "resolver_New opts = Inr r0" "Run_ticks ticks (r0, []) = ((r, calls), errs)"
  shows "(TrimSpace (ManualIP opts) \<noteq> [] \<longrightarrow>
            calls = [] \<and> Current r = Current r0 \<and>
            ParseIP (Current r) = Option.bind (ParseIP (TrimSpace (ManualIP opts))) To4) \<and>
         (TrimSpace (ManualIP opts) = [] \<longrightarrow>
            (Current r = [] \<or> public_string (Current r)) \<and> call_chain [] calls (Current r))"
proof -
  have inv: "resolver_inv (manual r0) (r, calls)"
    using Run_ticks_inv [of "manual r0" "(r0, [])" ticks] New_inv [OF assms(1)] assms(2) by simp
  have c0: "Current r0 = manual r0"
    using New_inv [OF assms(1)] by (simp add: resolver_inv_def Current_def)
  have "ParseIP (manual r0) = Option.bind (ParseIP (TrimSpace (ManualIP opts))) To4"
    if "TrimSpace (ManualIP opts) \<noteq> []"
    using assms(1) that IPv4_String_parse
    by (auto simp: resolver_New_def Let_def bind_eq_Some_conv split: option.splits)
  moreover have "Current r = [] \<or> public_string (Current r)" if "manual r0 = []"
    using inv that call_chain_end [of "[]" calls "current r"] by (auto simp: resolver_inv_def Current_def)
  ultimately show ?thesis
    using inv c0 New_inv [OF assms(1)] by (auto simp: resolver_inv_def Current_def)
qed

definition demo_options :: resolver_options where
  "demo_options = \<lparr>ManualIP = '' '', Enabled = True, RefreshInterval = 0, STUNServers = [''stun.example'']\<rparr>"

theorem advertised_address_witness:
  "\<exists>r calls errs. Run_ticks
       [(\<lambda>_. Inl ''timeout'', Inr [Some (V4 10 0 0 1)]), (\<lambda>_. Inr (Some (V4 8 8 4 4)), Inl ''down'')]
       (\<lparr>manual = [], enabled = True, refreshInterval = 5 * 60 * second,
         stunServers = [''stun.example''], current = []\<rparr>, []) = ((r, calls), errs) \<and>
     public_string (Current r) \<and> call_chain [] calls (Current r) \<and> errs = [DiscoveryFailed [(''stun.example'', Some ''timeout'')]]"
proof -
  let ?r0 = "\<lparr>manual = [], enabled = True, refreshInterval = 5 * 60 * second,
         stunServers = [''stun.example''], current = []\<rparr>"
  let ?ticks = "[(\<lambda>_. Inl ''timeout'', Inr [Some (V4 10 0 0 1)]), (\<lambda>_. Inr (Some (V4 8 8 4 4)), Inl ''down'')]
      :: (probe \<times> interfaces) list"
  have ts: "TrimSpace '' '' = []" "TrimSpace ''stun.example'' = ''stun.example''"
    by (simp_all add: TrimSpace_def trim_def trim_left_def trim_right_def is_space_def)
  have new: "resolver_New demo_options = Inr ?r0"
    by (simp add: resolver_New_def demo_options_def ts Let_def)
  have pub: "isPublicIPv4 (Some (V4 8 8 4 4))" "\<not> isPublicIPv4 (Some (V4 10 0 0 1))"
    by (simp_all add: isPublicIPv4_def IsGlobalUnicast_def IsPrivate_def IsLoopback_def
        IsLinkLocalUnicast_def IsMulticast_def)
  have run: "Run_ticks ?ticks (?r0, []) = ((?r0\<lparr>current := dotted 8 8 4 4\<rparr>, [([], dotted 8 8 4 4)]),
      [DiscoveryFailed [(''stun.example'', Some ''timeout'')]])"
    by (simp add: Automatic_def Refresh_def ts pub resolver_set_def Current_def To4_String_def
        IPv4_String_def Let_def)
  have "TrimSpace (ManualIP demo_options) = []" by (simp add: demo_options_def ts)
  with advertised_address [OF new run] run show ?thesis by (auto simp: Current_def)
qed

end
