(* ===== verification/Turn_Server.thy ===== *)
theory Turn_Server
  imports Go_Net
begin

text \<open>
  \<open>server/internal/media/turnserver/server.go\<close>: the relay for clients that cannot reach the server
  directly. The protocol is that of a library (\<open>pion/turn\<close>), which the code configures.
\<close>

section \<open>Starting\<close>

record turn_options =
  to_Enabled :: bool
  to_PublicIP :: string
  to_PublicIPProvider :: "(unit \<Rightarrow> string) option"
  to_Port :: int
  to_Realm :: string
  to_Username :: string
  to_Password :: string
  to_RelayPortMin :: "16 word"
  to_RelayPortMax :: "16 word"

record relay_generator =
  rg_publicIP :: "(unit \<Rightarrow> string) option"
  rg_address :: string
  rg_minPort :: "16 word"
  rg_maxPort :: "16 word"

text \<open>What the library is given: the realm, the user and its key, and the relay.\<close>

record 'key turn_server =
  ts_Port :: int
  ts_Realm :: string
  ts_Username :: string
  ts_authKey :: 'key
  ts_relay :: relay_generator

datatype turn_error = NoCredentials | ListenFailed string | StartFailed string

definition turn_defaults :: "turn_options \<Rightarrow> turn_options" where
  "turn_defaults opts =
     (let o1 = (if to_Port opts = 0 then opts\<lparr>to_Port := 3478\<rparr> else opts);
          o2 = (if to_Realm o1 = [] then o1\<lparr>to_Realm := ''nexusroom''\<rparr> else o1)
      in if to_RelayPortMin o2 = 0 \<or> to_RelayPortMax o2 < to_RelayPortMin o2
         then o2\<lparr>to_RelayPortMin := 51000, to_RelayPortMax := 51100\<rparr> else o2)"

text \<open>\<open>Start\<close>: the server, or none when it is disabled; a listener that was opened for nothing is closed.\<close>

definition turn_Start ::
  "(int \<Rightarrow> string option) \<Rightarrow> (string \<Rightarrow> string \<Rightarrow> string \<Rightarrow> 'key) \<Rightarrow> ('key turn_server \<Rightarrow> string option) \<Rightarrow> turn_options
     \<Rightarrow> turn_error + 'key turn_server option" where
  "turn_Start ListenPacket GenerateAuthKey NewServer opts =
     (if \<not> to_Enabled opts then Inr None
      else if to_Username opts = [] \<or> to_Password opts = [] then Inl NoCredentials
      else
        let provider = (case to_PublicIPProvider opts of None \<Rightarrow> (let ip = to_PublicIP opts in (\<lambda>_. ip)) | Some p \<Rightarrow> p);
            o1 = turn_defaults opts
        in case ListenPacket (to_Port o1) of Some err \<Rightarrow> Inl (ListenFailed err)
           | None \<Rightarrow>
               let server = \<lparr>ts_Port = to_Port o1, ts_Realm = to_Realm o1, ts_Username = to_Username o1,
                     ts_authKey = GenerateAuthKey (to_Username o1) (to_Realm o1) (to_Password o1),
                     ts_relay = \<lparr>rg_publicIP = Some provider, rg_address = ''0.0.0.0'',
                       rg_minPort = to_RelayPortMin o1, rg_maxPort = to_RelayPortMax o1\<rparr>\<rparr>
               in (case NewServer server of Some err \<Rightarrow> Inl (StartFailed err) | None \<Rightarrow> Inr (Some server)))"

text \<open>The callback that gives the key of a user.\<close>

definition AuthHandler :: "'key turn_server \<Rightarrow> string \<Rightarrow> 'key option" where
  "AuthHandler s username = (if username \<noteq> ts_Username s then None else Some (ts_authKey s))"

text \<open>
  \<open>Close\<close> on a nil server does nothing; the library closes the listener with its server. A server that \<open>Start\<close> gave
  has both.
\<close>

datatype turn_close = CloseServer | CloseListener

definition turn_Close :: "(bool \<times> bool) option \<Rightarrow> turn_close option" where
  "turn_Close s =
     (case s of None \<Rightarrow> None
      | Some (hasServer, hasListener) \<Rightarrow>
          if hasServer then Some CloseServer else if hasListener then Some CloseListener else None)"

section \<open>Relays\<close>

datatype relay_error = NoProvider | InvalidRelay | NoPublicAddress | GeneratorError string | TCPUnsupported

definition Validate :: "relay_generator \<Rightarrow> relay_error option" where
  "Validate g =
     (if rg_publicIP g = None then Some NoProvider
      else if rg_address g = [] \<or> rg_minPort g = 0 \<or> rg_maxPort g < rg_minPort g then Some InvalidRelay
      else None)"

text \<open>
  \<open>generate\<close> is the generator of the library, for the address to announce, the address to bind
  and the range of ports. Calling a nil provider panics: \<open>None\<close>.
\<close>

definition AllocatePacketConn ::
  "(ip \<Rightarrow> string \<Rightarrow> 16 word \<Rightarrow> 16 word \<Rightarrow> string + 'conn) \<Rightarrow> relay_generator \<Rightarrow> (relay_error + 'conn) option" where
  "AllocatePacketConn generate g =
     (case rg_publicIP g of None \<Rightarrow> None
      | Some provider \<Rightarrow> Some
          (case Option.bind (ParseIP (provider ())) To4 of None \<Rightarrow> Inl NoPublicAddress
           | Some publicIP \<Rightarrow>
               (case generate publicIP (rg_address g) (rg_minPort g) (rg_maxPort g) of
                  Inl err \<Rightarrow> Inl (GeneratorError err) | Inr c \<Rightarrow> Inr c)))"

definition AllocateConn :: "relay_generator \<Rightarrow> relay_error + 'conn" where
  "AllocateConn g = Inl TCPUnsupported"

section \<open>Facts\<close>

text \<open>A started server always has a usable relay and credentials.\<close>

lemma turn_Start_valid:
  assumes "turn_Start listen auth new opts = Inr (Some s)"
  shows "Validate (ts_relay s) = None" "ts_Realm s \<noteq> []" "ts_Port s \<noteq> 0" "ts_Username s = to_Username opts"
    "to_Enabled opts" "to_Username opts \<noteq> []" "to_Password opts \<noteq> []"
  using assms by (auto simp: turn_Start_def turn_defaults_def Validate_def Let_def split: if_splits option.splits)

end
