(* ===== verification/Aac_Adts.thy ===== *)
theory Aac_Adts
  imports Flv_Muxer
begin

text \<open>
  \<open>server/internal/media/audiotranscode/aac_opus.go\<close>: the AAC units of a publisher are framed
  with ADTS headers and piped into the transcoder process, whose RTP packets come back as
  Opus packets. The child process, the sockets and the RTP parser (\<open>pion/rtp\<close>) are parameters;
  the bytes the code computes are modelled as they are. The lemmas show that an ADTS
  demultiplexer gets back the configuration and the units, and that the loop of \<open>writeAll\<close>
  ends and never loses or repeats a byte.
\<close>

section \<open>The configuration\<close>

record adtsConfig =
  profile :: byte
  sampleRateIndex :: byte
  channelConfig :: byte

datatype aac_error =
    InvalidConfig | UnsupportedObjectType byte | UnsupportedSampleRate byte
  | UnsupportedChannels byte | UnitTooLarge nat | ErrClosedPipe | ErrShortWrite
  | EmptyPath | OsError string

definition parseAudioSpecificConfig :: "bytes \<Rightarrow> aac_error + adtsConfig" where
  "parseAudioSpecificConfig config =
     (if length config < 2 then Inl InvalidConfig
      else
        let audioObjectType = drop_bit 3 (config ! 0) AND 0x1f
        in if audioObjectType < 1 \<or> audioObjectType > 4
           then Inl (UnsupportedObjectType audioObjectType)
           else
             let rate = push_bit 1 (config ! 0 AND 0x07) OR drop_bit 7 (config ! 1)
             in if rate > 12 then Inl (UnsupportedSampleRate rate)
                else
                  let channels = drop_bit 3 (config ! 1) AND 0x0f
                  in if channels = 0 \<or> channels > 7 then Inl (UnsupportedChannels channels)
                     else Inr \<lparr>profile = audioObjectType - 1, sampleRateIndex = rate,
                               channelConfig = channels\<rparr>)"

definition adts_header :: "adtsConfig \<Rightarrow> nat \<Rightarrow> aac_error + bytes" where
  "adts_header c payloadSize =
     (let frameLength = payloadSize + 7
      in if frameLength > 0x1fff then Inl (UnitTooLarge payloadSize)
         else Inr [0xff, 0xf1,
           push_bit 6 (profile c) OR push_bit 2 (sampleRateIndex c) OR drop_bit 2 (channelConfig c),
           push_bit 6 (channelConfig c AND 0x03) OR of_nat (drop_bit 11 frameLength),
           of_nat (drop_bit 3 frameLength),
           of_nat (push_bit 5 (frameLength AND 0x07)) OR 0x1f,
           0xfc])"

section \<open>Writing to the pipe\<close>

text \<open>
  \<open>Write\<close> of an \<open>io.Writer\<close>: how many bytes were taken and an error or none. Go slices
  \<open>data[written:]\<close>, which panics (the outer \<open>None\<close>) when the count is out of range.
\<close>

type_synonym 'w pipe = "bytes \<Rightarrow> 'w \<Rightarrow> (int \<times> aac_error option) \<times> 'w"

function writeAll :: "'w pipe \<Rightarrow> bytes \<Rightarrow> 'w \<Rightarrow> (aac_error option \<times> 'w) option" where
  "writeAll wr data w =
     (if data = [] then Some (None, w)
      else case wr data w of ((written, err), w1) \<Rightarrow>
        (case err of Some e \<Rightarrow> Some (Some e, w1)
         | None \<Rightarrow>
             if written = 0 then Some (Some ErrShortWrite, w1)
             else if written < 0 \<or> int (length data) < written then None
             else writeAll wr (drop (nat written) data) w1))"
  by auto
termination
  by (relation "measure (\<lambda>(wr, data, w). length data)") auto

declare writeAll.simps [simp del]

record 'w aac_to_opus =
  stdin :: 'w
  stdinOpen :: bool
  connOpen :: bool
  contextLive :: bool
  adts :: adtsConfig
  closeDone :: bool
  stopped :: bool

definition AACToOpus_Write ::
  "'w pipe \<Rightarrow> bytes \<Rightarrow> 'w aac_to_opus \<Rightarrow> (aac_error option \<times> 'w aac_to_opus) option" where
  "AACToOpus_Write wr accessUnit t =
     (if length accessUnit = 0 then Some (None, t)
      else if stopped t then Some (Some ErrClosedPipe, t)
      else case adts_header (adts t) (length accessUnit) of
        Inl err \<Rightarrow> Some (Some err, t)
      | Inr header \<Rightarrow>
          (case writeAll wr header (stdin t) of None \<Rightarrow> None
           | Some (Some err, w) \<Rightarrow> Some (Some err, t\<lparr>stdin := w\<rparr>)
           | Some (None, w) \<Rightarrow>
               map_option (\<lambda>(err, w'). (err, t\<lparr>stdin := w'\<rparr>)) (writeAll wr accessUnit w)))"

text \<open>\<open>Close\<close> runs its body once; waiting for the process to end changes no state.\<close>

definition AACToOpus_Close :: "'w aac_to_opus \<Rightarrow> 'w aac_to_opus" where
  "AACToOpus_Close t =
     (if closeDone t then t
      else t\<lparr>closeDone := True, stopped := True, stdinOpen := False, contextLive := False,
             connOpen := False\<rparr>)"

text \<open>
  The start of the transcoder. The operating system's answers are the fields of \<open>os\<close>; the
  second component says what is still open afterwards (connection, context, stdin).
\<close>

record 'w os_answers =
  LookPath :: "string \<Rightarrow> string option"
  ListenUDP :: "string option"
  StdinPipe :: "string + 'w"
  CommandStart :: "string option"

record resources =
  res_conn :: bool
  res_context :: bool
  res_stdin :: bool

definition StartAACToOpus ::
  "'w os_answers \<Rightarrow> string \<Rightarrow> bytes \<Rightarrow> (aac_error + 'w aac_to_opus) \<times> resources" where
  "StartAACToOpus os ffmpegPath audioSpecificConfig =
     (let none = \<lparr>res_conn = False, res_context = False, res_stdin = False\<rparr>
      in if ffmpegPath = [] then (Inl EmptyPath, none)
      else case parseAudioSpecificConfig audioSpecificConfig of Inl err \<Rightarrow> (Inl err, none)
      | Inr cfg \<Rightarrow>
      (case LookPath os ffmpegPath of Some err \<Rightarrow> (Inl (OsError err), none)
       | None \<Rightarrow>
      (case ListenUDP os of Some err \<Rightarrow> (Inl (OsError err), none)
       | None \<Rightarrow>
         let opened = none\<lparr>res_conn := True, res_context := True\<rparr>
         in case StdinPipe os of
              Inl err \<Rightarrow> (Inl (OsError err), opened\<lparr>res_context := False, res_conn := False\<rparr>)
            | Inr pipe \<Rightarrow>
                let piped = opened\<lparr>res_stdin := True\<rparr>
                in case CommandStart os of
                     Some err \<Rightarrow> (Inl (OsError err), piped\<lparr>res_context := False, res_stdin := False,
                                                          res_conn := False\<rparr>)
                   | None \<Rightarrow> (Inr \<lparr>stdin = pipe, stdinOpen = True, connOpen = True, contextLive = True,
                                    adts = cfg, closeDone = False, stopped = False\<rparr>, piped))))"

section \<open>The packets that come back\<close>

record opus_packet =
  op_SequenceNumber :: "16 word"
  op_Timestamp :: "32 word"
  op_Marker :: bool
  op_Payload :: bytes

text \<open>
  \<open>reads\<close> are the results of \<open>ReadFromUDP\<close> in order (an error ends the loop; a datagram is
  cut at the 2048 bytes of the buffer), \<open>unmarshal\<close> is the RTP parser.
\<close>

fun readRTP ::
  "(bytes \<Rightarrow> opus_packet option) \<Rightarrow> (string + bytes) list \<Rightarrow> opus_packet list \<times> string option" where
  "readRTP unmarshal [] = ([], None)"
| "readRTP unmarshal (Inl err # reads) = ([], Some err)"
| "readRTP unmarshal (Inr datagram # reads) =
     (case unmarshal (take 2048 datagram) of
        None \<Rightarrow> readRTP unmarshal reads
      | Some p \<Rightarrow>
          if length (op_Payload p) = 0 then readRTP unmarshal reads
          else case readRTP unmarshal reads of (ps, err) \<Rightarrow> (p # ps, err))"

section \<open>An ADTS demultiplexer\<close>

definition adts_decode :: "bytes \<Rightarrow> (adtsConfig \<times> nat) option" where
  "adts_decode h =
     (if length h < 7 \<or> h ! 0 \<noteq> 0xff \<or> h ! 1 AND 0xf6 \<noteq> 0xf0 then None
      else Some (\<lparr>profile = drop_bit 6 (h ! 2),
                  sampleRateIndex = drop_bit 2 (h ! 2) AND 0x0f,
                  channelConfig = push_bit 2 (h ! 2 AND 1) OR drop_bit 6 (h ! 3)\<rparr>,
             unat (h ! 3 AND 3) * 2 ^ 11 + unat (h ! 4) * 2 ^ 3 + unat (drop_bit 5 (h ! 5))))"

fun adts_units :: "nat \<Rightarrow> bytes \<Rightarrow> (adtsConfig \<times> bytes) list option" where
  "adts_units 0 bs = (if bs = [] then Some [] else None)"
| "adts_units (Suc fuel) bs =
     (if bs = [] then Some []
      else case adts_decode bs of None \<Rightarrow> None
         | Some (c, n) \<Rightarrow>
             if n < 7 \<or> length bs < n then None
             else map_option ((#) (c, take (n - 7) (drop 7 bs))) (adts_units fuel (drop n bs)))"

definition adts_ok :: "adtsConfig \<Rightarrow> bool" where
  "adts_ok c \<longleftrightarrow> profile c < 4 \<and> sampleRateIndex c \<le> 12 \<and> 0 < channelConfig c \<and> channelConfig c \<le> 7"

lemma parse_ok:
  assumes "parseAudioSpecificConfig config = Inr c" shows "adts_ok c"
proof -
  define t :: byte where "t = drop_bit 3 (config ! 0) AND 0x1f"
  have "t \<noteq> 0 \<Longrightarrow> t \<le> 4 \<Longrightarrow> t - 1 < 4" by unat_arith
  with assms show ?thesis
    by (auto simp: parseAudioSpecificConfig_def adts_ok_def Let_def t_def [symmetric] not_less
        word_gt_0 split: if_splits)
qed

lemma bit_less:
  assumes "(w :: byte) < 2 ^ k" "bit w n" shows "n < k"
proof (rule ccontr)
  assume "\<not> n < k"
  have "take_bit k w = w"
    using less_mask_eq [OF assms(1)] by (simp add: take_bit_eq_mask)
  then show False
    using assms(2) \<open>\<not> n < k\<close> by (metis bit_take_bit_iff)
qed

lemma header_config_bits:
  fixes p s c hi :: byte
  assumes "p < 4" "s \<le> 12" "c \<le> 7" "hi < 4"
  shows "drop_bit 6 (push_bit 6 p OR push_bit 2 s OR drop_bit 2 c) = p"
    and "drop_bit 2 (push_bit 6 p OR push_bit 2 s OR drop_bit 2 c) AND 0x0f = s"
    and "push_bit 2 ((push_bit 6 p OR push_bit 2 s OR drop_bit 2 c) AND 1)
           OR drop_bit 6 (push_bit 6 (c AND 0x03) OR hi) = c"
    and "(push_bit 6 (c AND 0x03) OR hi) AND 3 = hi"
proof -
  have p: "bit p n \<Longrightarrow> n < 2" for n using bit_less [of p 2 n] assms(1) by simp
  have s: "bit s n \<Longrightarrow> n < 4" for n
    using bit_less [of s 4 n] le_less_trans [OF assms(2), of 16] by simp
  have c: "bit c n \<Longrightarrow> n < 3" for n
    using bit_less [of c 3 n] le_less_trans [OF assms(3), of 8] by simp
  have h: "bit hi n \<Longrightarrow> n < 2" for n using bit_less [of hi 2 n] assms(4) by simp
  have m: "(0x0f :: byte) = mask 4" "(3 :: byte) = mask 2" "(1 :: byte) = mask 1"
    by (simp_all add: mask_eq_exp_minus_1)
  show "drop_bit 6 (push_bit 6 p OR push_bit 2 s OR drop_bit 2 c) = p"
    by (rule bit_word_eqI) (auto simp: bit_simps dest: p s c)
  show "drop_bit 2 (push_bit 6 p OR push_bit 2 s OR drop_bit 2 c) AND 0x0f = s"
    unfolding m by (rule bit_word_eqI) (auto simp: bit_simps dest: p s c)
  show "push_bit 2 ((push_bit 6 p OR push_bit 2 s OR drop_bit 2 c) AND 1)
           OR drop_bit 6 (push_bit 6 (c AND 0x03) OR hi) = c"
  proof (rule bit_word_eqI)
    fix n assume "n < LENGTH(8)"
    then consider "n = 0" | "n = 1" | "n = 2" | "3 \<le> n" "n < 8" by fastforce
    then show "bit (push_bit 2 ((push_bit 6 p OR push_bit 2 s OR drop_bit 2 c) AND 1)
           OR drop_bit 6 (push_bit 6 (c AND 0x03) OR hi)) n = bit c n"
      unfolding bit_or_iff bit_push_bit_iff bit_and_iff bit_drop_bit_eq o_def bit_1_iff m(2)
        bit_mask_iff
      by cases (auto dest: c h)
  qed
  show "(push_bit 6 (c AND 0x03) OR hi) AND 3 = hi"
    unfolding m by (rule bit_word_eqI) (auto simp: bit_simps dest: p s c h)
qed

lemma nat_less_8: "k < 8 \<Longrightarrow> k \<in> {0, 1, 2, 3, 4, 5, 6, 7}" for k :: nat
  by auto

lemma low_length_bits:
  assumes "(k :: nat) < 8"
  shows "unat (drop_bit 5 (of_nat (push_bit 5 k) OR 0x1f :: byte)) = k"
  using nat_less_8 [OF assms] by auto

lemma length_bits:
  assumes "L \<le> 0x1fff" "(hi :: byte) = of_nat (drop_bit 11 L)"
  shows "hi < 4"
    and "unat hi * 2 ^ 11 + unat (of_nat (drop_bit 3 L) :: byte) * 2 ^ 3
           + unat (drop_bit 5 (of_nat (push_bit 5 (L AND 0x07)) OR 0x1f :: byte)) = L"
proof -
  have top: "L div 2048 < 4" using assms(1) by simp
  then have hi: "unat hi = L div 2048"
    by (simp add: assms(2) drop_bit_eq_div unat_of_nat)
  from top hi show "hi < 4" by (simp add: word_less_nat_alt)
  have "L AND 0x07 = L mod 8"
    using take_bit_eq_mask [of 3 L] by (simp add: mask_eq_exp_minus_1 take_bit_eq_mod)
  then have low: "unat (drop_bit 5 (of_nat (push_bit 5 (L AND 0x07)) OR 0x1f :: byte)) = L mod 8"
    using low_length_bits [of "L mod 8"] by simp
  have mid: "unat (of_nat (drop_bit 3 L) :: byte) = L div 8 mod 256"
    by (simp add: drop_bit_eq_div unat_of_nat)
  have "L div 8 = 256 * (L div 8 div 256) + L div 8 mod 256" by simp
  moreover have "L div 8 div 256 = L div 2048" by (simp add: div_mult2_eq [symmetric])
  ultimately have "L div 2048 * 2048 + L div 8 mod 256 * 8 + L mod 8 = L"
    using div_mult_mod_eq [of L 8] by linarith
  then show "unat hi * 2 ^ 11 + unat (of_nat (drop_bit 3 L) :: byte) * 2 ^ 3
           + unat (drop_bit 5 (of_nat (push_bit 5 (L AND 0x07)) OR 0x1f :: byte)) = L"
    unfolding hi low mid by simp
qed

lemma adts_header_decode:
  assumes "adts_ok c" "adts_header c n = Inr h"
  shows "length h = 7" "adts_decode (h @ rest) = Some (c, n + 7)"
proof -
  from assms(2) have n: "n + 7 \<le> 0x1fff" and h: "h = [0xff, 0xf1,
           push_bit 6 (profile c) OR push_bit 2 (sampleRateIndex c) OR drop_bit 2 (channelConfig c),
           push_bit 6 (channelConfig c AND 0x03) OR of_nat (drop_bit 11 (n + 7)),
           of_nat (drop_bit 3 (n + 7)), of_nat (push_bit 5 ((n + 7) AND 0x07)) OR 0x1f, 0xfc]"
    by (auto simp: adts_header_def Let_def split: if_splits)
  from assms(1) have c: "profile c < 4" "sampleRateIndex c \<le> 12" "channelConfig c \<le> 7"
    by (simp_all add: adts_ok_def)
  note L = length_bits [OF n refl]
  note B = header_config_bits [OF c L(1)]
  show "length h = 7" by (simp add: h)
  have nth: "(h @ rest) ! 0 = 0xff" "(h @ rest) ! 1 = 0xf1" "(h @ rest) ! 2 = h ! 2"
    "(h @ rest) ! 3 = h ! 3" "(h @ rest) ! 4 = h ! 4" "(h @ rest) ! 5 = h ! 5"
    by (simp_all add: h)
  have h2: "h ! 2 = push_bit 6 (profile c) OR push_bit 2 (sampleRateIndex c) OR drop_bit 2 (channelConfig c)"
    and h3: "h ! 3 = push_bit 6 (channelConfig c AND 0x03) OR of_nat (drop_bit 11 (n + 7))"
    and h4: "h ! 4 = of_nat (drop_bit 3 (n + 7))"
    and h5: "h ! 5 = of_nat (push_bit 5 ((n + 7) AND 0x07)) OR 0x1f"
    by (simp_all add: h)
  have "\<not> length (h @ rest) < 7" by (simp add: h)
  moreover have "(0xf1 :: byte) AND 0xf6 = 0xf0" by simp
  ultimately show "adts_decode (h @ rest) = Some (c, n + 7)"
    unfolding adts_decode_def nth h2 h3 h4 h5 B L(2) by simp
qed

section \<open>The loop of writeAll\<close>

text \<open>A pipe that tells the truth: the count is in range and that many bytes were taken.\<close>

definition truthful :: "'w pipe \<Rightarrow> ('w \<Rightarrow> bytes) \<Rightarrow> bool" where
  "truthful wr out \<longleftrightarrow> (\<forall>d w. case wr d w of ((n, err), w') \<Rightarrow>
     0 \<le> n \<and> n \<le> int (length d) \<and> out w' = out w @ take (nat n) d)"

text \<open>A pipe that, moreover, always takes something.\<close>

definition accepting :: "'w pipe \<Rightarrow> bool" where
  "accepting wr \<longleftrightarrow> (\<forall>d w. d \<noteq> [] \<longrightarrow> (case wr d w of ((n, err), w') \<Rightarrow> 0 < n \<and> err = None))"

lemma writeAll_truthful:
  assumes "truthful wr out"
  shows "\<exists>err w' k. writeAll wr data w = Some (err, w') \<and> k \<le> length data \<and>
           out w' = out w @ take k data \<and> (err = None \<longrightarrow> k = length data) \<and>
           (accepting wr \<longrightarrow> err = None)"
  using assms
proof (induction wr data w rule: writeAll.induct)
  case (1 wr data w)
  obtain n err w1 where step: "wr data w = ((n, err), w1)" by (metis surj_pair)
  with "1.prems" have t: "0 \<le> n" "n \<le> int (length data)" "out w1 = out w @ take (nat n) data"
    unfolding truthful_def by (metis (mono_tags, lifting) case_prod_conv)+
  have acc: "accepting wr \<Longrightarrow> data \<noteq> [] \<Longrightarrow> 0 < n \<and> err = None"
    using step unfolding accepting_def by (metis (mono_tags, lifting) case_prod_conv)
  consider "data = []" | e where "data \<noteq> []" "err = Some e" | "data \<noteq> []" "err = None" "n = 0"
    | "data \<noteq> []" "err = None" "0 < n"
    using t(1) by (cases err) force+
  then show ?case
  proof cases
    case 1
    then show ?thesis by (auto simp: writeAll.simps)
  next
    case 2
    with acc have "\<not> accepting wr" by auto
    with 2 t step show ?thesis by (auto simp: writeAll.simps intro!: exI [of _ "nat n"])
  next
    case 3
    with acc have "\<not> accepting wr" by auto
    with 3 t step show ?thesis by (auto simp: writeAll.simps)
  next
    case 4
    then have eq: "writeAll wr data w = writeAll wr (drop (nat n) data) w1"
      using step t(2) by (subst writeAll.simps) simp
    from "1.IH" [OF 4(1) step [symmetric] refl 4(2)] 4(3) t(2) "1.prems"
    obtain err' w' k where r: "writeAll wr (drop (nat n) data) w1 = Some (err', w')"
      "k \<le> length data - nat n" "out w' = out w1 @ take k (drop (nat n) data)"
      "err' = None \<longrightarrow> k = length data - nat n" "accepting wr \<longrightarrow> err' = None"
      by auto
    have "out w' = out w @ take (nat n + k) data" by (simp add: r(3) t(3) take_add)
    moreover have "nat n \<le> length data" using t(2) by simp
    ultimately show ?thesis using r(1,2,4,5) eq by (intro exI [of _ err'] exI [of _ w'] exI [of _ "nat n + k"]) auto
  qed
qed

section \<open>Properties\<close>

text \<open>
  C39: whatever sizes the pipe takes at a time, \<open>writeAll\<close> ends without a panic, what the
  pipe received is a prefix of the data, and a nil error means all of it, exactly once.
\<close>

theorem writeAll_prefix:
  assumes "truthful wr out"
  shows "\<exists>err w' k. writeAll wr data w = Some (err, w') \<and> k \<le> length data \<and>
           out w' = out w @ take k data \<and> (err = None \<longrightarrow> k = length data)"
  using writeAll_truthful [OF assms, of data w] by blast

definition halting_pipe :: "bytes pipe" where
  "halting_pipe d w = (if length w < 4 then ((int (min 3 (length d)), None), w @ take 3 d)
                       else ((0, Some (OsError ''EPIPE'')), w))"

lemma halting_pipe_truthful: "truthful halting_pipe (\<lambda>w. w)"
  by (auto simp: truthful_def halting_pipe_def min_def)

theorem writeAll_prefix_witness:
  "(\<exists>err w' k. writeAll halting_pipe [1, 2, 3, 4, 5, 6, 7] [] = Some (err, w') \<and> k \<le> length [1 :: byte, 2, 3, 4, 5, 6, 7] \<and>
     w' = take k [1, 2, 3, 4, 5, 6, 7] \<and> (err = None \<longrightarrow> k = length [1 :: byte, 2, 3, 4, 5, 6, 7])) \<and>
   writeAll halting_pipe [1, 2, 3, 4, 5, 6, 7] [] = Some (Some (OsError ''EPIPE''), [1, 2, 3, 4, 5, 6])"
  using writeAll_prefix [OF halting_pipe_truthful, of "[1, 2, 3, 4, 5, 6, 7]" "[]"]
  by (simp add: writeAll.simps [of halting_pipe] halting_pipe_def del: One_nat_def)

lemma AACToOpus_Write_total:
  assumes "truthful wr out"
  shows "\<exists>err t'. AACToOpus_Write wr u t = Some (err, t')"
proof -
  have "\<exists>err w'. writeAll wr data w = Some (err, w')" for data w
    using writeAll_truthful [OF assms, of data w] by blast
  then show ?thesis
    unfolding AACToOpus_Write_def by (auto split: sum.split option.split) (metis option.distinct(1))
qed

text \<open>The units written one after the other.\<close>

fun write_units ::
  "'w pipe \<Rightarrow> bytes list \<Rightarrow> 'w aac_to_opus \<Rightarrow> (aac_error option list \<times> 'w aac_to_opus) option" where
  "write_units wr [] t = Some ([], t)"
| "write_units wr (u # us) t =
     (case AACToOpus_Write wr u t of None \<Rightarrow> None
      | Some (err, t1) \<Rightarrow> map_option (\<lambda>(errs, t2). (err # errs, t2)) (write_units wr us t1))"

definition adts_bytes :: "adtsConfig \<Rightarrow> bytes \<Rightarrow> bytes" where
  "adts_bytes c u = (case adts_header c (length u) of Inl _ \<Rightarrow> [] | Inr h \<Rightarrow> h @ u)"

lemma AACToOpus_Write_ok:
  assumes "truthful wr out" "accepting wr" "\<not> stopped t" "u \<noteq> []" "length u + 7 \<le> 0x1fff"
  shows "\<exists>w. AACToOpus_Write wr u t = Some (None, t\<lparr>stdin := w\<rparr>) \<and>
           out w = out (stdin t) @ adts_bytes (adts t) u"
proof -
  from assms(5) obtain h where h: "adts_header (adts t) (length u) = Inr h"
    by (auto simp: adts_header_def Let_def)
  from writeAll_truthful [OF assms(1), of h "stdin t"] assms(2) obtain w1 where
    1: "writeAll wr h (stdin t) = Some (None, w1)" "out w1 = out (stdin t) @ h" by auto
  from writeAll_truthful [OF assms(1), of u w1] assms(2) obtain w2 where
    2: "writeAll wr u w1 = Some (None, w2)" "out w2 = out w1 @ u" by auto
  show ?thesis
    using assms(3,4) h 1 2 by (intro exI [of _ w2]) (simp add: AACToOpus_Write_def adts_bytes_def)
qed

lemma write_units_ok:
  assumes "truthful wr out" "accepting wr" "\<not> stopped t"
    "\<forall>u \<in> set us. u \<noteq> [] \<and> length u + 7 \<le> 0x1fff"
  shows "\<exists>w. write_units wr us t = Some (replicate (length us) None, t\<lparr>stdin := w\<rparr>) \<and>
           out w = out (stdin t) @ concat (map (adts_bytes (adts t)) us)"
  using assms(3,4)
proof (induction us arbitrary: t)
  case Nil
  then show ?case by (auto intro: exI [of _ "stdin t"])
next
  case (Cons u us)
  with AACToOpus_Write_ok [OF assms(1,2), of t u] obtain w where
    w: "AACToOpus_Write wr u t = Some (None, t\<lparr>stdin := w\<rparr>)"
       "out w = out (stdin t) @ adts_bytes (adts t) u" by auto
  from Cons.IH [of "t\<lparr>stdin := w\<rparr>"] Cons.prems obtain w' where
    "write_units wr us (t\<lparr>stdin := w\<rparr>) = Some (replicate (length us) None, t\<lparr>stdin := w'\<rparr>)"
    "out w' = out w @ concat (map (adts_bytes (adts t)) us)" by auto
  with w show ?case by auto
qed

lemma adts_units_bytes:
  assumes "adts_ok c" "\<forall>u \<in> set us. u \<noteq> [] \<and> length u + 7 \<le> 0x1fff"
    "length (concat (map (adts_bytes c) us)) \<le> fuel"
  shows "adts_units fuel (concat (map (adts_bytes c) us)) = Some (map (Pair c) us)"
  using assms(2,3)
proof (induction us arbitrary: fuel)
  case Nil
  then show ?case by (cases fuel) simp_all
next
  case (Cons u us)
  from Cons.prems obtain h where h: "adts_header c (length u) = Inr h"
    by (auto simp: adts_header_def Let_def)
  let ?rest = "concat (map (adts_bytes c) us)"
  have hb: "length h = 7" "\<And>r. adts_decode (h @ r) = Some (c, length u + 7)"
    using adts_header_decode [OF assms(1) h] by blast+
  have b: "adts_bytes c u = h @ u" by (simp add: adts_bytes_def h)
  from Cons.prems(2) hb(1) obtain f where f: "fuel = Suc f" "length ?rest \<le> f"
    by (cases fuel) (auto simp: b)
  have "h \<noteq> []" using hb(1) by auto
  with Cons.IH [OF _ f(2)] Cons.prems(1) show ?case
    by (simp add: f(1) b hb)
qed

text \<open>
  C19: whatever AAC configuration is accepted and however the pipe splits the writes, the
  byte stream that reaches the transcoder is one an ADTS demultiplexer takes apart into
  exactly the access units written, in order, each with the publisher's profile, sample rate
  and channel count.
\<close>

theorem adts_stream_roundtrip:
  assumes "parseAudioSpecificConfig config = Inr (adts t)" "\<not> stopped t"
    and "truthful wr out" "accepting wr" "out (stdin t) = []"
    and "\<forall>u \<in> set us. u \<noteq> [] \<and> length u + 7 \<le> 0x1fff"
  shows "\<exists>t'. write_units wr us t = Some (replicate (length us) None, t') \<and>
           adts_units (length (out (stdin t'))) (out (stdin t')) = Some (map (Pair (adts t)) us)"
proof -
  from write_units_ok [OF assms(3,4,2,6)] obtain w where
    "write_units wr us t = Some (replicate (length us) None, t\<lparr>stdin := w\<rparr>)"
    "out w = concat (map (adts_bytes (adts t)) us)" using assms(5) by auto
  with adts_units_bytes [OF parse_ok [OF assms(1)] assms(6)] show ?thesis by auto
qed

definition small_pipe :: "bytes pipe" where
  "small_pipe d w = ((int (min 3 (length d)), None), w @ take 3 d)"

lemma small_pipe_ok: "truthful small_pipe (\<lambda>w. w)" "accepting small_pipe"
  by (auto simp: truthful_def accepting_def small_pipe_def min_def)

theorem adts_stream_roundtrip_witness:
  "\<exists>t'. write_units small_pipe [[1, 2, 3, 4], [5]]
       \<lparr>stdin = [], stdinOpen = True, connOpen = True, contextLive = True,
        adts = \<lparr>profile = 1, sampleRateIndex = 4, channelConfig = 2\<rparr>,
        closeDone = False, stopped = False\<rparr> = Some ([None, None], t') \<and>
     adts_units (length (stdin t')) (stdin t')
       = Some (map (Pair \<lparr>profile = 1, sampleRateIndex = 4, channelConfig = 2\<rparr>) [[1, 2, 3, 4], [5]])"
proof -
  have "parseAudioSpecificConfig [0x12, 0x10]
      = Inr \<lparr>profile = 1, sampleRateIndex = 4, channelConfig = 2\<rparr>"
    by (simp add: parseAudioSpecificConfig_def)
  with small_pipe_ok show ?thesis
    using adts_stream_roundtrip [of "[0x12, 0x10]"
      "\<lparr>stdin = [], stdinOpen = True, connOpen = True, contextLive = True,
        adts = \<lparr>profile = 1, sampleRateIndex = 4, channelConfig = 2\<rparr>,
        closeDone = False, stopped = False\<rparr>" small_pipe "\<lambda>w. w" "[[1, 2, 3, 4], [5]]"]
    by (simp add: numeral_2_eq_2)
qed

text \<open>The other branches of \<open>Write\<close>, and the life cycle of the transcoder.\<close>

lemma AACToOpus_Write_branches:
  "AACToOpus_Write wr [] t = Some (None, t)"
  "u \<noteq> [] \<Longrightarrow> stopped t \<Longrightarrow> AACToOpus_Write wr u t = Some (Some ErrClosedPipe, t)"
  "0x1fff < length u + 7 \<Longrightarrow> \<not> stopped t \<Longrightarrow>
     AACToOpus_Write wr u t = Some (Some (UnitTooLarge (length u)), t)"
  by (auto simp: AACToOpus_Write_def adts_header_def Let_def)

lemma AACToOpus_Close_idem:
  "closeDone t \<longrightarrow> stopped t \<Longrightarrow> stopped (AACToOpus_Close t) \<and> AACToOpus_Close (AACToOpus_Close t) = AACToOpus_Close t"
  by (simp add: AACToOpus_Close_def)

lemma StartAACToOpus_no_leak:
  "case StartAACToOpus os path config of (r, res) \<Rightarrow>
     (case r of Inl _ \<Rightarrow> \<not> res_conn res \<and> \<not> res_context res \<and> \<not> res_stdin res
      | Inr t \<Rightarrow> res_conn res \<and> res_context res \<and> res_stdin res \<and>
                 parseAudioSpecificConfig config = Inr (adts t) \<and> \<not> stopped t)"
  by (auto simp: StartAACToOpus_def Let_def split: sum.split option.split)

end
