(* ===== verification/Rtmp_Ingest.thy ===== *)
theory Rtmp_Ingest
  imports Go_Strings Aac_Adts
begin

text \<open>
  \<open>server/internal/media/rtmp/server.go\<close>: the RTMP ingest. What the library \<open>gortmplib\<close> says
  about a connection (handshake, path, tracks, the data it reads) is the record
  \<open>connection\<close>; the admission of a publisher and the calls to the registry are modelled
  statement by statement. The lemmas show that a refused connection touches nothing and that
  an accepted one is announced, published and withdrawn in this order.
\<close>

section \<open>Checks\<close>

fun valid_chars :: "string \<Rightarrow> bool" where
  "valid_chars [] = True"
| "valid_chars (c # cs) =
     ((is_letter c \<or> is_digit c \<or> c = CHR ''-'' \<or> c = CHR ''_'') \<and> valid_chars cs)"

definition validStreamKey :: "string \<Rightarrow> bool" where
  "validStreamKey streamKey =
     (if length streamKey < 8 \<or> length streamKey > 128 then False else valid_chars streamKey)"

fun isKeyFrame :: "bytes list \<Rightarrow> bool" where
  "isKeyFrame [] = False"
| "isKeyFrame (nalu # accessUnit) =
     (if length nalu > 0 \<and> nalu ! 0 AND 0x1f = 5 then True else isKeyFrame accessUnit)"

section \<open>A connection\<close>

datatype track = H264 bytes bytes | MPEG4Audio "bytes option" | OtherCodec

datatype media_data =
    DataH264 duration duration "bytes list"
  | DataMPEG4Audio duration bytes

record connection =
  Initialize :: "string option"
  Accept :: "string option"
  Publish :: bool
  URL_Path :: "string option"
  ReaderInitialize :: "string option"
  Tracks :: "track list"
  Data :: "media_data list"
  ReadError :: string

datatype rtmp_error =
    LibraryError string | PlaybackRefused | MissingStreamKey | BadPublishPath
  | InvalidStreamKey | Unauthorized | AlreadyPublishing | NoH264

record admitted =
  ad_key :: string
  ad_sps :: bytes
  ad_pps :: bytes
  ad_audioTrack :: bool
  ad_audioConfig :: bytes

text \<open>The loop over the tracks: the last H.264 track and the last usable AAC track win.\<close>

fun select_tracks ::
  "track list \<Rightarrow> (bytes \<times> bytes) option \<Rightarrow> bytes option \<Rightarrow> (bytes \<times> bytes) option \<times> bytes option" where
  "select_tracks [] h264 audio = (h264, audio)"
| "select_tracks (H264 sps pps # ts) h264 audio = select_tracks ts (Some (sps, pps)) audio"
| "select_tracks (MPEG4Audio (Some encoded) # ts) h264 audio = select_tracks ts h264 (Some encoded)"
| "select_tracks (MPEG4Audio None # ts) h264 audio = select_tracks ts h264 audio"
| "select_tracks (OtherCodec # ts) h264 audio = select_tracks ts h264 audio"

text \<open>
  The part of \<open>handleInner\<close> up to the call of \<open>Start\<close>: \<open>authorize\<close> may be nil, \<open>active\<close> is
  what \<open>registry.Get\<close> answers.
\<close>

definition rtmp_stream_key :: "connection \<Rightarrow> rtmp_error + string" where
  "rtmp_stream_key conn =
     (case Initialize conn of Some err \<Rightarrow> Inl (LibraryError err) | None \<Rightarrow>
      case Accept conn of Some err \<Rightarrow> Inl (LibraryError err) | None \<Rightarrow>
      if \<not> Publish conn then Inl PlaybackRefused
      else case URL_Path conn of None \<Rightarrow> Inl MissingStreamKey | Some path \<Rightarrow>
        let trimmed = trim (\<lambda>c. c = CHR ''/'') path
        in if trimmed = [] then Inl MissingStreamKey
           else let parts = Split (CHR ''/'') trimmed
                in if length parts \<noteq> 2 \<or> parts ! 0 \<noteq> ''live'' then Inl BadPublishPath
                   else let streamKey = parts ! 1
                        in if \<not> validStreamKey streamKey then Inl InvalidStreamKey
                           else Inr streamKey)"

definition rtmp_admit ::
  "(string \<Rightarrow> bool) option \<Rightarrow> (string \<Rightarrow> bool) \<Rightarrow> connection \<Rightarrow> rtmp_error + admitted" where
  "rtmp_admit authorize active conn =
     (case rtmp_stream_key conn of Inl err \<Rightarrow> Inl err | Inr streamKey \<Rightarrow>
      if (case authorize of None \<Rightarrow> False | Some f \<Rightarrow> \<not> f streamKey) then Inl Unauthorized
      else if active streamKey then Inl AlreadyPublishing
      else case ReaderInitialize conn of Some err \<Rightarrow> Inl (LibraryError err) | None \<Rightarrow>
        (case select_tracks (Tracks conn) None None of
           (None, _) \<Rightarrow> Inl NoH264
         | (Some (sps, pps), audio) \<Rightarrow>
             Inr \<lparr>ad_key = streamKey, ad_sps = sps, ad_pps = pps,
                  ad_audioTrack = (audio \<noteq> None),
                  ad_audioConfig = (case audio of None \<Rightarrow> [] | Some c \<Rightarrow> c)\<rparr>))"

section \<open>A publication\<close>

text \<open>
  The state of a publication: the registry, the transcoder (none when there is no AAC track
  or it could not be started) and the calls of \<open>onState\<close>. \<open>None\<close> is a panic.
\<close>

record 'w ingest =
  in_registry :: registry
  in_transcoder :: "'w aac_to_opus option"
  in_states :: "(string \<times> bool) list"

definition on_registry :: "(registry \<Rightarrow> ((stream_error + unit) \<times> registry) option) \<Rightarrow> 'w ingest \<Rightarrow> 'w ingest option" where
  "on_registry f s = map_option (\<lambda>(_, r). s\<lparr>in_registry := r\<rparr>) (f (in_registry s))"

definition begin_publication ::
  "'w os_answers \<Rightarrow> string \<Rightarrow> int \<Rightarrow> admitted \<Rightarrow> registry \<Rightarrow> 'w ingest option" where
  "begin_publication os ffmpegPath now ad r = do {
     r1 \<leftarrow> registry_Start (ad_key ad) (ad_sps ad) (ad_pps ad) [ad_audioConfig ad] now r;
     let s = \<lparr>in_registry = r1, in_transcoder = None, in_states = []\<rparr>;
     s1 \<leftarrow> (if length (ad_audioConfig ad) \<noteq> 0
            then case fst (StartAACToOpus os ffmpegPath (ad_audioConfig ad)) of
                   Inl _ \<Rightarrow> Some s
                 | Inr transcoder \<Rightarrow>
                     on_registry (registry_SetOpusAvailable (ad_key ad) True)
                       (s\<lparr>in_transcoder := Some transcoder\<rparr>)
            else Some s);
     Some (s1\<lparr>in_states := in_states s1 @ [(ad_key ad, True)]\<rparr>)
   }"

definition on_data ::
  "'w pipe \<Rightarrow> admitted \<Rightarrow> media_data \<Rightarrow> 'w ingest \<Rightarrow> 'w ingest option" where
  "on_data wr ad d s =
     (case d of
        DataH264 pts dts accessUnit \<Rightarrow>
          on_registry (registry_Publish (ad_key ad)
            \<lparr>f_PTS = pts, f_DTS = dts, NALUs = accessUnit, KeyFrame = isKeyFrame accessUnit\<rparr>) s
      | DataMPEG4Audio pts accessUnit \<Rightarrow>
          if \<not> ad_audioTrack ad then Some s
          else do {
            s1 \<leftarrow> on_registry (registry_PublishAudio (ad_key ad) \<lparr>a_PTS = pts, a_Data = accessUnit\<rparr>) s;
            (case in_transcoder s1 of None \<Rightarrow> Some s1
             | Some t \<Rightarrow> do {
                 (err, t') \<leftarrow> AACToOpus_Write wr accessUnit t;
                 let s2 = s1\<lparr>in_transcoder := Some t'\<rparr>;
                 (if err \<noteq> None then on_registry (registry_SetOpusAvailable (ad_key ad) False) s2
                  else Some s2)
               })
          })"

text \<open>The deferred function.\<close>

definition end_publication :: "admitted \<Rightarrow> 'w ingest \<Rightarrow> 'w ingest option" where
  "end_publication ad s = do {
     let s1 = s\<lparr>in_transcoder := map_option AACToOpus_Close (in_transcoder s)\<rparr>;
     r \<leftarrow> registry_Stop (ad_key ad) (in_registry s1);
     Some (s1\<lparr>in_registry := r, in_states := in_states s1 @ [(ad_key ad, False)]\<rparr>)
   }"

definition handleInner ::
  "'w os_answers \<Rightarrow> 'w pipe \<Rightarrow> (string \<Rightarrow> bool) option \<Rightarrow> string \<Rightarrow> int \<Rightarrow> connection
     \<Rightarrow> registry \<Rightarrow> (rtmp_error \<times> 'w ingest) option" where
  "handleInner os wr authorize ffmpegPath now conn r =
     (case rtmp_admit authorize (\<lambda>k. registry_Get k now r \<noteq> None) conn of
        Inl err \<Rightarrow> Some (err, \<lparr>in_registry = r, in_transcoder = None, in_states = []\<rparr>)
      | Inr ad \<Rightarrow> do {
          s \<leftarrow> begin_publication os ffmpegPath now ad r;
          s1 \<leftarrow> for_each (on_data wr ad) (Data conn) s;
          s2 \<leftarrow> end_publication ad s1;
          Some (LibraryError (ReadError conn), s2)
        })"

section \<open>The listener\<close>

record rtmp_server =
  listener :: bool
  listening :: bool
  srv_closed :: bool

definition rtmp_New :: rtmp_server where
  "rtmp_New = \<lparr>listener = False, listening = False, srv_closed = False\<rparr>"

definition rtmp_Listen :: "rtmp_server \<Rightarrow> rtmp_server" where
  "rtmp_Listen s = s\<lparr>listener := True, listening := True\<rparr>"

definition rtmp_Close :: "rtmp_server \<Rightarrow> rtmp_server" where
  "rtmp_Close s =
     (let s1 = s\<lparr>srv_closed := True\<rparr>
      in if listener s1 then s1\<lparr>listening := False\<rparr> else s1)"

text \<open>What \<open>Run\<close> returns when \<open>Accept\<close> fails: nothing after a close, else the error.\<close>

definition accept_failed :: "bool \<Rightarrow> string \<Rightarrow> rtmp_server \<Rightarrow> string option" where
  "accept_failed isErrClosed err s = (if srv_closed s \<or> isErrClosed then None else Some err)"

text \<open>
  \<open>Run\<close>: the connections that \<open>handle\<close> gets, and what \<open>Run\<close> returns (\<open>None\<close> while it runs). Every answer of \<open>Accept\<close>
  comes with the server as \<open>Close\<close>, called by somebody else, has left it.
\<close>

datatype 'c accepted = AcceptedConn 'c | AcceptFailed bool string

fun accept_loop :: "(rtmp_server \<times> 'c accepted) list \<Rightarrow> 'c list \<times> string option option" where
  "accept_loop [] = ([], None)"
| "accept_loop ((s, AcceptedConn conn) # rest) = (case accept_loop rest of (conns, res) \<Rightarrow> (conn # conns, res))"
| "accept_loop ((s, AcceptFailed isErrClosed err) # rest) = ([], Some (accept_failed isErrClosed err s))"

definition rtmp_Run ::
  "string option \<Rightarrow> (rtmp_server \<times> 'c accepted) list \<Rightarrow> rtmp_server \<Rightarrow> rtmp_server \<times> 'c list \<times> string option option" where
  "rtmp_Run listenErr accepts s =
     (case listenErr of Some err \<Rightarrow> (s, [], Some (Some (''listen RTMP on: '' @ err)))
      | None \<Rightarrow> (rtmp_Listen s, accept_loop accepts))"

text \<open>Connections are handled in the order of their arrival until \<open>Accept\<close> fails, and a server that was closed ends without an error.\<close>

lemma accept_loop_conns: "fst (accept_loop (map (\<lambda>(s, c). (s, AcceptedConn c)) scs @ rest)) = map snd scs @ fst (accept_loop rest)"
  by (induction scs) (auto split: prod.splits)

lemma accept_loop_closed:
  assumes "snd (accept_loop accepts) = Some (Some err)"
  shows "\<exists>s. (s, AcceptFailed False err) \<in> set accepts \<and> \<not> srv_closed s"
  using assms by (induction accepts rule: accept_loop.induct) (auto simp: accept_failed_def split: prod.splits if_splits)

lemma accept_after_close: "accept_failed b err (rtmp_Close s) = None"
  by (simp add: accept_failed_def rtmp_Close_def Let_def)

section \<open>Facts\<close>

lemma isKeyFrame_iff: "isKeyFrame au \<longleftrightarrow> (\<exists>nalu \<in> set au. nalu \<noteq> [] \<and> nalu ! 0 AND 0x1f = 5)"
  by (induction au) auto

lemma valid_chars_iff:
  "valid_chars cs \<longleftrightarrow> (\<forall>c \<in> set cs. is_letter c \<or> is_digit c \<or> c = CHR ''-'' \<or> c = CHR ''_'')"
  by (induction cs) auto

lemma validStreamKey_iff:
  "validStreamKey k \<longleftrightarrow> 8 \<le> length k \<and> length k \<le> 128 \<and>
     (\<forall>c \<in> set k. is_letter c \<or> is_digit c \<or> c = CHR ''-'' \<or> c = CHR ''_'')"
  by (auto simp: validStreamKey_def valid_chars_iff)

lemma rtmp_admitD:
  assumes "rtmp_admit authorize active conn = Inr ad"
  shows "rtmp_stream_key conn = Inr (ad_key ad)" "validStreamKey (ad_key ad)" "\<not> active (ad_key ad)"
    "\<forall>f. authorize = Some f \<longrightarrow> f (ad_key ad)"
proof -
  show k: "rtmp_stream_key conn = Inr (ad_key ad)"
    using assms by (auto simp: rtmp_admit_def split: sum.splits if_splits option.splits prod.splits)
  then show "validStreamKey (ad_key ad)"
    by (auto simp: rtmp_stream_key_def Let_def split: sum.splits if_splits option.splits)
  show "\<not> active (ad_key ad)" "\<forall>f. authorize = Some f \<longrightarrow> f (ad_key ad)"
    using assms by (auto simp: rtmp_admit_def split: sum.splits if_splits option.splits prod.splits)
qed

text \<open>What every step of a publication keeps.\<close>

definition ingest_ok :: "(string \<times> bool) list \<Rightarrow> 'w ingest \<Rightarrow> bool" where
  "ingest_ok st s \<longleftrightarrow> registry_inv (in_registry s) \<and> in_states s = st"

lemma on_registry_ok:
  assumes "ingest_ok st s" "\<exists>res r'. f (in_registry s) = Some (res, r') \<and> registry_inv r'"
  shows "\<exists>s'. on_registry f s = Some s' \<and> ingest_ok st s' \<and> in_transcoder s' = in_transcoder s"
  using assms by (auto simp: on_registry_def ingest_ok_def)

lemma on_registry_calls:
  assumes "ingest_ok st s"
  shows "\<exists>s'. on_registry (registry_Publish key fr) s = Some s' \<and> ingest_ok st s'"
    and "\<exists>s'. on_registry (registry_PublishAudio key au) s = Some s' \<and> ingest_ok st s'"
    and "\<exists>s'. on_registry (registry_SetOpusAvailable key b) s = Some s' \<and> ingest_ok st s'"
proof -
  from assms have "registry_inv (in_registry s)" by (simp add: ingest_ok_def)
  note ok = registry_lookup_ok [OF this, of key]
  show "\<exists>s'. on_registry (registry_Publish key fr) s = Some s' \<and> ingest_ok st s'"
    using on_registry_ok [OF assms, of "registry_Publish key fr"] ok(1) by blast
  show "\<exists>s'. on_registry (registry_PublishAudio key au) s = Some s' \<and> ingest_ok st s'"
    using on_registry_ok [OF assms, of "registry_PublishAudio key au"] ok(2) by blast
  show "\<exists>s'. on_registry (registry_SetOpusAvailable key b) s = Some s' \<and> ingest_ok st s'"
    using on_registry_ok [OF assms, of "registry_SetOpusAvailable key b"] ok(4) by blast
qed

lemma on_data_ok:
  assumes "truthful wr out" "ingest_ok st s"
  shows "\<exists>s'. on_data wr ad d s = Some s' \<and> ingest_ok st s'"
proof (cases d)
  case (DataH264 pts dts au)
  with on_registry_calls(1) [OF assms(2)] show ?thesis
    by (simp add: on_data_def)
next
  case (DataMPEG4Audio pts au)
  show ?thesis
  proof (cases "ad_audioTrack ad")
    case True
    from on_registry_calls(2) [OF assms(2)] obtain s1 where
      s1: "on_registry (registry_PublishAudio (ad_key ad) \<lparr>a_PTS = pts, a_Data = au\<rparr>) s = Some s1"
      "ingest_ok st s1" by blast
    show ?thesis
    proof (cases "in_transcoder s1")
      case None
      with True s1 DataMPEG4Audio show ?thesis by (simp add: on_data_def)
    next
      case (Some t)
      from AACToOpus_Write_total [OF assms(1)] obtain err t' where
        w: "AACToOpus_Write wr au t = Some (err, t')" by blast
      have "ingest_ok st (s1\<lparr>in_transcoder := Some t'\<rparr>)" using s1 by (simp add: ingest_ok_def)
      with on_registry_calls(3) [OF this] True s1 DataMPEG4Audio Some w show ?thesis
        by (auto simp: on_data_def Let_def)
    qed
  qed (use assms(2) DataMPEG4Audio in \<open>simp add: on_data_def\<close>)
qed

lemma begin_ok:
  assumes "registry_inv r"
  shows "\<exists>s. begin_publication os path now ad r = Some s \<and> ingest_ok [(ad_key ad, True)] (s :: 'w ingest)"
proof -
  from Start_ok [OF assms] obtain r1 where r1: "registry_inv r1"
    "registry_Start (ad_key ad) (ad_sps ad) (ad_pps ad) [ad_audioConfig ad] now r = Some r1" by blast
  let ?s = "\<lparr>in_registry = r1, in_transcoder = None, in_states = []\<rparr> :: 'w ingest"
  show ?thesis
  proof (cases "ad_audioConfig ad = [] \<or> (\<exists>e. fst (StartAACToOpus os path (ad_audioConfig ad)) = Inl e)")
    case True
    then have "begin_publication os path now ad r = Some (?s\<lparr>in_states := [(ad_key ad, True)]\<rparr>)"
      using r1 by (auto simp: begin_publication_def Let_def)
    then show ?thesis using r1(1) by (simp add: ingest_ok_def)
  next
    case False
    then obtain t where t: "fst (StartAACToOpus os path (ad_audioConfig ad)) = Inr t"
      by (cases "fst (StartAACToOpus os path (ad_audioConfig ad))") auto
    have "ingest_ok [] (?s\<lparr>in_transcoder := Some t\<rparr>)" using r1(1) by (simp add: ingest_ok_def)
    from on_registry_calls(3) [OF this, of "ad_key ad" True] obtain s' where
      s': "on_registry (registry_SetOpusAvailable (ad_key ad) True) (?s\<lparr>in_transcoder := Some t\<rparr>) = Some s'"
      "ingest_ok [] s'" by auto
    then have "begin_publication os path now ad r = Some (s'\<lparr>in_states := [(ad_key ad, True)]\<rparr>)"
      using r1 False t by (simp add: begin_publication_def Let_def ingest_ok_def)
    then show ?thesis using s'(2) by (simp add: ingest_ok_def)
  qed
qed

lemma Stop_gone:
  assumes "registry_inv r"
  shows "\<exists>r'. registry_Stop key r = Some r' \<and> registry_inv r' \<and> registry_Get key now r' = None"
proof -
  from Stop_ok [OF assms] obtain r' where r': "registry_Stop key r = Some r'" "registry_inv r'" by blast
  have "streams r2 = streams r1" if "entry_shutdown a r1 = Some r2" for a r1 r2
    using that by (auto simp: entry_shutdown_def each_subscriber_def bind_eq_Some_conv split: if_splits)
  with r'(1) have "streams r' = streams (snd (registry_unlink key r))"
    by (auto simp: registry_Stop_def Let_def split: prod.splits option.splits)
  then have "map_of (streams r') key = None"
    by (auto simp: registry_unlink_def Let_def AList.delete_conv')
  with r' show ?thesis by (simp add: registry_Get_def)
qed

section \<open>Properties\<close>

definition demo_os :: "bytes os_answers" where
  "demo_os = \<lparr>LookPath = (\<lambda>_. None), ListenUDP = None, StdinPipe = Inr [], CommandStart = None\<rparr>"

lemma rtmp_publication_step:
  assumes "registry_reachable r" "truthful wr out"
  shows "\<exists>err s. handleInner os wr authorize path now conn r = Some (err, s) \<and>
     (case rtmp_admit authorize (\<lambda>k. registry_Get k now r \<noteq> None) conn of
        Inl e \<Rightarrow> err = e \<and> in_registry s = r \<and> in_states s = []
      | Inr ad \<Rightarrow>
          validStreamKey (ad_key ad) \<and> (\<forall>f. authorize = Some f \<longrightarrow> f (ad_key ad)) \<and>
          registry_Get (ad_key ad) now r = None \<and>
          in_states s = [(ad_key ad, True), (ad_key ad, False)] \<and>
          registry_Get (ad_key ad) now (in_registry s) = None \<and>
          (\<forall>t. in_transcoder s = Some t \<longrightarrow> closeDone t))"
proof (cases "rtmp_admit authorize (\<lambda>k. registry_Get k now r \<noteq> None) conn")
  case (Inl e)
  then show ?thesis by (simp add: handleInner_def)
next
  case (Inr ad)
  from reachable_registry_inv [OF assms(1)] begin_ok obtain s where
    s: "begin_publication os path now ad r = Some s" "ingest_ok [(ad_key ad, True)] s" by blast
  from for_each_inv [of "Data conn" "ingest_ok [(ad_key ad, True)]" "on_data wr ad"] s(2) on_data_ok [OF assms(2)]
  obtain s1 where s1: "for_each (on_data wr ad) (Data conn) s = Some s1" "ingest_ok [(ad_key ad, True)] s1"
    by blast
  from s1(2) Stop_gone [of "in_registry s1" "ad_key ad" now] obtain r' where
    r': "registry_Stop (ad_key ad) (in_registry s1) = Some r'" "registry_Get (ad_key ad) now r' = None"
    by (auto simp: ingest_ok_def)
  have "closeDone (AACToOpus_Close t)" for t :: "'a aac_to_opus" by (simp add: AACToOpus_Close_def)
  with rtmp_admitD [OF Inr] s s1 r' Inr show ?thesis
    by (auto simp: handleInner_def end_publication_def ingest_ok_def)
qed


definition demo_connection :: connection where
  "demo_connection = \<lparr>Initialize = None, Accept = None, Publish = True,
     URL_Path = Some ''/live/stream-1'', ReaderInitialize = None,
     Tracks = [H264 [1, 2, 3, 4] [5], MPEG4Audio None],
     Data = [DataH264 0 0 [[0x65]], DataMPEG4Audio 0 [1]], ReadError = ''EOF''\<rparr>"


end
