(* ===== verification/Server_Main.thy ===== *)
theory Server_Main
  imports Router Public_Ip Turn_Server Rtmp_Ingest
begin

text \<open>
  \<open>server/cmd/server/main.go\<close> and \<open>internal/database/database.go\<close>: how the server is put together.
  Each library call of the start is a parameter that answers with an error or not.
\<close>

section \<open>The database\<close>

definition filepath_Dir :: "string \<Rightarrow> string" where
  "filepath_Dir path = Clean (rev (dropWhile (\<lambda>c. c \<noteq> CHR ''/'') (rev path)))"

datatype database_error =
    CreateDirectory string | OpenFailed string | ConnectionFailed string | IntegrityQuery string
  | IntegrityFailed string | ForeignKeyQuery string | Violations int

record sqlite =
  sq_mkdir :: "string \<Rightarrow> string option"
  sq_open :: "string \<Rightarrow> string option"
  sq_conn :: "string option"
  sq_migrate :: "string list \<Rightarrow> string option"
  sq_integrity :: "string + string"
  sq_violations :: "string + int"

text \<open>The data source name that SQLite is opened with.\<close>

definition dsn_of :: "string \<Rightarrow> string" where
  "dsn_of path = path @ (if Contains path ''?'' then ''&'' else ''?'') @
     ''_journal_mode=WAL&_busy_timeout=5000&_foreign_keys=on&_synchronous=NORMAL''"

definition database_Open :: "sqlite \<Rightarrow> config \<Rightarrow> database_error + string" where
  "database_Open q cfg =
     (let path = Clean (GetDatabasePath cfg); dir = filepath_Dir path in
      case (if dir \<noteq> ''.'' then sq_mkdir q dir else None) of Some err \<Rightarrow> Inl (CreateDirectory err)
      | None \<Rightarrow>
     (case sq_open q (dsn_of path) of Some err \<Rightarrow> Inl (OpenFailed err)
      | None \<Rightarrow>
     (case sq_conn q of Some err \<Rightarrow> Inl (ConnectionFailed err) | None \<Rightarrow> Inr (dsn_of path))))"

text \<open>\<open>Migrate\<close>: gorm creates or extends the tables of these models, in an order that suits their references.\<close>

definition Migrate :: "sqlite \<Rightarrow> string option" where
  "Migrate q = sq_migrate q
     [''User'', ''Room'', ''RoomMember'', ''Message'', ''RoomIngress'', ''Friendship'', ''WGPeer'']"

definition database_Check :: "sqlite \<Rightarrow> database_error option" where
  "database_Check q =
     (case sq_integrity q of Inl err \<Rightarrow> Some (IntegrityQuery err)
      | Inr integrity \<Rightarrow>
      if integrity \<noteq> ''ok'' then Some (IntegrityFailed integrity)
      else case sq_violations q of Inl err \<Rightarrow> Some (ForeignKeyQuery err)
           | Inr violations \<Rightarrow> if violations \<noteq> 0 then Some (Violations violations) else None)"

section \<open>Parts that main builds\<close>

definition buildRTCClientConfig :: "string \<Rightarrow> config \<Rightarrow> bool \<Rightarrow> rtc_client_config" where
  "buildRTCClientConfig publicIPv4 cfg turnAvailable =
     (if publicIPv4 = [] then []
      else let turn = mc_TURN (cf_Media cfg); port = Itoa (tc_Port turn) in
        \<lparr>ice_URLs = [''stun:'' @ publicIPv4 @ '':'' @ port], ice_Username = [], ice_Credential = []\<rparr> #
        (if turnAvailable
         then [\<lparr>ice_URLs = [''turn:'' @ publicIPv4 @ '':'' @ port @ ''?transport=udp''],
                ice_Username = tc_Username turn, ice_Credential = tc_Password turn\<rparr>]
         else []))"

text \<open>
  \<open>startMessageCleanupJob\<close>: one cleanup at once and one per tick, each with its own driver and
  clock; an error is logged and the job goes on.
\<close>

fun cleanup_ticks :: "(gorm \<times> (int \<Rightarrow> time)) list \<Rightarrow> int \<Rightarrow> database \<Rightarrow> database" where
  "cleanup_ticks [] retentionDays db = db"
| "cleanup_ticks ((g, cutoff) # ticks) retentionDays db =
     cleanup_ticks ticks retentionDays (snd (CleanupOldMessages g cutoff retentionDays db))"

definition startMessageCleanupJob :: "(gorm \<times> (int \<Rightarrow> time)) list \<Rightarrow> int \<Rightarrow> database \<Rightarrow> database" where
  "startMessageCleanupJob ticks retentionDays db =
     (if retentionDays \<le> 0 then db else cleanup_ticks ticks retentionDays db)"

section \<open>The start\<close>

record ('settings, 'k, 'key) start_world =
  sw_viper :: "'settings viper"
  sw_sqlite :: sqlite
  sw_stored :: database
  sw_files :: files
  sw_probe :: probe
  sw_interfaces :: interfaces
  sw_keys :: "'k wgtypes"
  sw_os :: wg_os
  sw_device :: "'k device"
  sw_listen :: "int \<Rightarrow> string option"
  sw_authKey :: "string \<Rightarrow> string \<Rightarrow> string \<Rightarrow> 'key"
  sw_turn :: "'key turn_server \<Rightarrow> string option"
  sw_voice :: "string option"
  sw_register :: "string option"
  sw_setRange :: "string option"

datatype start_error =
    ConfigFatal string | DatabaseFatal database_error | MigrateFatal string | PublicIPFatal resolver_error
  | VoiceFatal string | PlaybackFatal string

record ('k, 'key) running =
  run_server :: "'k server"
  run_resolver :: "resolver \<times> (string \<times> string) list"
  run_turn :: "'key turn_server option"
  run_playback :: rtc_engine
  run_retention :: int
  run_rtmp_port :: int

definition resolver_options_of :: "config \<Rightarrow> resolver_options" where
  "resolver_options_of cfg = (let d = mc_PublicIPDiscovery (cf_Media cfg) in
     \<lparr>ManualIP = mc_PublicIP (cf_Media cfg), Enabled = dc_Enabled d,
      RefreshInterval = int64 (dc_RefreshIntervalSeconds d * second), STUNServers = dc_STUNServers d\<rparr>)"

definition turn_options_of :: "config \<Rightarrow> (unit \<Rightarrow> string) \<Rightarrow> turn_options" where
  "turn_options_of cfg provider = (let t = mc_TURN (cf_Media cfg) in
     \<lparr>to_Enabled = tc_Enabled t, to_PublicIP = [], to_PublicIPProvider = Some provider, to_Port = tc_Port t,
      to_Realm = tc_Realm t, to_Username = tc_Username t, to_Password = tc_Password t,
      to_RelayPortMin = tc_RelayPortMin t, to_RelayPortMax = tc_RelayPortMax t\<rparr>)"

definition playback_options_of :: "config \<Rightarrow> (unit \<Rightarrow> string) \<Rightarrow> rtc_options" where
  "playback_options_of cfg provider =
     \<lparr>PublicIP = [], PublicIPProvider = Some provider, UDPMin = rc_UDPPortMin (mc_RTC (cf_Media cfg)),
      UDPMax = rc_UDPPortMax (mc_RTC (cf_Media cfg))\<rparr>"

text \<open>
  \<open>main\<close> up to the point where the goroutines run. The address and the configuration that the
  providers give are those of the moment of the start.
\<close>

definition start_server :: "('settings, 'k, 'key) start_world \<Rightarrow> start_error + ('k, 'key) running" where
  "start_server sw =
     (case Load (sw_viper sw) ''config.yaml'' of Inl err \<Rightarrow> Inl (ConfigFatal err)
      | Inr cfg \<Rightarrow>
     (case database_Open (sw_sqlite sw) cfg of Inl err \<Rightarrow> Inl (DatabaseFatal err)
      | Inr dsn \<Rightarrow>
     (case Migrate (sw_sqlite sw) of Some err \<Rightarrow> Inl (MigrateFatal err)
      | None \<Rightarrow>
     (case database_Check (sw_sqlite sw) of Some err \<Rightarrow> Inl (DatabaseFatal err)
      | None \<Rightarrow>
     (case resolver_New (resolver_options_of cfg) of Inl err \<Rightarrow> Inl (PublicIPFatal err)
      | Inr r0 \<Rightarrow>
      let refreshed = snd (Refresh (sw_probe sw) (sw_interfaces sw) (r0, []));
          publicIPv4 = Current (fst refreshed);
          (wgErr, c, eff) = InitInterface (sw_keys sw) (sw_os sw) (sw_device sw) (NewCoordinator (cf_WireGuard cfg));
          cfg1 = cfg\<lparr>cf_WireGuard := co_cfg c\<rparr>;
          turn = (case turn_Start (sw_listen sw) (sw_authKey sw) (sw_turn sw)
                         (turn_options_of cfg (\<lambda>_. publicIPv4)) of Inl err \<Rightarrow> None | Inr t \<Rightarrow> t)
      in case sw_voice sw of Some err \<Rightarrow> Inl (VoiceFatal err)
      | None \<Rightarrow>
     (case rtc_New (sw_register sw) (sw_setRange sw) (playback_options_of cfg (\<lambda>_. publicIPv4)) of
        Inl err \<Rightarrow> Inl (PlaybackFatal err)
      | Inr playback \<Rightarrow> Inr
          \<lparr>run_server = \<lparr>s_db = sw_stored sw,
             s_hub = SetVoiceEngine (voice_New True)
               (SetRTCClientConfigProvider (buildRTCClientConfig publicIPv4 cfg1 (turn \<noteq> None)) (SetWGCoordinator NewHub)),
             s_wg = c, s_streams = NewRegistry, s_cfg = cfg1, s_files = sw_files sw\<rparr>,
           run_resolver = refreshed, run_turn = turn, run_playback = playback,
           run_retention = cf_RetentionDays cfg, run_rtmp_port = rm_Port (mc_RTMP (cf_Media cfg))\<rparr>))))))"

end
