(* ===== verification/Api_Responses.thy ===== *)
theory Api_Responses
  imports Router
begin

text \<open>
  Every answer of the API is well formed: a success is 200 with code 20000, an error is one of
  seven codes, its HTTP status the first three digits of the code, without data.
\<close>

named_theorems wf_answers "the answers of the handlers are well formed"

lemmas answer_splits = option.splits sum.splits prod.splits if_splits

lemma wf_rooms [wf_answers]:
  "RoomHandler_Create w cx body db = (r, db') \<Longrightarrow> well_formed r"
  "RoomHandler_Join w cx body db = (r, db') \<Longrightarrow> well_formed r"
  "well_formed (RoomHandler_GetDetail w cx roomId db)"
  "well_formed (RoomHandler_List w cx db)"
  "well_formed (RoomHandler_OnlineUsers w cx roomId db h)"
  "RoomHandler_KickMember w cx roomId userId db h = Some (r, db', h') \<Longrightarrow> well_formed r"
  "RoomHandler_UpdateRoom w cx roomId body db = (r, db') \<Longrightarrow> well_formed r"
  "RoomHandler_Leave w cx roomId db h = (r, db', h') \<Longrightarrow> well_formed r"
  "RoomHandler_Delete w cx roomId db h = (r, db', h') \<Longrightarrow> well_formed r"
  by (auto simp: RoomHandler_Create_def RoomHandler_Join_def RoomHandler_GetDetail_def RoomHandler_List_def
      RoomHandler_OnlineUsers_def RoomHandler_KickMember_def RoomHandler_UpdateRoom_def RoomHandler_Leave_def
      RoomHandler_Delete_def Let_def split: answer_splits)

lemma wf_clear_request: "clear_request w a b db = Inl r \<Longrightarrow> well_formed r"
  by (auto simp: clear_request_def split: answer_splits)

lemma wf_friends [wf_answers]:
  "FriendHandler_SendRequest w cx body db h = Some (r, db', h') \<Longrightarrow> well_formed r"
  "FriendHandler_HandleRequest w cx requestId body db h = Some (r, db', h') \<Longrightarrow> well_formed r"
  "well_formed (FriendHandler_ListFriends w cx db h)"
  "well_formed (FriendHandler_ListPendingRequests w cx db)"
  by (auto simp: FriendHandler_SendRequest_def FriendHandler_HandleRequest_def FriendHandler_ListFriends_def
      FriendHandler_ListPendingRequests_def Let_def dest: wf_clear_request split: answer_splits)

lemma wf_accounts [wf_answers]:
  "AuthHandler_Register w cfg body db = (r, db') \<Longrightarrow> well_formed r"
  "AuthHandler_Login w cfg body db = (r, db') \<Longrightarrow> well_formed r"
  "well_formed (UserHandler_GetMe w cx db)"
  "UserHandler_UpdateProfile w cx body db = (r, db') \<Longrightarrow> well_formed r"
  "well_formed (UserHandler_SearchByDisplayID w q db)"
  by (auto simp: AuthHandler_Register_def AuthHandler_Login_def UserHandler_GetMe_def
      UserHandler_UpdateProfile_def UserHandler_SearchByDisplayID_def Let_def split: answer_splits)

lemma wf_admin [wf_answers]:
  "well_formed (AdminHandler_ListUsers w p q db)"
  "well_formed (AdminHandler_ListRooms w p q db)"
  "AdminHandler_ToggleUser w userId body db = (r, db') \<Longrightarrow> well_formed r"
  "AdminHandler_DeleteRoom w roomId db = (r, db') \<Longrightarrow> well_formed r"
  "well_formed (AdminHandler_GetConfig c)"
  "AdminHandler_UpdateConfig wr body c = (r, c') \<Longrightarrow> well_formed r"
  "well_formed (AdminHandler_GetStats w db h)"
  "QQWebhook w cfg auth body db h = (r, db', h') \<Longrightarrow> well_formed r"
  by (auto simp: AdminHandler_ListUsers_def AdminHandler_ListRooms_def AdminHandler_ToggleUser_def
      AdminHandler_DeleteRoom_def AdminHandler_GetConfig_def AdminHandler_UpdateConfig_def
      AdminHandler_GetStats_def QQWebhook_def Let_def split: answer_splits)

lemma wf_others [wf_answers]:
  "well_formed (MessageHandler_GetMessages w parse cx roomId a b l db)"
  "VLANHandler_Join w ty dev cx roomId host body db c h = Some (r, db', c', h') \<Longrightarrow> well_formed r"
  "VLANHandler_Leave w ty dev cx roomId db c h = Some (r, db', c', h') \<Longrightarrow> well_formed r"
  "well_formed (VLANHandler_Peers w cx roomId db)"
  "IngressHandler_Create w cfg cx roomId fwd host body db h = Some (r, db', h') \<Longrightarrow> well_formed r"
  "well_formed (IngressHandler_List w cfg cx roomId fwd host reg db)"
  "IngressHandler_Delete w cx roomId ingressId reg db h = (r, db', h') \<Longrightarrow> well_formed r"
  "FileHandler_Upload w os st cx room_id upload db fs = (r, fs') \<Longrightarrow> well_formed r"
  "FileHandler_GetByID w acfg os st cx fileID q auth db fs = Inl r \<Longrightarrow> well_formed r"
  "UserHandler_UploadAvatar w os st cx upload db fs = (r, db', fs') \<Longrightarrow> well_formed r"
  "well_formed (ListLiveRooms w sortS sortR num reg db)"
  by (auto simp: MessageHandler_GetMessages_def VLANHandler_Join_def VLANHandler_Leave_def VLANHandler_Peers_def
      IngressHandler_Create_def IngressHandler_List_def IngressHandler_Delete_def FileHandler_Upload_def
      FileHandler_GetByID_def UserHandler_UploadAvatar_def ListLiveRooms_def Let_def
      split: answer_splits bind_splits)

lemma wf_guards [wf_answers]:
  "run_guards w cfg gs auth cx = Inl r \<Longrightarrow> well_formed r"
proof (induction gs arbitrary: cx)
  case (Cons g gs)
  then show ?case
    by (cases g) (auto simp: middleware_def AuthMiddleware_def AdminMiddleware_def Let_def split: answer_splits)
qed simp

lemma wf_connect [wf_answers]: "connect w cfg up tok s = Some (Answered r, s') \<Longrightarrow> well_formed r"
  by (auto simp: connect_def answered_def Let_def split: answer_splits)

lemma answered_eq [simp]: "answered r s = Some (Answered r', s') \<longleftrightarrow> r' = r \<and> s' = s"
  by (auto simp: answered_def)

lemma wf_handle: "handle W cx e rq s = Some (Answered r, s') \<Longrightarrow> well_formed r"
  by (cases e) (auto simp: handle_def on_db_def on_db_hub_def on_vlan_def Let_def serveEmbeddedFile_def StaticFile_def
      split: answer_splits intro: wf_answers)

end
