(* ===== verification/Api_Demo.thy ===== *)
theory Api_Demo
  imports Router Hub_Properties
begin

text \<open>
  A small server for the witnesses: two users in a database that never fails, user 1 owns room 7,
  and a token library that keeps its promises by knowing one token of each user.
\<close>

definition demo_auth :: auth_config where
  "demo_auth = \<lparr>JWTSecret = ''secret'', JWTExpireHours = 72, AdminToken = ''bot''\<rparr>"

definition demo_claims :: claims where
  "demo_claims = \<lparr>cl_UserID = 2, cl_Username = ''bob'', cl_Role = ''user'',
     cl_ExpiresAt = 259200 * second, cl_IssuedAt = 0\<rparr>"

definition demo_owner :: claims where
  "demo_owner = \<lparr>cl_UserID = 1, cl_Username = ''ann'', cl_Role = ''user'',
     cl_ExpiresAt = 259200 * second, cl_IssuedAt = 0\<rparr>"

definition demo_jwt :: jwt_lib where
  "demo_jwt = \<lparr>NewNumericDate = (\<lambda>t. t - t mod second),
     SignedString = (\<lambda>alg c key. if alg = HMAC ''HS256'' \<and> c = demo_claims \<and> key = ''secret'' then Inr ''token''
                                 else Inl ''unknown''),
     ParseWithClaims = (\<lambda>now tok kf. if kf (HMAC ''HS256'') = Some ''secret'' \<and> now < 259200 * second
                                     then if tok = ''token'' then Inr (demo_claims, True)
                                          else if tok = ''ann'' then Inr (demo_owner, True) else Inl ''refused''
                                     else Inl ''refused'')\<rparr>"

lemma demo_jwt_ok: "jwt_ok demo_jwt"
  by (auto simp: jwt_ok_def demo_jwt_def demo_claims_def split: if_splits)

definition demo_env :: env where
  "demo_env = \<lparr>e_gorm = (\<lambda>_. mem_gorm), e_valid = (\<lambda>tag f. f \<noteq> FString []), e_clock = (\<lambda>_. 0),
     e_rand = (\<lambda>_ _ _. 0), e_uuid = (\<lambda>i. ''0123456789ab'' @ digits i), e_jwt = demo_jwt, e_hash = Inr,
     e_compare = (=), e_time = JNum\<rparr>"

lemma demo_env_ok: "env_ok demo_env"
  by (simp add: env_ok_def demo_env_def mem_gorm_ok)

definition demo_users :: "user list" where
  "demo_users =
     [zero_user\<lparr>u_ID := 1, UserDisplayID := ''10001'', Username := ''ann'', PasswordHash := ''pw1'', Nickname := ''Ann'',
        u_Role := ''user'', IsActive := True\<rparr>,
      zero_user\<lparr>u_ID := 2, UserDisplayID := ''10002'', Username := ''bob'', PasswordHash := ''pw2'', Nickname := ''Bob'',
        u_Role := ''user'', IsActive := True\<rparr>]"

definition demo_room :: room where
  "demo_room = \<lparr>r_ID = 7, RoomCode = ''rm_x'', InviteCode = ''AAAAAA'', r_Name = ''Room'', OwnerID = 1,
     MediaRoomName = ''nexusroom_rm_x'', r_CreatedAt = 0\<rparr>"

definition demo_member :: "uint64 \<Rightarrow> room_member" where
  "demo_member u = \<lparr>m_RoomID = 7, m_UserID = u, m_Role = ''member'', JoinedAt = 0\<rparr>"

definition demo_world_db :: database where
  "demo_world_db = empty_db\<lparr>t_users := demo_users, t_rooms := [demo_room], t_members := [demo_member 1]\<rparr>"

definition demo_config :: config where
  "demo_config = \<lparr>cf_Server = \<lparr>srv_Port = 8080, srv_Mode = [], srv_Domain = ''media.example.com''\<rparr>,
     cf_DatabasePath = [], cf_Auth = demo_auth, cf_RetentionDays = 30,
     cf_Media = \<lparr>mc_PublicIP = [],
       mc_PublicIPDiscovery = \<lparr>dc_Enabled = True, dc_RefreshIntervalSeconds = 300, dc_STUNServers = []\<rparr>,
       mc_RTC = \<lparr>rc_UDPPortMin = 50000, rc_UDPPortMax = 50050, rc_FFmpegPath = ''ffmpeg''\<rparr>,
       mc_RTMP = \<lparr>rm_Port = 1935, rm_AllowTemporaryStreams = False\<rparr>,
       mc_TURN = \<lparr>tc_Enabled = True, tc_Port = 3478, tc_Realm = [], tc_Username = ''u'', tc_Password = ''p'',
         tc_RelayPortMin = 51000, tc_RelayPortMax = 51100\<rparr>\<rparr>,
     cf_WireGuard = demo_wg, cf_Storage = \<lparr>st_Path = ''./data'', st_MaxFileSizeMB = 50\<rparr>\<rparr>"

definition demo_server :: "bool server" where
  "demo_server = \<lparr>s_db = demo_world_db, s_hub = demo_hub, s_wg = NewCoordinator demo_wg, s_streams = NewRegistry,
     s_cfg = demo_config, s_files = (\<lambda>_. None)\<rparr>"

definition demo_file_os :: file_os where
  "demo_file_os = \<lparr>fo_open = None, fo_mkdir = (\<lambda>_. None), fo_save = None, fo_stat = None,
     fo_detect = (\<lambda>_. ''text/plain''), fo_type = (\<lambda>_. [])\<rparr>"

definition demo_world :: "(bool, bytes) world" where
  "demo_world = \<lparr>w_env = demo_env, w_keys = demo_keys, w_device = (\<lambda>_. None), w_files = demo_file_os,
     w_parse = (\<lambda>_. JNull), w_write = (\<lambda>_. None), w_rtc = demo_answers, w_sortStreams = (\<lambda>xs. xs),
     w_sortRooms = (\<lambda>xs. xs), w_number = (\<lambda>_. JNum 0), w_writer = buffer_write, w_events = [], w_out = [],
     w_asset = (\<lambda>_. None), w_upgrade = None\<rparr>"

text \<open>A request for room 7 with the given header and body.\<close>

definition demo_request :: "string \<Rightarrow> json option \<Rightarrow> request" where
  "demo_request header body = \<lparr>rq_param = (\<lambda>_. ''7''), rq_query = (\<lambda>_. None),
     rq_header = (\<lambda>name. if name = ''Authorization'' then header else []), rq_form = (\<lambda>_. ''7''), rq_host = ''host:8080'',
     rq_body = body, rq_upload = None\<rparr>"

lemmas demo_world_defs = demo_world_def demo_env_def demo_server_def demo_request_def demo_config_def demo_auth_def
  demo_jwt_def demo_claims_def demo_owner_def

lemma demo_bearer: "SplitN2 CHR '' '' ''Bearer token'' = [''Bearer'', ''token'']"
  using SplitN2_sep [of "CHR '' ''" "''Bearer''" "''token''"] by simp

lemma parse_7: "ParseUint ''7'' = Some 7"
  by (simp add: ParseUint_def parse_digits_def is_digit_def digit_value_def)

text \<open>The two users as the guards see them.\<close>

definition demo_bob :: gin_context where
  "demo_bob = \<lparr>cx_userID = Some 2, cx_username = Some ''bob'', cx_role = Some ''user''\<rparr>"

definition demo_ann :: gin_context where
  "demo_ann = \<lparr>cx_userID = Some 1, cx_username = Some ''ann'', cx_role = Some ''user''\<rparr>"

lemma demo_passed:
  assumes "cfg = cf_Auth demo_config"
  shows "run_guards demo_env cfg [Auth] ''Bearer token'' no_context = Inr demo_bob"
    "run_guards demo_env cfg [Auth] ''Bearer ann'' no_context = Inr demo_ann"
proof -
  have "SplitN2 CHR '' '' ''Bearer ann'' = [''Bearer'', ''ann'']"
    using SplitN2_sep [of "CHR '' ''" "''Bearer''" "''ann''"] by simp
  then show "run_guards demo_env cfg [Auth] ''Bearer token'' no_context = Inr demo_bob"
    "run_guards demo_env cfg [Auth] ''Bearer ann'' no_context = Inr demo_ann"
    by (simp_all add: assms middleware_def AuthMiddleware_def demo_bearer demo_env_def demo_config_def demo_auth_def
        demo_jwt_def demo_claims_def demo_owner_def ParseToken_def no_context_def second_def demo_bob_def demo_ann_def)
qed

lemma demo_serve:
  assumes "guards e = [Auth]" "s_cfg s = demo_config"
  shows "serve demo_world e (demo_request ''Bearer token'' body) s =
      handle demo_world demo_bob e (demo_request ''Bearer token'' body) s"
    "serve demo_world e (demo_request ''Bearer ann'' body) s =
      handle demo_world demo_ann e (demo_request ''Bearer ann'' body) s"
  using assms demo_passed by (simp_all add: serve_def demo_world_def demo_request_def)

end
