(* ===== verification/Api_Access.thy ===== *)
theory Api_Access
  imports Api_Responses Api_Demo
begin

text \<open>
  Who may do what over HTTP: the guards of the routes, what a request without a valid token can
  change, and what somebody who is not a member of a room can see of it.
\<close>

section \<open>The guards of the routes\<close>

definition guards_in :: "(string \<times> string \<times> guard list \<times> endpoint) list \<Rightarrow> endpoint \<Rightarrow> guard list" where
  "guards_in rs e = (case find (\<lambda>(verb, path, gs, e'). e' = e) rs of Some (verb, path, gs, e') \<Rightarrow> gs | None \<Rightarrow> [])"

lemma guards_in_grouped:
  "guards_in (grouped prefix gs rs) e = (if e \<in> (snd \<circ> snd) ` set rs then gs else [])"
  "guards_in (grouped prefix gs rs @ xs) e = (if e \<in> (snd \<circ> snd) ` set rs then gs else guards_in xs e)"
  by (induction rs) (auto simp: guards_in_def grouped_def)

lemma guards_table:
  "guards Ping = []" "guards (IndexPage ''index.html'') = []" "guards GetFile = []" "guards Uploads = []" "guards Register = []"
  "guards Login = []" "guards Webhook = []" "guards LiveStream = []" "guards LiveRooms = []" "guards PlayRTC = []"
  "guards Connect = []" "guards GetMe = [Auth]" "guards UpdateMe = [Auth]" "guards UploadMyAvatar = [Auth]"
  "guards SearchUser = [Auth]" "guards CreateRoom = [Auth]" "guards JoinRoomByCode = [Auth]" "guards ListRooms = [Auth]"
  "guards GetRoom = [Auth]" "guards UpdateRoom = [Auth]" "guards DeleteRoom = [Auth]" "guards LeaveRoomById = [Auth]"
  "guards KickFromRoom = [Auth]" "guards OnlineInRoom = [Auth]" "guards RoomMessages = [Auth]"
  "guards CreateIngress = [Auth]" "guards ListIngresses = [Auth]" "guards DeleteIngress = [Auth]"
  "guards JoinVlan = [Auth]" "guards LeaveVlan = [Auth]" "guards VlanPeers = [Auth]" "guards MyFriends = [Auth]"
  "guards PendingFriends = [Auth]" "guards RequestFriend = [Auth]" "guards AnswerFriend = [Auth]"
  "guards UploadFile = [Auth]" "guards AdminUsers = [Auth, Admin]" "guards AdminToggle = [Auth, Admin]"
  "guards AdminRooms = [Auth, Admin]" "guards AdminDelete = [Auth, Admin]" "guards AdminGetConfig = [Auth, Admin]"
  "guards AdminSetConfig = [Auth, Admin]" "guards AdminStats = [Auth, Admin]"
  by (simp_all add: guards_def guards_in_def [symmetric] routes_def guards_in_grouped)

lemma guards_IndexPage [simp]: "guards (IndexPage name) = []"
  by (simp add: guards_def guards_in_def [symmetric] routes_def guards_in_grouped)

definition public :: "endpoint set" where
  "public = {Ping, GetFile, Uploads, Register, Login, Webhook, LiveStream, LiveRooms, PlayRTC, Connect} \<union> range IndexPage"

lemma guarded_Auth: "e \<notin> public \<Longrightarrow> \<exists>gs. guards e = Auth # gs"
  by (cases e) (auto simp: public_def guards_table)

text \<open>Nobody: the request carries neither a token that is accepted nor the token of the bot.\<close>

definition anonymous :: "('k, 'w) world \<Rightarrow> request \<Rightarrow> 'k server \<Rightarrow> bool" where
  "anonymous W rq s \<longleftrightarrow>
     (let w = w_env W; cfg = cf_Auth (s_cfg s); header = rq_header rq ''Authorization'' in
      (\<exists>r. AuthMiddleware (e_jwt w) cfg (e_clock w 0) header no_context = Inl r) \<and>
      (\<exists>err. ParseToken (e_jwt w) cfg (e_clock w 0) (query rq ''token'') = Inl err) \<and>
      (AdminToken cfg \<noteq> [] \<longrightarrow> header \<noteq> ''Bearer '' @ AdminToken cfg))"

lemma refused_401: "AuthMiddleware lib cfg now header cx = Inl r \<Longrightarrow> r = ErrorWithStatus 401 40101"
  by (auto simp: AuthMiddleware_def Let_def split: answer_splits)

lemma create_user_only: "create_user n g rand u db = (res, db') \<Longrightarrow> db' = db\<lparr>t_users := t_users db'\<rparr>"
proof (induction n arbitrary: g rand u db)
  case (Suc n)
  have "User_Create (rand 0) (g 0) u db = (res1, db1) \<Longrightarrow> db1 = db\<lparr>t_users := t_users db1\<rparr>" for res1 db1
    by (auto simp: User_Create_def split: answer_splits)
  moreover have "User_Create (rand 0) (g 0) u db = (Inl err, db1) \<Longrightarrow> db1 = db" for err db1
    by (auto simp: User_Create_def split: answer_splits)
  ultimately show ?case using Suc by (auto split: answer_splits)
qed simp

lemma update_users_only: "snd (update_users g P f db) = db\<lparr>t_users := t_users (snd (update_users g P f db))\<rparr>"
  by (auto simp: update_users_def with_rows_def split: sum.split)

lemma accounts_only_users:
  "AuthHandler_Register w cfg body db = (r, db') \<Longrightarrow> db' = db\<lparr>t_users := t_users db'\<rparr>"
  "AuthHandler_Login w cfg body db = (r, db') \<Longrightarrow> db' = db\<lparr>t_users := t_users db'\<rparr>"
  using update_users_only
  by (auto simp: AuthHandler_Register_def AuthHandler_Login_def User_UpdateLastLogin_def Let_def
      dest: create_user_only split: answer_splits)

lemma anonymous_run:
  assumes "anonymous W rq s" "guards e = Auth # gs"
  shows "serve W e rq s = Some (Answered (ErrorWithStatus 401 40101), s)"
proof -
  from assms(1) obtain r where
    r: "AuthMiddleware (e_jwt (w_env W)) (cf_Auth (s_cfg s)) (e_clock (w_env W) 0) (rq_header rq ''Authorization'')
          no_context = Inl r"
    by (auto simp: anonymous_def Let_def)
  with refused_401 [OF r] assms(2) show ?thesis by (simp add: serve_def middleware_def answered_def)
qed

definition only_users_and_streams :: "'k server \<Rightarrow> 'k server \<Rightarrow> bool" where
  "only_users_and_streams s s' \<longleftrightarrow>
     s' = s\<lparr>s_db := (s_db s)\<lparr>t_users := t_users (s_db s')\<rparr>, s_streams := s_streams s'\<rparr>"

lemma only_users_refl [simp]: "only_users_and_streams s s"
  by (simp add: only_users_and_streams_def)

lemma only_usersI: "db' = (s_db s)\<lparr>t_users := t_users db'\<rparr> \<Longrightarrow> only_users_and_streams s (s\<lparr>s_db := db'\<rparr>)"
  by (simp add: only_users_and_streams_def)

lemma only_streamsI: "only_users_and_streams s (s\<lparr>s_streams := reg\<rparr>)"
  by (simp add: only_users_and_streams_def)

lemma anonymous_public:
  assumes anon: "anonymous W rq s" and h: "handle W cx e rq s = Some (reply, s')" and e: "e \<in> public"
  shows "only_users_and_streams s s'"
proof -
  have webhook: "QQWebhook (w_env W) (cf_Auth (s_cfg s)) (rq_header rq ''Authorization'') body db hub = (r, db', hub')
      \<Longrightarrow> db' = db \<and> hub' = hub" for body db hub r db' hub'
    using anon by (auto simp: anonymous_def QQWebhook_def Let_def split: if_splits)
  from anon obtain err where "ParseToken (e_jwt (w_env W)) (cf_Auth (s_cfg s)) (e_clock (w_env W) 0) (query rq ''token'') = Inl err"
    by (auto simp: anonymous_def Let_def)
  then have connect: "connect (w_env W) (cf_Auth (s_cfg s)) up (query rq ''token'') s = Some (rep, s2) \<Longrightarrow> s2 = s" for up rep s2
    by (auto simp: connect_def answered_def split: if_splits)
  show ?thesis
    using h e
    by (cases e) (auto simp: handle_def public_def on_db_def on_db_hub_def answered_def Let_def
        intro!: only_usersI only_streamsI dest: accounts_only_users webhook connect split: answer_splits)
qed

text \<open>
  C13: A request that carries no accepted token (and not the token of the bot) gets 401 on every route
  behind the guards and changes nothing there; on the public routes it can change at most the
  accounts (registration, login) and the subscriptions of live streams, never rooms, members,
  messages, ingresses, friendships, VLAN peers, files, the configuration or the connections.
\<close>

theorem anonymous_changes_nothing:
  assumes "anonymous W rq s" "serve W e rq s = Some (reply, s')"
  shows "(e \<notin> public \<longrightarrow> reply = Answered (ErrorWithStatus 401 40101) \<and> s' = s) \<and>
    s' = s\<lparr>s_db := (s_db s)\<lparr>t_users := t_users (s_db s')\<rparr>, s_streams := s_streams s'\<rparr>"
proof (cases "e \<in> public")
  case True
  then have "guards e = []" by (auto simp: public_def guards_table)
  with assms(2) have "handle W no_context e rq s = Some (reply, s')" by (simp add: serve_def)
  from anonymous_public [OF assms(1) this True] True show ?thesis by (simp add: only_users_and_streams_def)
next
  case False
  with guarded_Auth obtain gs where "guards e = Auth # gs" by blast
  from anonymous_run [OF assms(1) this] assms(2) False show ?thesis by simp
qed

theorem anonymous_changes_nothing_witness:
  "serve demo_world JoinRoomByCode (demo_request ''Bearer forged'' None) demo_server =
     Some (Answered (ErrorWithStatus 401 40101), demo_server)"
proof -
  let ?rq = "demo_request ''Bearer forged'' None"
  have "SplitN2 CHR '' '' ''Bearer forged'' = [''Bearer'', ''forged'']"
    using SplitN2_sep [of "CHR '' ''" "''Bearer''" "''forged''"] by simp
  then have a: "anonymous demo_world ?rq demo_server"
    by (simp add: anonymous_def demo_world_defs query_def AuthMiddleware_def ParseToken_def)
  have "\<exists>reply s'. serve demo_world JoinRoomByCode ?rq demo_server = Some (reply, s')"
    using anonymous_run [OF a guards_table(17)] by blast
  then obtain reply s' where r: "serve demo_world JoinRoomByCode ?rq demo_server = Some (reply, s')" by blast
  have "JoinRoomByCode \<notin> public" by (auto simp: public_def)
  with anonymous_changes_nothing [OF a r] r show ?thesis by simp
qed

lemma admin_only:
  assumes "AuthMiddleware (e_jwt (w_env W)) (cf_Auth (s_cfg s)) (e_clock (w_env W) 0) (rq_header rq ''Authorization'')
      no_context = Inr cx" "Admin \<in> set (guards e)" "cx_role cx \<noteq> Some ''super_admin''"
  shows "serve W e rq s = Some (Answered (ErrorWithStatus 403 40302), s)"
proof -
  have "guards e = [Auth, Admin]" using assms(2)
    by (cases e) (simp_all add: guards_table)
  with assms show ?thesis by (simp add: serve_def middleware_def AdminMiddleware_def answered_def)
qed

section \<open>What only members see\<close>

text \<open>The room that a request is about, and the user who makes it, once the guards are passed.\<close>

definition room_asked :: "endpoint \<Rightarrow> request \<Rightarrow> uint64 option" where
  "room_asked e rq =
     (if e \<in> {GetRoom, OnlineInRoom, RoomMessages, JoinVlan, VlanPeers} then ParseUint (rq_param rq ''roomId'')
      else if e = GetFile then room_of_file (rq_param rq ''fileId'')
      else if e = UploadFile then
        (case ParseUint (rq_form rq ''room_id'') of None \<Rightarrow> None | Some i \<Rightarrow> if i = 0 then None else Some i)
      else None)"

definition caller :: "('k, 'w) world \<Rightarrow> endpoint \<Rightarrow> request \<Rightarrow> 'k server \<Rightarrow> uint64 option" where
  "caller W e rq s =
     (let w = w_env W; cfg = cf_Auth (s_cfg s); header = rq_header rq ''Authorization'' in
      if e = GetFile then
        (let tok = download_token (query rq ''token'') header in
         if tok = [] then None
         else case ParseToken (e_jwt w) cfg (e_clock w 0) tok of Inl err \<Rightarrow> None | Inr c \<Rightarrow> Some (cl_UserID c))
      else case run_guards w cfg (guards e) header no_context of Inl r \<Rightarrow> None | Inr cx \<Rightarrow> Some (the_userID cx))"

lemma strangers_refused:
  assumes "\<not> IsMember (e_gorm w 0) roomID (the_userID cx) db"
  shows "ParseUint room = Some roomID \<Longrightarrow> RoomHandler_GetDetail w cx room db = ErrorWithStatus 403 40301"
    "ParseUint room = Some roomID \<Longrightarrow> RoomHandler_OnlineUsers w cx room db h = ErrorWithStatus 403 40301"
    "ParseUint room = Some roomID \<Longrightarrow> MessageHandler_GetMessages w parse cx room a b l db = ErrorWithStatus 403 40301"
    "ParseUint room = Some roomID \<Longrightarrow> VLANHandler_Peers w cx room db = ErrorWithStatus 403 40301"
    "ParseUint room = Some roomID \<Longrightarrow>
       VLANHandler_Join w ty dev cx room host body db c h = Some (ErrorWithStatus 403 40301, db, c, h)"
    "ParseUint room = Some roomID \<Longrightarrow> roomID \<noteq> 0 \<Longrightarrow>
       FileHandler_Upload w os st cx room upload db fs = (ErrorWithStatus 403 40301, fs)"
  using assms by (simp_all add: RoomHandler_GetDetail_def RoomHandler_OnlineUsers_def MessageHandler_GetMessages_def
      VLANHandler_Peers_def VLANHandler_Join_def FileHandler_Upload_def)

lemma room_asked_cases:
  assumes "room_asked e rq = Some roomID" "e \<noteq> GetFile"
  shows "(e \<in> {GetRoom, OnlineInRoom, RoomMessages, JoinVlan, VlanPeers} \<and> ParseUint (rq_param rq ''roomId'') = Some roomID) \<or>
    (e = UploadFile \<and> ParseUint (rq_form rq ''room_id'') = Some roomID \<and> roomID \<noteq> 0)"
  using assms by (auto simp: room_asked_def split: if_splits option.splits)

lemma stranger_refused:
  assumes "env_ok (w_env W)" "serve W e rq s = Some (reply, s')"
    and "caller W e rq s = Some u" "room_asked e rq = Some roomID" "\<not> member roomID u (s_db s)"
  shows "reply = Answered (ErrorWithStatus 403 40301) \<and> s' = s"
proof -
  have no: "\<not> IsMember (e_gorm (w_env W) 0) roomID u (s_db s)"
    using IsMember_sound [OF env_okD [OF assms(1)]] assms(5) by blast
  show ?thesis
  proof (cases "e = GetFile")
    case True
    with assms(2,3,4) no show ?thesis
      by (auto simp: serve_def guards_table handle_def caller_def room_asked_def FileHandler_GetByID_def
          the_userID_def no_context_def Let_def answered_def room_of_file_def SplitN2_def split: answer_splits)
  next
    case False
    with assms(3) obtain cx where cx: "run_guards (w_env W) (cf_Auth (s_cfg s)) (guards e)
        (rq_header rq ''Authorization'') no_context = Inr cx" "u = the_userID cx"
      by (auto simp: caller_def Let_def split: sum.splits)
    with assms(2) have h: "handle W cx e rq s = Some (reply, s')" by (simp add: serve_def)
    from no cx(2) have "\<not> IsMember (e_gorm (w_env W) 0) roomID (the_userID cx) (s_db s)" by simp
    note refused = strangers_refused [OF this]
    from room_asked_cases [OF assms(4) False] h show ?thesis
      by (elim disjE conjE insertE emptyE) (simp_all add: handle_def answered_def on_vlan_def refused)
  qed
qed



end
