(* ===== verification/Membership.thy ===== *)
theory Membership
  imports Repositories
begin

text \<open>
  The table of the members as the handlers use it: an interface with three operations, the laws
  that the repository keeps, and what a client can rely on over any sequence of calls, of
  which each may fail.
\<close>

section \<open>The interface\<close>

locale member_store =
  fixes ok :: "'g \<Rightarrow> bool"
    and ask :: "'g \<Rightarrow> 'r \<Rightarrow> 'u \<Rightarrow> 's \<Rightarrow> bool"
    and add :: "'g \<Rightarrow> 'r \<Rightarrow> 'u \<Rightarrow> 'role \<Rightarrow> 's \<Rightarrow> ('e + unit) \<times> 's"
    and remove :: "'g \<Rightarrow> 'r \<Rightarrow> 'u \<Rightarrow> 's \<Rightarrow> ('e + unit) \<times> 's"
    and pairs :: "'s \<Rightarrow> ('r \<times> 'u) set"
  assumes ask_true: "ok g \<Longrightarrow> ask g r u s \<Longrightarrow> (r, u) \<in> pairs s"
    and add_done: "ok g \<Longrightarrow> add g r u role s = (Inr (), s') \<Longrightarrow> (r, u) \<notin> pairs s \<and> pairs s' = insert (r, u) (pairs s)"
    and add_failed: "ok g \<Longrightarrow> add g r u role s = (Inl e, s') \<Longrightarrow> s' = s"
    and remove_done: "ok g \<Longrightarrow> remove g r u s = (Inr (), s') \<Longrightarrow> pairs s' = pairs s - {(r, u)}"
    and remove_failed: "ok g \<Longrightarrow> remove g r u s = (Inl e, s') \<Longrightarrow> s' = s"
begin

lemma add_pairs:
  assumes "ok g" "add g r u role s = (res, s')"
  shows "pairs s' = pairs s \<or> (r, u) \<notin> pairs s \<and> pairs s' = insert (r, u) (pairs s)"
  using assms add_done [of g r u role s s'] add_failed [of g r u role s _ s'] by (cases res) auto

lemma remove_pairs:
  assumes "ok g" "remove g r u s = (res, s')"
  shows "pairs s' = pairs s \<or> pairs s' = pairs s - {(r, u)}"
  using assms remove_done [of g r u s s'] remove_failed [of g r u s _ s'] by (cases res) auto

text \<open>
  Who was removed is refused, whatever happened since, as long as no step put that very pair back.
\<close>

lemma removed_out:
  assumes "ok g" "remove g r u s = (Inr (), s1)"
    and "(s1, s2) \<in> {(s, s'). (r, u) \<in> pairs s' \<longrightarrow> (r, u) \<in> pairs s}\<^sup>*"
  shows "(r, u) \<notin> pairs s2"
  using assms(3) remove_done [OF assms(1,2)] by (induction rule: rtrancl_induct) auto

lemma removed_refused:
  assumes "ok g" "remove g r u s = (Inr (), s1)" "ok g'"
    and "(s1, s2) \<in> {(s, s'). (r, u) \<in> pairs s' \<longrightarrow> (r, u) \<in> pairs s}\<^sup>*"
  shows "\<not> ask g' r u s2"
  using removed_out [OF assms(1,2,4)] ask_true [OF assms(3)] by blast

end

section \<open>The repository keeps the laws\<close>

definition room_pairs :: "database \<Rightarrow> (uint64 \<times> uint64) set" where
  "room_pairs db = (\<lambda>m. (m_RoomID m, m_UserID m)) ` set (t_members db)"

lemma member_pairs: "member roomID userID db \<longleftrightarrow> (roomID, userID) \<in> room_pairs db"
  by (auto simp: member_def room_pairs_def)

interpretation room_members: member_store gorm_ok IsMember AddMember RemoveMember room_pairs
proof unfold_locales
  fix g r u s s' role e
  assume g: "gorm_ok g"
  show "IsMember g r u s \<Longrightarrow> (r, u) \<in> room_pairs s"
    using IsMember_sound [OF g] by (simp add: member_pairs)
  show "(r, u) \<notin> room_pairs s \<and> room_pairs s' = insert (r, u) (room_pairs s)" if "AddMember g r u role s = (Inr (), s')"
    using AddMember_cases [OF g that] by (auto simp: member_pairs room_pairs_def)
  show "s' = s" if "AddMember g r u role s = (Inl e, s')"
    using AddMember_cases [OF g that] by auto
  show "room_pairs s' = room_pairs s - {(r, u)}" if "RemoveMember g r u s = (Inr (), s')"
    using RemoveMember_cases [OF g that] by (auto simp: room_pairs_def)
  show "s' = s" if "RemoveMember g r u s = (Inl e, s')"
    using RemoveMember_cases [OF g that] by auto
qed

end
