(* ===== verification/Db_Integrity.thy ===== *)
theory Db_Integrity
  imports Api_Access Membership Server_Main
begin

text \<open>
  The rows of the database fit together: every member, message, ingress and VLAN peer belongs to a room
  that is there, the keys are unique. Every repository operation keeps this, given that the
  room it adds a row to exists; every handler checks that before it calls one.
\<close>

section \<open>The invariant\<close>

definition room_exists :: "uint64 \<Rightarrow> database \<Rightarrow> bool" where
  "room_exists i db \<longleftrightarrow> i \<in> r_ID ` set (t_rooms db)"

definition integrity :: "database \<Rightarrow> bool" where
  "integrity db \<longleftrightarrow>
     distinct (map r_ID (t_rooms db)) \<and>
     distinct (map (\<lambda>m. (m_RoomID m, m_UserID m)) (t_members db)) \<and>
     distinct (map msg_ID (t_messages db)) \<and>
     (\<forall>m \<in> set (t_members db). room_exists (m_RoomID m) db) \<and>
     (\<forall>m \<in> set (t_messages db). room_exists (msg_RoomID m) db) \<and>
     (\<forall>i \<in> set (t_ingresses db). room_exists (ing_RoomID i) db) \<and>
     (\<forall>p \<in> set (t_peers db). room_exists (p_RoomID p) db)"

lemma integrity_empty: "integrity empty_db"
  by (simp add: integrity_def empty_db_def)

lemma integrity_other [simp]:
  "integrity (db\<lparr>t_users := us\<rparr>) = integrity db" "integrity (db\<lparr>t_friendships := fs\<rparr>) = integrity db"
  by (simp_all add: integrity_def room_exists_def)

lemma member_room: "integrity db \<Longrightarrow> member roomID userID db \<Longrightarrow> room_exists roomID db"
  by (auto simp: integrity_def member_def)

section \<open>Repositories\<close>

lemma integrity_rooms:
  assumes "integrity db"
  shows "m \<in> set (t_members db) \<Longrightarrow> room_exists (m_RoomID m) db"
    "i \<in> set (t_ingresses db) \<Longrightarrow> room_exists (ing_RoomID i) db"
    "p \<in> set (t_peers db) \<Longrightarrow> room_exists (p_RoomID p) db"
  using assms by (simp_all add: integrity_def)

lemma distinct_filter_map: "distinct (map f xs) \<Longrightarrow> distinct (map f (filter P xs))"
  by (induction xs) auto

lemma integrity_Room_Create:
  assumes "gorm_ok g" "integrity db" "Room_Create rand1 rand2 g r db = (res, db')"
  shows "integrity db' \<and> (\<forall>r'. res = Inr r' \<longrightarrow> room_exists (r_ID r') db')"
proof (cases "dCreate (g_rooms g) (Room_BeforeCreate rand1 rand2 r) (t_rooms db)")
  case (Inl err)
  with assms(2,3) show ?thesis by (auto simp: Room_Create_def)
next
  case (Inr p)
  obtain r' rs where p: "p = (r', rs)" by fastforce
  from driver_okD(1) [OF gorm_okD(2) [OF assms(1)] Inr [unfolded p]]
  have "rs = t_rooms db @ [r']" "\<forall>x \<in> set (t_rooms db). r_ID x < r_ID r'" by (auto simp: room_schema_def)
  moreover from this(2) have "r_ID r' \<notin> r_ID ` set (t_rooms db)" by (metis imageE less_irrefl)
  ultimately show ?thesis using assms(2,3) Inr p by (auto simp: Room_Create_def integrity_def room_exists_def)
qed

lemma integrity_AddMember:
  assumes "gorm_ok g" "integrity db" "room_exists roomID db" "AddMember g roomID userID role db = (res, db')"
  shows "integrity db'"
  using AddMember_cases [OF assms(1,4)]
proof (elim disjE exE conjE)
  fix m assume m: "\<not> member roomID userID db" "m_RoomID m = roomID" "m_UserID m = userID"
    and db': "db' = db\<lparr>t_members := t_members db @ [m]\<rparr>"
  from m have "(m_RoomID m, m_UserID m) \<notin> (\<lambda>m. (m_RoomID m, m_UserID m)) ` set (t_members db)"
    by (auto simp: member_def)
  with assms(2,3) m(2) show ?thesis by (simp add: db' integrity_def room_exists_def)
qed (use assms(2) in simp)

lemma integrity_RemoveMember:
  assumes "gorm_ok g" "integrity db" "RemoveMember g roomID userID db = (res, db')"
  shows "integrity db'"
  using RemoveMember_cases [OF assms(1,3)] assms(2)
  by (auto simp: integrity_def room_exists_def distinct_filter_map)

lemma integrity_purge: "integrity db \<Longrightarrow> integrity (purge_room i db)"
  by (auto simp: integrity_def purge_room_def room_exists_def distinct_filter_map)

lemma integrity_Room_Delete:
  assumes "\<forall>k. gorm_ok (g k)" "integrity db" "Room_Delete g i db = (res, db')"
  shows "integrity db'"
  using Room_Delete_cases [OF assms(1,3)] assms(2) integrity_purge by auto

lemma integrity_Room_Update:
  assumes "gorm_ok g" "integrity db" "room_exists (r_ID r) db" "Room_Update g r db = (res, db')"
  shows "integrity db'"
proof -
  from with_rows_cases [OF assms(4) [unfolded Room_Update_def]] consider "db' = db"
    | rs where "dSave (g_rooms g) r (t_rooms db) = Inr rs" "db' = db\<lparr>t_rooms := rs\<rparr>" by blast
  then show ?thesis
  proof cases
    case (2 rs)
    let ?f = "\<lambda>x. if r_ID x = r_ID r then r else x"
    have "rs = map ?f (t_rooms db)"
      using driver_okD(8) [OF gorm_okD(2) [OF assms(1)] 2(1)] assms(3)
      by (auto simp: room_schema_def room_exists_def)
    moreover have "map r_ID (map ?f (t_rooms db)) = map r_ID (t_rooms db)" by simp
    ultimately have "map r_ID rs = map r_ID (t_rooms db)" by simp
    moreover from this have "r_ID ` set rs = r_ID ` set (t_rooms db)" by (metis set_map)
    ultimately show ?thesis using assms(2) 2(2) by (simp add: integrity_def room_exists_def)
  qed (use assms(2) in simp)
qed

lemma integrity_Message_Create:
  assumes "gorm_ok g" "integrity db" "room_exists (msg_RoomID m) db" "Message_Create g m db = (res, db')"
  shows "integrity db'"
proof (cases "dCreate (g_messages g) m (t_messages db)")
  case (Inl err)
  with assms(2,4) show ?thesis by (auto simp: Message_Create_def)
next
  case (Inr p)
  obtain m' ms where p: "p = (m', ms)" by fastforce
  from driver_okD(1) [OF gorm_okD(4) [OF assms(1)] Inr [unfolded p]]
  have ms: "ms = t_messages db @ [m']" "msg_RoomID m' = msg_RoomID m" "\<forall>x \<in> set (t_messages db). msg_ID x < msg_ID m'"
    by (auto simp: message_schema_def)
  from ms(3) have "msg_ID m' \<notin> msg_ID ` set (t_messages db)" by (metis imageE less_irrefl)
  moreover have "db' = db\<lparr>t_messages := t_messages db @ [m']\<rparr>" using assms(4) Inr p ms(1) by (simp add: Message_Create_def)
  ultimately show ?thesis using assms(2,3) ms(2) by (simp add: integrity_def room_exists_def)
qed

lemma integrity_fewer_messages:
  "integrity db \<Longrightarrow> integrity (db\<lparr>t_messages := filter P (t_messages db)\<rparr>)"
  by (auto simp: integrity_def room_exists_def distinct_filter_map)

lemma integrity_CleanupOldMessages:
  assumes "gorm_ok g" "integrity db"
  shows "integrity (snd (CleanupOldMessages g cutoff days db))"
proof (cases "dDelete (g_messages g) (\<lambda>m. msg_CreatedAt m < cutoff (- days)) (t_messages db)")
  case (Inr ms)
  from driver_okD(7) [OF gorm_okD(4) [OF assms(1)] Inr] Inr assms(2) show ?thesis
    by (simp add: CleanupOldMessages_def with_rows_def integrity_fewer_messages)
qed (use assms(2) in \<open>simp add: CleanupOldMessages_def with_rows_def\<close>)

lemma integrity_ingresses:
  "integrity db \<Longrightarrow> (\<And>x. x \<in> set xs \<Longrightarrow> room_exists (ing_RoomID x) db) \<Longrightarrow> integrity (db\<lparr>t_ingresses := xs\<rparr>)"
  by (simp add: integrity_def room_exists_def)

lemma integrity_Ingress_Create:
  assumes "gorm_ok g" "integrity db" "room_exists (ing_RoomID i) db" "Ingress_Create g i db = (res, db')"
  shows "integrity db'"
proof (cases "dCreate (g_ingresses g) i (t_ingresses db)")
  case (Inl err)
  with assms(2,4) show ?thesis by (auto simp: Ingress_Create_def)
next
  case (Inr p)
  obtain i' xs where p: "p = (i', xs)" by fastforce
  from driver_okD(1) [OF gorm_okD(5) [OF assms(1)] Inr [unfolded p]] have
    "xs = t_ingresses db @ [i']" "ing_RoomID i' = ing_RoomID i" by (auto simp: ingress_schema_def)
  with assms(2,3,4) Inr p show ?thesis
    by (auto simp: Ingress_Create_def intro!: integrity_ingresses dest: integrity_rooms(2))
qed

lemma integrity_Ingress_Delete:
  assumes "gorm_ok g" "integrity db" "Ingress_Delete g i db = (res, db')"
  shows "integrity db'"
  using with_rows_cases [OF assms(3) [unfolded Ingress_Delete_def]]
proof (elim disjE exE conjE)
  fix xs assume "dDelete (g_ingresses g) (\<lambda>x. ing_ID x = i) (t_ingresses db) = Inr xs" "db' = db\<lparr>t_ingresses := xs\<rparr>"
  with driver_okD(7) [OF gorm_okD(5) [OF assms(1)] this(1)] assms(2) show ?thesis
    by (auto intro!: integrity_ingresses dest: integrity_rooms(2))
qed (use assms(2) in simp)

lemma integrity_Ingress_SetActive:
  assumes "gorm_ok g" "integrity db"
  shows "integrity (snd (Ingress_SetActive g i b db))"
proof (cases "dUpdate (g_ingresses g) (\<lambda>x. ing_ID x = i) (\<lambda>x. x\<lparr>ing_IsActive := b\<rparr>) (t_ingresses db)")
  case (Inr xs)
  have xs: "xs = map (\<lambda>x. if ing_ID x = i then x\<lparr>ing_IsActive := b\<rparr> else x) (t_ingresses db)"
    by (rule driver_okD(6) [OF gorm_okD(5) [OF assms(1)] Inr])
  have "room_exists (ing_RoomID x) db" if "x \<in> set xs" for x
    using that integrity_rooms(2) [OF assms(2)] by (auto simp: xs split: if_splits)
  with Inr assms(2) show ?thesis by (simp add: Ingress_SetActive_def with_rows_def integrity_ingresses)
qed (use assms(2) in \<open>simp add: Ingress_SetActive_def with_rows_def\<close>)

lemma integrity_peers:
  "integrity db \<Longrightarrow> (\<And>x. x \<in> set xs \<Longrightarrow> room_exists (p_RoomID x) db) \<Longrightarrow> integrity (db\<lparr>t_peers := xs\<rparr>)"
  by (simp add: integrity_def room_exists_def)

lemma integrity_Peer_Create:
  assumes "gorm_ok g" "integrity db" "room_exists (p_RoomID p) db" "Peer_Create g p db = (res, db')"
  shows "integrity db'"
proof (cases "dCreate (g_peers g) p (t_peers db)")
  case (Inl err)
  with assms(2,4) show ?thesis by (auto simp: Peer_Create_def)
next
  case (Inr q)
  obtain p' xs where q: "q = (p', xs)" by fastforce
  from driver_okD(1) [OF gorm_okD(7) [OF assms(1)] Inr [unfolded q]] have
    "xs = t_peers db @ [p']" "p_RoomID p' = p_RoomID p" by (auto simp: peer_schema_def)
  with assms(2,3,4) Inr q show ?thesis
    by (auto simp: Peer_Create_def intro!: integrity_peers dest: integrity_rooms(3))
qed

lemma integrity_Peer_Update:
  assumes "gorm_ok g" "integrity db" "room_exists (p_RoomID p) db" "Peer_Update g p db = (res, db')"
  shows "integrity db'"
  using with_rows_cases [OF assms(4) [unfolded Peer_Update_def]]
proof (elim disjE exE conjE)
  fix xs assume "dSave (g_peers g) p (t_peers db) = Inr xs" "db' = db\<lparr>t_peers := xs\<rparr>"
  with driver_okD(8) [OF gorm_okD(7) [OF assms(1)] this(1)] assms(2,3) show ?thesis
    by (auto intro!: integrity_peers dest: integrity_rooms(3) split: if_splits)
qed (use assms(2) in simp)

lemma integrity_Peer_Delete:
  assumes "gorm_ok g" "integrity db" "Peer_Delete g roomID userID db = (res, db')"
  shows "integrity db'"
  using with_rows_cases [OF assms(3) [unfolded Peer_Delete_def]]
proof (elim disjE exE conjE)
  fix xs assume "dDelete (g_peers g) (\<lambda>p. p_RoomID p = roomID \<and> p_UserID p = userID) (t_peers db) = Inr xs"
    "db' = db\<lparr>t_peers := xs\<rparr>"
  with driver_okD(7) [OF gorm_okD(7) [OF assms(1)] this(1)] assms(2) show ?thesis
    by (auto intro!: integrity_peers dest: integrity_rooms(3))
qed (use assms(2) in simp)

section \<open>Handlers\<close>

lemma found_room:
  assumes "\<forall>k. gorm_ok (g k)" "Room_FindByID g i db = Inr v"
  shows "room_exists i db" "r_ID (rv_room v) = i"
  using Room_FindByID_room [OF assms] by (auto simp: room_exists_def)

lemma asked_room:
  assumes "gorm_ok g" "integrity db" "IsMember g roomID userID db"
  shows "room_exists roomID db"
  using member_room [OF assms(2) IsMember_sound [OF assms(1,3)]] .

lemma integrity_Create_handler:
  assumes "env_ok w" "integrity db" "RoomHandler_Create w cx body db = (r, db')"
  shows "integrity db'"
proof (cases "db' = db")
  case False
  with assms(3) obtain r0 res db1 where
    c: "Room_Create (e_rand w 0) (e_rand w 1) (e_gorm w 0) r0 db = (res, db1)"
    and a: "db' = db1 \<or> (\<exists>r1 res2. res = Inr r1 \<and> AddMember (e_gorm w 1) (r_ID r1) (the_userID cx) ''admin'' db1 = (res2, db'))"
    by (auto simp: RoomHandler_Create_def Let_def split: answer_splits)
  from integrity_Room_Create [OF env_okD [OF assms(1)] assms(2) c]
    a integrity_AddMember [OF env_okD [OF assms(1)]] show ?thesis by auto
qed (use assms(2) in simp)

lemma integrity_Join_handler:
  assumes "env_ok w" "integrity db" "RoomHandler_Join w cx body db = (r, db')"
  shows "integrity db'"
proof (rule ccontr)
  assume "\<not> integrity db'"
  with assms(2,3) obtain code rm res where
    f: "Room_FindByInviteCode (e_gorm w 0) code db = Inr rm"
    and a: "AddMember (e_gorm w 2) (r_ID rm) (the_userID cx) ''member'' db = (res, db')"
    by (auto simp: RoomHandler_Join_def Let_def split: answer_splits)
  from driver_okD(2) [OF gorm_okD(2) [OF env_okD [OF assms(1)]] f [unfolded Room_FindByInviteCode_def]]
  have "room_exists (r_ID rm) db" by (simp add: room_exists_def)
  from integrity_AddMember [OF env_okD [OF assms(1)] assms(2) this a] \<open>\<not> integrity db'\<close> show False by simp
qed

lemma integrity_room_handlers:
  assumes "env_ok w" "integrity db"
  shows "RoomHandler_KickMember w cx roomId userId db h = Some (r, db', h') \<Longrightarrow> integrity db'"
    "RoomHandler_Leave w cx roomId db h = (r, db', h') \<Longrightarrow> integrity db'"
    "RoomHandler_Delete w cx roomId db h = (r, db', h') \<Longrightarrow> integrity db'"
    "AdminHandler_DeleteRoom w roomId db = (r, db') \<Longrightarrow> integrity db'"
  using assms(2) integrity_RemoveMember [OF env_okD [OF assms(1)] assms(2)]
    integrity_Room_Delete [OF env_ok_later [OF assms(1), of 4] assms(2)]
    integrity_Room_Delete [OF assms(1) [unfolded env_ok_def] assms(2)]
  by (auto simp: RoomHandler_KickMember_def RoomHandler_Leave_def RoomHandler_Delete_def AdminHandler_DeleteRoom_def
      Let_def split: answer_splits)

lemma integrity_Update_handler:
  assumes "env_ok w" "integrity db" "RoomHandler_UpdateRoom w cx roomId body db = (r, db')"
  shows "integrity db'"
proof (rule ccontr)
  assume "\<not> integrity db'"
  with assms(2,3) obtain roomID v name res where
    f: "Room_FindByID (e_gorm w) roomID db = Inr v"
    and u: "Room_Update (e_gorm w 4) ((rv_room v)\<lparr>r_Name := name\<rparr>) db = (res, db')"
    by (auto simp: RoomHandler_UpdateRoom_def Let_def split: answer_splits)
  from found_room [OF assms(1) [unfolded env_ok_def] f]
  have "room_exists (r_ID ((rv_room v)\<lparr>r_Name := name\<rparr>)) db" by simp
  from integrity_Room_Update [OF env_okD [OF assms(1)] assms(2) this u] \<open>\<not> integrity db'\<close> show False by simp
qed

lemma integrity_Webhook:
  assumes "env_ok w" "integrity db" "QQWebhook w cfg auth body db h = (r, db', h')"
  shows "integrity db'"
proof (rule ccontr)
  assume "\<not> integrity db'"
  with assms(2,3) obtain req v res where
    f: "Room_FindByID (e_gorm w) (qq_RoomID req) db = Inr v"
    and m: "Message_Create (e_gorm w 4) (qq_message (e_clock w 0) req) db = (res, db')"
    by (auto simp: QQWebhook_def Let_def split: answer_splits)
  from found_room(1) [OF assms(1) [unfolded env_ok_def] f]
  have "room_exists (msg_RoomID (qq_message (e_clock w 0) req)) db" by (simp add: qq_message_def)
  from integrity_Message_Create [OF env_okD [OF assms(1)] assms(2) this m] \<open>\<not> integrity db'\<close> show False by simp
qed

lemma integrity_Ingress_handlers:
  assumes "env_ok w" "integrity db"
  shows "IngressHandler_Create w cfg cx roomId fwd host body db h = Some (r, db', h') \<Longrightarrow> integrity db'"
    "IngressHandler_Delete w cx roomId ingressId reg db h = (r, db', h') \<Longrightarrow> integrity db'"
proof -
  assume c: "IngressHandler_Create w cfg cx roomId fwd host body db h = Some (r, db', h')"
  show "integrity db'"
  proof (rule ccontr)
    assume "\<not> integrity db'"
    with assms(2) c obtain roomID v u url label res where
      f: "Room_FindByID (e_gorm w) roomID db = Inr v"
      and i: "Ingress_Create (e_gorm w 5) (new_ingress w roomID u url label) db = (res, db')"
      by (auto simp: IngressHandler_Create_def Let_def split: answer_splits)
    from found_room(1) [OF assms(1) [unfolded env_ok_def] f]
    have "room_exists (ing_RoomID (new_ingress w roomID u url label)) db" by (simp add: new_ingress_def)
    from integrity_Ingress_Create [OF env_okD [OF assms(1)] assms(2) this i] \<open>\<not> integrity db'\<close> show False by simp
  qed
next
  show "IngressHandler_Delete w cx roomId ingressId reg db h = (r, db', h') \<Longrightarrow> integrity db'"
    using assms(2) integrity_Ingress_Delete [OF env_okD [OF assms(1)] assms(2)]
    by (auto simp: IngressHandler_Delete_def split: answer_splits)
qed

lemma integrity_RegisterPeer:
  assumes "\<forall>k. gorm_ok (g k)" "integrity db" "room_exists roomID db"
    and "RegisterPeer g ty dev roomID userID key db c = Some (res, db', c')"
  shows "integrity db'"
proof (cases "FindByRoomAndUser (g 0) roomID userID db")
  case (Inl err)
  show ?thesis
  proof (rule ccontr)
    assume "\<not> integrity db'"
    with Inl assms(2,4) obtain p res' where "Peer_Create (g 2) p db = (res', db')" "p_RoomID p = roomID"
      by (auto simp: RegisterPeer_def Let_def split: answer_splits bind_splits)
    with integrity_Peer_Create [of "g 2" db p res' db'] assms(1,2,3) \<open>\<not> integrity db'\<close> show False by simp
  qed
next
  case (Inr p)
  from driver_okD(2) [OF gorm_okD(7) [OF spec [OF assms(1)]] Inr [unfolded FindByRoomAndUser_def]]
  have p: "p_RoomID p = roomID" by simp
  show ?thesis
  proof (rule ccontr)
    assume "\<not> integrity db'"
    with Inr assms(2,4) obtain res' where "Peer_Update (g 1) (p\<lparr>PublicKey := key\<rparr>) db = (res', db')"
      by (auto simp: RegisterPeer_def Let_def split: answer_splits bind_splits)
    with integrity_Peer_Update [of "g 1" db "p\<lparr>PublicKey := key\<rparr>" res' db'] assms(1,2,3) p \<open>\<not> integrity db'\<close>
    show False by simp
  qed
qed

lemma integrity_UnregisterPeer:
  assumes "\<forall>k. gorm_ok (g k)" "integrity db" "UnregisterPeer g ty dev roomID userID db c = Some (res, db', c')"
  shows "integrity db'"
  using assms(3) integrity_Peer_Delete [OF spec [OF assms(1)] assms(2)]
  by (auto simp: UnregisterPeer_def split: answer_splits bind_splits)

lemma integrity_Vlan:
  assumes "env_ok w" "integrity db"
  shows "VLANHandler_Join w ty dev cx roomId host body db c h = Some (r, db', c', h') \<Longrightarrow> integrity db'"
    "VLANHandler_Leave w ty dev cx roomId db c h = Some (r, db', c', h') \<Longrightarrow> integrity db'"
proof -
  assume j: "VLANHandler_Join w ty dev cx roomId host body db c h = Some (r, db', c', h')"
  show "integrity db'"
  proof (rule ccontr)
    assume "\<not> integrity db'"
    with assms(2) j obtain roomID key res where
      m: "IsMember (e_gorm w 0) roomID (the_userID cx) db"
      and p: "RegisterPeer (later 1 (e_gorm w)) ty dev roomID (the_userID cx) key db c = Some (res, db', c')"
      by (auto simp: VLANHandler_Join_def Let_def split: answer_splits bind_splits)
    from integrity_RegisterPeer [OF env_ok_later [OF assms(1)] assms(2) asked_room [OF env_okD [OF assms(1)] assms(2) m] p]
      \<open>\<not> integrity db'\<close> show False by simp
  qed
next
  assume l: "VLANHandler_Leave w ty dev cx roomId db c h = Some (r, db', c', h')"
  show "integrity db'"
  proof (rule ccontr)
    assume "\<not> integrity db'"
    with assms(2) l obtain roomID res where
      "UnregisterPeer (e_gorm w) ty dev roomID (the_userID cx) db c = Some (res, db', c')"
      by (auto simp: VLANHandler_Leave_def Let_def split: answer_splits bind_splits)
    from integrity_UnregisterPeer [OF assms(1) [unfolded env_ok_def] assms(2) this] \<open>\<not> integrity db'\<close> show False by simp
  qed
qed

text \<open>Accounts and friends touch their own tables only.\<close>

lemma integrity_friend_ops:
  assumes "integrity db"
  shows "Friendship_Create g f db = (res, db') \<Longrightarrow> integrity db'"
    "DeleteFriendship g a b db = (res, db') \<Longrightarrow> integrity db'"
    "UpdateStatus g now a b st db = (res, db') \<Longrightarrow> integrity db'"
  using assms by (auto simp: Friendship_Create_def DeleteFriendship_def UpdateStatus_def with_rows_def split: answer_splits)

lemma integrity_Friends:
  assumes "integrity db"
  shows "FriendHandler_SendRequest w cx body db h = Some (r, db', h') \<Longrightarrow> integrity db'"
    "FriendHandler_HandleRequest w cx requestId body db h = Some (r, db', h') \<Longrightarrow> integrity db'"
proof -
  have delete: "integrity (snd (DeleteFriendship g a b db))" for g a b
    using integrity_friend_ops(2) [OF assms, of g a b] by (cases "DeleteFriendship g a b db") simp
  have clear: "clear_request w a b db = Inr db1 \<Longrightarrow> integrity db1" for a b db1
    using assms delete by (auto simp: clear_request_def split: answer_splits)
  show "integrity db'" if send: "FriendHandler_SendRequest w cx body db h = Some (r, db', h')"
  proof (cases "db' = db")
    case False
    with send obtain a b db1 f res where "clear_request w a b db = Inr db1"
      "Friendship_Create (e_gorm w 3) f db1 = (res, db')"
      by (auto simp: FriendHandler_SendRequest_def Let_def split: answer_splits)
    with clear integrity_friend_ops(1) show ?thesis by blast
  qed (use assms in simp)
  show "FriendHandler_HandleRequest w cx requestId body db h = Some (r, db', h') \<Longrightarrow> integrity db'"
    using assms integrity_friend_ops(3) [OF assms]
    by (auto simp: FriendHandler_HandleRequest_def Let_def split: answer_splits)
qed

lemma integrity_update_users: "integrity db \<Longrightarrow> integrity (snd (update_users g P f db))"
  by (auto simp: update_users_def with_rows_def split: sum.split)

lemma integrity_Accounts:
  assumes "integrity db"
  shows "AuthHandler_Register w cfg body db = (r, db') \<Longrightarrow> integrity db'"
    "AuthHandler_Login w cfg body db = (r, db') \<Longrightarrow> integrity db'"
    "UserHandler_UpdateProfile w cx body db = (r, db') \<Longrightarrow> integrity db'"
    "AdminHandler_ToggleUser w userId body db = (r, db') \<Longrightarrow> integrity db'"
    "UserHandler_UploadAvatar w os st cx upload db fs = (r, db', fs') \<Longrightarrow> integrity db'"
proof -
  show "AuthHandler_Register w cfg body db = (r, db') \<Longrightarrow> integrity db'"
    "AuthHandler_Login w cfg body db = (r, db') \<Longrightarrow> integrity db'"
    using accounts_only_users integrity_other(1) assms by metis+
  have snd: "update_users g P f db = (res, db1) \<Longrightarrow> integrity db1" for g P f res db1
    using integrity_update_users [OF assms, of g P f] by simp
  show "UserHandler_UpdateProfile w cx body db = (r, db') \<Longrightarrow> integrity db'"
    "AdminHandler_ToggleUser w userId body db = (r, db') \<Longrightarrow> integrity db'"
    "UserHandler_UploadAvatar w os st cx upload db fs = (r, db', fs') \<Longrightarrow> integrity db'"
    using assms by (auto simp: UserHandler_UpdateProfile_def AdminHandler_ToggleUser_def UserHandler_UploadAvatar_def
        User_UpdateProfile_def User_SetActive_def Let_def dest: snd split: answer_splits)
qed

section \<open>The server\<close>

lemma integrity_connect: "connect w cfg up tok s = Some (reply, s') \<Longrightarrow> s_db s' = s_db s"
  by (auto simp: connect_def answered_def Let_def split: answer_splits)

lemma integrity_handle:
  assumes "env_ok (w_env W)" "integrity (s_db s)" "handle W cx e rq s = Some (reply, s')"
  shows "integrity (s_db s')"
proof -
  note kept = integrity_Create_handler [OF assms(1,2)] integrity_Join_handler [OF assms(1,2)]
    integrity_room_handlers [OF assms(1,2)] integrity_Update_handler [OF assms(1,2)] integrity_Webhook [OF assms(1,2)]
    integrity_Ingress_handlers [OF assms(1,2)] integrity_Vlan [OF assms(1,2)] integrity_Friends [OF assms(2)]
    integrity_Accounts [OF assms(2)]
  show ?thesis
    using assms(2,3)
    by (cases e) (auto simp: handle_def on_db_def on_db_hub_def on_vlan_def answered_def Let_def
        dest!: kept integrity_connect split: answer_splits)
qed

lemma integrity_serve:
  assumes "env_ok (w_env W)" "integrity (s_db s)" "serve W e rq s = Some (reply, s')"
  shows "integrity (s_db s')"
  using assms(2,3) integrity_handle [OF assms(1,2)] by (auto simp: serve_def answered_def split: sum.splits)

lemma chat_send_stores:
  assumes "HandleChatSend marshal now g a p db h = Some (h', db')" "db' \<noteq> db"
  shows "\<exists>u type res. IsMember (g 0) (cs_RoomID p) u db \<and>
    Message_Create (g 1) (chat_message_row marshal now u type p) db = (res, db')"
proof -
  obtain c where c: "h_cells h a = Some c" using assms(1) by (auto simp: HandleChatSend_def split: bind_splits)
  obtain res db1 where m: "Message_Create (g 1) (chat_message_row marshal now (c_UserID c) (ToLower (TrimSpace (cs_Type p))) p) db
      = (res, db1)" by fastforce
  have "IsMember (g 0) (cs_RoomID p) (c_UserID c) db \<and> db1 = db'"
    using assms c m by (cases res) (auto simp: HandleChatSend_def Let_def split: if_splits sum.splits)
  with m show ?thesis by blast
qed

lemma integrity_HandleMessage:
  assumes "\<forall>k. gorm_ok (o_gorm w k)" "integrity db" "HandleMessage w a data db h = Some (h', db')"
  shows "integrity db'"
proof (rule ccontr)
  assume no: "\<not> integrity db'"
  with assms(2) have "db' \<noteq> db" by blast
  with assms(3) obtain p where "HandleChatSend (o_marshal w) (o_time w) (o_gorm w) a p db h = Some (h', db')"
    by (auto simp: HandleMessage_def handleChatSend_def Let_def split: answer_splits)
  from chat_send_stores [OF this \<open>db' \<noteq> db\<close>] obtain u type res where
    m: "IsMember (o_gorm w 0) (cs_RoomID p) u db"
      "Message_Create (o_gorm w 1) (chat_message_row (o_marshal w) (o_time w) u type p) db = (res, db')"
    by blast
  have "room_exists (msg_RoomID (chat_message_row (o_marshal w) (o_time w) u type p)) db"
    using asked_room [OF spec [OF assms(1)] assms(2) m(1)] by (simp add: chat_message_row_def)
  from integrity_Message_Create [OF spec [OF assms(1)] assms(2) this m(2)] no show False by simp
qed

lemma integrity_wg_cleanup:
  assumes "\<forall>k. gorm_ok (g k)" "integrity db" "wg_cleanup g ty dev roomID userID h db c = Some (h', db', c')"
  shows "integrity db'"
  using assms(2,3) integrity_UnregisterPeer [OF assms(1,2)]
  by (auto simp: wg_cleanup_def Let_def split: answer_splits bind_splits)

lemma integrity_stream_state:
  assumes "\<forall>k. gorm_ok (g k)" "integrity db"
  shows "integrity (fst (on_stream_state g key b db h))"
  using assms(2) integrity_Ingress_SetActive [OF spec [OF assms(1)] assms(2)]
  by (auto simp: on_stream_state_def Let_def split: sum.split)

lemma integrity_cleanup_job:
  assumes "\<forall>(g, cutoff) \<in> set ticks. gorm_ok g" "integrity db"
  shows "integrity (cleanup_ticks ticks days db)"
  using assms
proof (induction ticks arbitrary: db)
  case (Cons t ticks)
  then show ?case by (cases t) (auto intro: integrity_CleanupOldMessages)
qed simp

section \<open>Every run\<close>

text \<open>
  What can happen to the server: a request, a message on a connection, a peer that is cleaned up, a stream
  that starts or stops, a round of the cleanup of old messages, and anything that leaves the database alone
  (the channels, the connections, the streams, the configuration). Every database call may fail.
\<close>

inductive background_step :: "'k server \<Rightarrow> 'k server \<Rightarrow> bool" where
  message: "\<forall>k. gorm_ok (o_gorm w k) \<Longrightarrow> HandleMessage w a data (s_db s) (s_hub s) = Some (h', db') \<Longrightarrow>
    background_step s (s\<lparr>s_db := db', s_hub := h'\<rparr>)"
| cleanup: "\<forall>k. gorm_ok (g k) \<Longrightarrow>
    wg_cleanup g ty dev roomID userID (s_hub s) (s_db s) (s_wg s) = Some (h', db', c') \<Longrightarrow>
    background_step s (s\<lparr>s_db := db', s_hub := h', s_wg := c'\<rparr>)"
| stream: "\<forall>k. gorm_ok (g k) \<Longrightarrow> on_stream_state g streamKey isActive (s_db s) (s_hub s) = (db', h') \<Longrightarrow>
    background_step s (s\<lparr>s_db := db', s_hub := h'\<rparr>)"
| tick: "gorm_ok g \<Longrightarrow> background_step s (s\<lparr>s_db := cleanup_ticks [(g, cutoff)] retentionDays (s_db s)\<rparr>)"
| elsewhere: "s_db s' = s_db s \<Longrightarrow> background_step s s'"

inductive server_step :: "'k server \<Rightarrow> 'k server \<Rightarrow> bool" where
  request: "env_ok (w_env (W :: ('k, bytes) world)) \<Longrightarrow> serve W e rq s = Some (reply, s') \<Longrightarrow> server_step s s'"
| background: "background_step s s' \<Longrightarrow> server_step s s'"

inductive server_reachable :: "'k server \<Rightarrow> bool" where
  start: "s_db s = empty_db \<Longrightarrow> server_reachable s"
| step: "server_reachable s \<Longrightarrow> server_step s s' \<Longrightarrow> server_reachable s'"

lemma integrity_background:
  assumes "background_step s s'" "integrity (s_db s)"
  shows "integrity (s_db s')"
  using assms
proof (induction rule: background_step.induct)
  case (message w a data s h' db')
  then show ?case using integrity_HandleMessage by simp
next
  case (cleanup g ty dev roomID userID s h' db' c')
  then show ?case using integrity_wg_cleanup by simp
next
  case (stream g streamKey isActive s db' h')
  then show ?case using integrity_stream_state [of g "s_db s" streamKey isActive "s_hub s"] by simp
next
  case (tick g s cutoff retentionDays)
  then show ?case using integrity_cleanup_job [of "[(g, cutoff)]"] by simp
qed simp

lemma integrity_step: "server_step s s' \<Longrightarrow> integrity (s_db s) \<Longrightarrow> integrity (s_db s')"
  by (induction rule: server_step.induct) (blast intro: integrity_serve integrity_background)+

lemma reachable_integrity: "server_reachable s \<Longrightarrow> integrity (s_db s)"
  by (induction rule: server_reachable.induct) (simp_all add: integrity_empty integrity_step)

text \<open>
  C10: However requests, messages, cleanups, streams and failing database calls interleave from an empty
  database on, no two rooms and no two messages get one key, nobody is twice in a room, and
  every member, message, ingress and VLAN peer belongs to a room that exists: deleting a
  room leaves nothing behind, and nothing is added to a room that is gone.
\<close>

theorem database_integrity:
  assumes "server_reachable s"
  defines "room_ids \<equiv> map r_ID (t_rooms (s_db s))"
  shows "distinct room_ids \<and> distinct (map msg_ID (t_messages (s_db s))) \<and>
    distinct (map (\<lambda>m. (m_RoomID m, m_UserID m)) (t_members (s_db s))) \<and>
    m_RoomID ` set (t_members (s_db s)) \<subseteq> set room_ids \<and>
    msg_RoomID ` set (t_messages (s_db s)) \<subseteq> set room_ids \<and>
    ing_RoomID ` set (t_ingresses (s_db s)) \<subseteq> set room_ids \<and>
    p_RoomID ` set (t_peers (s_db s)) \<subseteq> set room_ids"
  using reachable_integrity [OF assms(1)] by (auto simp: integrity_def room_exists_def room_ids_def)

text \<open>A user makes a room: it exists, with the user in it.\<close>

definition demo_start :: "bool server" where
  "demo_start = demo_server\<lparr>s_db := empty_db\<rparr>"

lemma demo_Create:
  "\<exists>resp db r m. RoomHandler_Create demo_env demo_bob (Some (JObj [(''name'', JStr ''Den'')])) empty_db = (resp, db) \<and>
     t_rooms db = [r] \<and> t_members db = [m] \<and> m_UserID m = 2"
proof -
  have low: "ToLower ''name'' = ''name''" by code_simp
  show ?thesis
    by (simp add: RoomHandler_Create_def bind_string_def decode_field_def low as_string_def Room_Create_def AddMember_def
        mem_simps empty_db_def the_userID_def demo_bob_def demo_env_def Let_def)
qed

lemma demo_create:
  assumes "s_cfg s = demo_config" "s_db s = empty_db"
  shows "\<exists>reply db r m. serve demo_world CreateRoom
      (demo_request ''Bearer token'' (Some (JObj [(''name'', JStr ''Den'')]))) s =
     Some (reply, s\<lparr>s_db := db\<rparr>) \<and> t_rooms db = [r] \<and> t_members db = [m] \<and> m_UserID m = 2"
proof -
  obtain resp db r m where
    c: "RoomHandler_Create demo_env demo_bob (Some (JObj [(''name'', JStr ''Den'')])) empty_db = (resp, db)"
      "t_rooms db = [r]" "t_members db = [m]" "m_UserID m = 2"
    using demo_Create by blast
  have "w_env demo_world = demo_env" by (simp add: demo_world_def)
  moreover have "rq_body (demo_request h b) = b" for h b by (simp add: demo_request_def)
  ultimately show ?thesis using c assms
    by (intro exI [of _ "Answered resp"] exI [of _ db] exI [of _ r] exI [of _ m])
      (simp add: demo_serve guards_table handle_def on_db_def)
qed

theorem database_integrity_witness:
  "\<exists>s r m. server_reachable (s :: bool server) \<and> t_rooms (s_db s) = [r] \<and> t_members (s_db s) = [m] \<and> m_RoomID m = r_ID r"
proof -
  obtain reply db r m where c: "serve demo_world CreateRoom
      (demo_request ''Bearer token'' (Some (JObj [(''name'', JStr ''Den'')]))) demo_start =
     Some (reply, demo_start\<lparr>s_db := db\<rparr>)" "t_rooms db = [r]" "t_members db = [m]"
    using demo_create [of demo_start] by (auto simp: demo_start_def demo_server_def)
  have "server_reachable demo_start" by (rule start) (simp add: demo_start_def)
  moreover have "env_ok (w_env demo_world)" using demo_env_ok by (simp add: demo_world_def)
  ultimately have reach: "server_reachable (demo_start\<lparr>s_db := db\<rparr>)" using step request c(1) by blast
  from database_integrity [OF this] c(2,3) have "m_RoomID m = r_ID r" by simp
  with reach c(2,3) show ?thesis by (intro exI [of _ "demo_start\<lparr>s_db := db\<rparr>"]) simp
qed

end
