(* ===== verification/Voice_Connection.thy ===== *)
theory Voice_Connection
  imports Voice
begin

text \<open>
  The part of \<open>server/internal/media/voice/engine.go\<close> that faces the WebRTC library: how the engine and a connection
  are configured, and the callbacks that the engine sets on a connection. A callback may start a goroutine; that is
  a function of the engine, because it runs when the rooms have changed.
\<close>

section \<open>Configuration\<close>

record voice_options =
  vo_PublicIP :: string
  vo_PublicIPProvider :: "(unit \<Rightarrow> string) option"
  vo_UDPMin :: "16 word"
  vo_UDPMax :: "16 word"

record voice_setup =
  vs_provider :: "unit \<Rightarrow> string"
  vs_udpMin :: "16 word"
  vs_udpMax :: "16 word"

type_synonym port_range = "16 word \<times> 16 word"

text \<open>The three errors of \<open>New\<close> are those of the library calls, in this order.\<close>

definition voice_engine_New ::
  "string option \<Rightarrow> string option \<Rightarrow> (port_range \<Rightarrow> string option) \<Rightarrow> voice_options \<Rightarrow> bool \<Rightarrow> string + voice_setup \<times> engine" where
  "voice_engine_New registerCodec interceptors setRange opts withSignal =
     (case registerCodec of Some err \<Rightarrow> Inl (''register opus codec: '' @ err)
      | None \<Rightarrow>
     (case interceptors of Some err \<Rightarrow> Inl (''register WebRTC interceptors: '' @ err)
      | None \<Rightarrow>
     (case (if vo_UDPMin opts \<noteq> 0 \<and> vo_UDPMax opts \<ge> vo_UDPMin opts then setRange (vo_UDPMin opts, vo_UDPMax opts)
            else None) of
        Some err \<Rightarrow> Inl (''configure RTC UDP port range: '' @ err)
      | None \<Rightarrow>
          Inr (\<lparr>vs_provider = (case vo_PublicIPProvider opts of
                   None \<Rightarrow> (let publicIP = vo_PublicIP opts in (\<lambda>_. publicIP))
                 | Some provider \<Rightarrow> provider),
                vs_udpMin = vo_UDPMin opts, vs_udpMax = vo_UDPMax opts\<rparr>, voice_New withSignal))))"

text \<open>The settings of a connection: the range of ports if there is one, and the addresses to advertise.\<close>

definition newPeerConnection ::
  "(port_range \<Rightarrow> string option) \<Rightarrow> (port_range option \<times> string list \<Rightarrow> string option) \<Rightarrow> voice_setup
     \<Rightarrow> string + port_range option \<times> string list" where
  "newPeerConnection setRange create s =
     (let ports = (if vs_udpMin s \<noteq> 0 \<and> vs_udpMax s \<ge> vs_udpMin s then Some (vs_udpMin s, vs_udpMax s) else None)
      in case Option.bind ports setRange of
           Some err \<Rightarrow> Inl (''configure RTC UDP port range: '' @ err)
         | None \<Rightarrow>
             (let publicIP = currentIPv4 (Some (vs_provider s));
                  settings = (ports, if publicIP \<noteq> [] then [publicIP] else [])
              in case create settings of Some err \<Rightarrow> Inl err | None \<Rightarrow> Inr settings))"

section \<open>Callbacks\<close>

datatype connection_state = CsNew | CsConnecting | CsConnected | CsDisconnected | CsFailed | CsClosed

fun state_String :: "connection_state \<Rightarrow> string" where
  "state_String CsNew = ''new''"
| "state_String CsConnecting = ''connecting''"
| "state_String CsConnected = ''connected''"
| "state_String CsDisconnected = ''disconnected''"
| "state_String CsFailed = ''failed''"
| "state_String CsClosed = ''closed''"

definition OnICECandidate :: "uint64 \<Rightarrow> uint64 \<Rightarrow> string option \<Rightarrow> engine \<Rightarrow> signal list" where
  "OnICECandidate roomID userID candidate e =
     (case candidate of None \<Rightarrow> [] | Some c \<Rightarrow> emit e userID roomID (RtcICE c))"

definition OnConnectionStateChange ::
  "pion \<Rightarrow> uint64 \<Rightarrow> uint64 \<Rightarrow> connection_state \<Rightarrow> engine \<Rightarrow> signal list \<times> (engine \<Rightarrow> engine \<times> signal list) list" where
  "OnConnectionStateChange lib roomID userID state e =
     (emit e userID roomID (RtcState (state_String state)),
      if state = CsFailed \<or> state = CsClosed then [Leave lib roomID userID] else [])"

text \<open>Only audio is forwarded.\<close>

definition OnTrack ::
  "pion \<Rightarrow> bool \<Rightarrow> string option \<Rightarrow> nat \<Rightarrow> uint64 \<Rightarrow> uint64 \<Rightarrow> engine \<Rightarrow> engine \<times> signal list" where
  "OnTrack lib isAudio trackError ref roomID userID e =
     (if \<not> isAudio then (e, []) else publish_track lib trackError ref roomID userID e)"

definition addTrack :: "pion \<Rightarrow> uint64 \<Rightarrow> uint64 \<Rightarrow> uint64 \<Rightarrow> engine \<Rightarrow> engine" where
  "addTrack lib roomID userID publisherID e = change_peer roomID userID (addTrackLocked lib publisherID) e"

section \<open>Facts\<close>

text \<open>What the callbacks do is a step of the engine or nothing, so that the invariant of the rooms covers them.\<close>

lemma callback_reachable:
  assumes "voice_reachable e"
  shows "OnTrack lib isAudio trackError n i u e = (e', sigs) \<Longrightarrow> voice_reachable e'"
    and "run \<in> set (snd (OnConnectionStateChange lib i u state e0)) \<Longrightarrow> run e = (e', sigs) \<Longrightarrow> voice_reachable e'"
  using assms
  by (auto simp: OnTrack_def OnConnectionStateChange_def intro: vr_step vs_publish vs_leave split: if_splits)

text \<open>
  A failed or closed connection takes its user out of the room and nobody else. The goroutine names the room and
  the user, not the connection: whoever runs it late takes out also a peer that joined again in the meantime.
\<close>

lemma Leave_members:
  assumes "voice_inv e" "Leave lib i u e = (e', sigs)"
  shows "findPeer i u e' = None" "(j, v) \<noteq> (i, u) \<Longrightarrow> (findPeer j v e' = None) = (findPeer j v e = None)"
proof -
  have e': "findPeer k w e' = (if k \<noteq> i then findPeer k w e else if w = u then None
       else if findPeer i u e = None then findPeer i w e
       else map_option (\<lambda>p. renegotiated lib w (p\<lparr>senders := filter (\<lambda>s. s \<noteq> u) (senders p)\<rparr>)) (findPeer i w e))" for k w
    using Leave_effect [OF assms] by blast
  show "findPeer i u e' = None" unfolding e' by simp
  show "(j, v) \<noteq> (i, u) \<Longrightarrow> (findPeer j v e' = None) = (findPeer j v e = None)" unfolding e' by auto
qed

lemma failed_connection_leaves:
  assumes "voice_reachable e" "state \<in> {CsFailed, CsClosed}"
  shows "\<exists>run. snd (OnConnectionStateChange lib i u state e0) = [run] \<and>
    (\<forall>e' sigs. run e = (e', sigs) \<longrightarrow> findPeer i u e' = None \<and>
       (\<forall>j v. (j, v) \<noteq> (i, u) \<longrightarrow> (findPeer j v e' = None) = (findPeer j v e = None)))"
proof -
  have "snd (OnConnectionStateChange lib i u state e0) = [Leave lib i u]"
    using assms(2) by (auto simp: OnConnectionStateChange_def)
  with Leave_members [OF reachable_voice_inv [OF assms(1)], of lib i u] show ?thesis by blast
qed

lemma other_states_stay: "state \<notin> {CsFailed, CsClosed} \<Longrightarrow> snd (OnConnectionStateChange lib i u state e) = []"
  by (simp add: OnConnectionStateChange_def)

text \<open>A late callback of the old connection of user 2 puts out the peer with which the user came back.\<close>

lemma late_close_removes_new_peer:
  defines "left \<equiv> fst (Leave quiet_lib 7 2 demo_voice)"
  defines "again \<equiv> fst (snd (HandleOffer quiet_lib 7 2 ''o'' left))"
  shows "findPeer 7 2 left = None \<and> findPeer 7 2 again \<noteq> None \<and>
    (\<forall>run \<in> set (snd (OnConnectionStateChange quiet_lib 7 2 CsClosed demo_voice)). findPeer 7 2 (fst (run again)) = None)"
proof -
  obtain e1 sigs where l: "Leave quiet_lib 7 2 demo_voice = (e1, sigs)" by fastforce
  then have left: "voice_reachable left" "findPeer 7 2 left = None"
    using Leave_members [OF reachable_voice_inv [OF demo_voice_reachable] l] vr_step [OF demo_voice_reachable vs_leave [OF l]]
    by (simp_all add: left_def)
  have again: "voice_reachable again"
    using left(1) by (cases "HandleOffer quiet_lib 7 2 ''o'' left") (auto simp: again_def intro: vr_step vs_offer)
  have "rooms left = [(7, \<lparr>v_peers =
     [(1, \<lparr>v_ref = 0, v_userID = 1, v_roomID = 7, senders = [], muted = True, speaking = False,
           closed = False, renegotiatePending = False\<rparr>)], v_tracks = [1]\<rparr>)]"
    by (simp add: left_def Leave_def demo_voice_rooms set_room_def renegotiate_def change_peer_def findPeer_def
        quiet_lib_def Let_def)
  then have "findPeer 7 2 again \<noteq> None"
    by (simp add: again_def HandleOffer_def ensurePeer_def findPeer_def insert_peer_def set_room_def
        addExistingTracks_def change_peer_def addTrackLocked_def quiet_lib_def Let_def)
  moreover obtain e2 sigs2 where "Leave quiet_lib 7 2 again = (e2, sigs2)" by fastforce
  ultimately show ?thesis
    using left(2) Leave_members(1) [OF reachable_voice_inv [OF again], of quiet_lib 7 2 e2 sigs2] by (simp add: OnConnectionStateChange_def)
qed

text \<open>The address that a connection advertises is an IPv4 address in dotted form, and the ports are a proper range.\<close>

lemma currentIPv4_dotted: "currentIPv4 provider \<noteq> [] \<Longrightarrow> \<exists>i. IPv4_String i = Some (currentIPv4 provider)"
  by (auto simp: currentIPv4_def bind_eq_Some_conv split: option.splits)

lemma newPeerConnection_settings:
  assumes "newPeerConnection setRange create s = Inr (ports, addresses)"
  shows "(\<forall>a \<in> set addresses. \<exists>i. IPv4_String i = Some a) \<and> length addresses \<le> 1 \<and>
    (\<forall>lo hi. ports = Some (lo, hi) \<longrightarrow> lo \<noteq> 0 \<and> lo \<le> hi \<and> setRange (lo, hi) = None)"
  using assms currentIPv4_dotted [of "Some (vs_provider s)"]
  by (fastforce simp: newPeerConnection_def Let_def split: option.splits if_splits)

section \<open>Who is in the rooms\<close>

text \<open>Only an offer brings somebody in, only leaving takes somebody out, and both concern the user who calls.\<close>

lemma HandleOffer_members:
  assumes "voice_inv e" "HandleOffer lib i u sdp e = (err, e', sigs)" "(j, v) \<noteq> (i, u)"
  shows "(findPeer j v e' = None) = (findPeer j v e = None)"
proof (cases "e' = e")
  case False
  with assms(2) obtain c e1 where e1: "ensurePeer lib i u e = Inr (c, e1)"
    by (cases "ensurePeer lib i u e") (auto simp: HandleOffer_def split: if_splits)
  have inv1: "voice_inv e1"
    using e1 assms(1) insert_peer_inv [OF assms(1)] by (auto simp: ensurePeer_def split: if_splits option.splits)
  have same: "(findPeer j v e1 = None) = (findPeer j v e = None)"
    using e1 assms(3) by (auto simp: ensurePeer_def insert_peer_def findPeer_def Let_def AList.update_conv' split: if_splits option.splits)
  have "e' = e1 \<or> (\<exists>sg. Leave lib i u e1 = (e', sg)) \<or> e' = addExistingTracks lib i u e1"
    using assms(2) e1 False by (auto simp: HandleOffer_def Let_def split: if_splits option.splits sum.splits prod.splits)
  with same Leave_members(2) [OF inv1 _ assms(3)] assms(3) show ?thesis by (auto simp: addExistingTracks_find)
qed simp

lemma renegotiate_members:
  "renegotiate lib i u e = (e', sigs) \<Longrightarrow> (findPeer j v e' = None) = (findPeer j v e = None)"
  using renegotiate_effect(1) [of j v lib i u e] by auto

lemma HandleAnswer_members:
  "HandleAnswer lib lib' i u e = (err, e', sigs) \<Longrightarrow> (findPeer j v e' = None) = (findPeer j v e = None)"
  by (auto simp: HandleAnswer_def Let_def renegotiate_members split: option.splits if_splits)

lemma voice_change_members:
  "SetMuted i u m e = (e', sigs) \<Longrightarrow> (findPeer j v e' = None) = (findPeer j v e = None)"
  "SetSpeaking i u s e = (e', sigs) \<Longrightarrow> (findPeer j v e' = None) = (findPeer j v e = None)"
  by (auto simp: SetMuted_def SetSpeaking_def voice_change_def Let_def split: option.splits if_splits)

lemma leave_all_members:
  assumes "voice_inv e" "leave_all libs xs e = (e', sigs)"
  shows "(findPeer j v e' = None) = ((j, v) \<in> set xs \<or> findPeer j v e = None)"
  using assms
proof (induction xs arbitrary: e sigs)
  case (Cons x xs)
  obtain i u where x: "x = (i, u)" by fastforce
  obtain e1 s1 where l: "Leave (libs (i, u)) i u e = (e1, s1)" by fastforce
  then obtain s2 where "leave_all libs xs e1 = (e', s2)" using Cons.prems(2) by (auto simp: x split: prod.splits)
  from Cons.IH [OF Leave_inv [OF Cons.prems(1) l] this] Leave_members(1) [OF Cons.prems(1) l] Leave_members(2) [OF Cons.prems(1) l, of j v]
  show ?case by (cases "(j, v) = (i, u)") (auto simp: x)
qed simp

text \<open>After \<open>Close\<close> there is no room.\<close>

lemma voice_Close_empty:
  assumes "voice_inv e" "voice_Close libs e = (e', sigs)"
  shows "rooms e' = []"
proof (rule ccontr)
  assume "rooms e' \<noteq> []"
  then obtain i r rs where "rooms e' = (i, r) # rs" by (cases "rooms e'") auto
  then have r: "map_of (rooms e') i = Some r" by simp
  have inv': "voice_inv e'" using assms leave_all_inv unfolding voice_Close_def by blast
  then have "v_peers r \<noteq> []" using r unfolding voice_inv_def voice_shape_def by blast
  then obtain u p ps where "v_peers r = (u, p) # ps" by (cases "v_peers r") auto
  then have "map_of (v_peers r) u = Some p" by simp
  with r have in': "findPeer i u e' = Some p" by (simp add: findPeer_def)
  have out: "(findPeer i u e' = None) = ((i, u) \<in> set (concat (map (\<lambda>(roomID, r). map (\<lambda>(u, p). (v_roomID p, v_userID p)) (v_peers r)) (rooms e))) \<or>
      findPeer i u e = None)"
    by (rule leave_all_members [OF assms(1)]) (use assms(2) in \<open>simp add: voice_Close_def\<close>)
  then obtain q where q: "findPeer i u e = Some q" using in' by auto
  then obtain r0 where r0: "map_of (rooms e) i = Some r0" "map_of (v_peers r0) u = Some q"
    by (auto simp: findPeer_def split: option.splits)
  moreover have "v_roomID q = i" "v_userID q = u" using voice_inv_peer [OF assms(1) q] by (simp_all add: peer_ok_def)
  ultimately have "(i, u) \<in> set (concat (map (\<lambda>(roomID, r). map (\<lambda>(u, p). (v_roomID p, v_userID p)) (v_peers r)) (rooms e)))"
    by (force dest!: map_of_SomeD)
  with out have "findPeer i u e' = None" by blast
  with in' show False by simp
qed

end
