(* ===== verification/Hub_Voice.thy ===== *)
theory Hub_Voice
  imports Hub_Properties Voice_Connection
begin

text \<open>
  The hub and the voice engine together: every message of a client is at most one call of the engine, made for the
  user of the connection, and nobody gets into the voice room of a room that he is not a member of.
\<close>

section \<open>The calls of the engine\<close>

text \<open>What a client with these memberships may do to the engine.\<close>

inductive engine_call :: "gorm \<Rightarrow> database \<Rightarrow> client \<Rightarrow> engine \<Rightarrow> engine \<Rightarrow> bool" for g db c e where
  call_leave: "engine_call g db c e (fst (Leave lib j (c_UserID c) e))"
| call_muted: "engine_call g db c e (fst (SetMuted j (c_UserID c) m e))"
| call_speaking: "engine_call g db c e (fst (SetSpeaking j (c_UserID c) s e))"
| call_answer: "engine_call g db c e (fst (snd (HandleAnswer lib lib' j (c_UserID c) e)))"
| call_offer: "IsInRoom j c \<Longrightarrow> IsMember g j (c_UserID c) db \<Longrightarrow>
    engine_call g db c e (fst (snd (HandleOffer lib j (c_UserID c) sdp e)))"

lemma signals_voice: "for_each SendMediaSignal sigs h = Some h' \<Longrightarrow> h_voice h' = h_voice h"
  using only_sends_for_each [of SendMediaSignal, OF only_sends_media] by (auto simp: only_sends_def)

lemma with_voice_engine:
  "with_voice f h = Some h' \<Longrightarrow> h_voice h = Some e \<Longrightarrow> h_voice h' = Some (fst (f e))"
  by (auto simp: with_voice_def dest: signals_voice split: prod.splits)

lemma on_client_voice: "on_client f a h = Some h' \<Longrightarrow> h_voice h' = h_voice h"
  using on_client_fields by blast

lemma Broadcast_voice [simp]: "h_voice (BroadcastToRoom j pl ex h) = h_voice h"
  by (simp add: BroadcastToRoom_def)

text \<open>A step of the hub that is at most one such call, for the client at this address.\<close>

definition engine_run :: "gorm \<Rightarrow> database \<Rightarrow> addr \<Rightarrow> hub \<Rightarrow> hub \<Rightarrow> bool" where
  "engine_run g db a h h' \<longleftrightarrow> (\<forall>e. h_voice h = Some e \<longrightarrow> h_voice h' = Some e \<or>
     (\<exists>c e'. h_cells h a = Some c \<and> h_voice h' = Some e' \<and> engine_call g db c e e'))"

lemma engine_run_same: "h_voice h' = h_voice h \<Longrightarrow> engine_run g db a h h'"
  by (simp add: engine_run_def)

lemma engine_run_call:
  assumes "with_voice f h1 = Some h2" "h_voice h1 = h_voice h" "h_voice h2 = h_voice h'" "h_cells h a = Some c"
    "\<And>e. engine_call g db c e (fst (f e))"
  shows "engine_run g db a h h'"
  using assms with_voice_engine [OF assms(1)] by (auto simp: engine_run_def)

lemma RoomLeave_engine: "handleRoomLeave lib a env h = Some h' \<Longrightarrow> engine_run g db a h h'"
  by (auto simp: handleRoomLeave_def bind_eq_Some_conv Let_def split: option.splits
      intro: engine_run_same engine_run_call [OF _ on_client_voice _ _ call_leave])

lemma VoiceMute_engine: "handleVoiceMute a env h = Some h' \<Longrightarrow> engine_run g db a h h'"
  by (auto simp: handleVoiceMute_def bind_eq_Some_conv Let_def split: option.splits if_splits prod.splits
      intro: engine_run_same engine_run_call [OF _ refl _ _ call_muted])

lemma RTC_engine:
  "handleRTCAnswer lib lib' a env h = Some h' \<Longrightarrow> engine_run g db a h h'"
  "handleRTCLeave lib a env h = Some h' \<Longrightarrow> engine_run g db a h h'"
  "handleRTCSpeaking a env h = Some h' \<Longrightarrow> engine_run g db a h h'"
  "handleRTCICE lib a env h = Some h' \<Longrightarrow> engine_run g db a h h'"
  by (auto simp: handleRTCAnswer_def handleRTCLeave_def handleRTCSpeaking_def handleRTCICE_def bind_eq_Some_conv Let_def
      split: option.splits if_splits intro: engine_run_same engine_run_call [OF _ refl refl _ call_answer]
        engine_run_call [OF _ refl refl _ call_leave] engine_run_call [OF _ refl refl _ call_speaking])

lemma RTCOffer_engine:
  assumes "handleRTCOffer g lib a env db h = Some h'"
  shows "engine_run g db a h h'"
proof -
  from assms obtain c where c: "h_cells h a = Some c" by (auto simp: handleRTCOffer_def bind_eq_Some_conv)
  show ?thesis
  proof (cases "in_RoomID env = 0 \<or> \<not> IsInRoom (in_RoomID env) c \<or> \<not> IsMember g (in_RoomID env) (c_UserID c) db
      \<or> h_voice h = None \<or> DecodeDescription (in_Payload env) = None")
    case True
    with assms c show ?thesis
      by (auto simp: handleRTCOffer_def Let_def split: if_splits option.splits intro: engine_run_same dest: on_client_voice)
  next
    case False
    then obtain e sdp where e: "h_voice h = Some e" "DecodeDescription (in_Payload env) = Some sdp" by auto
    obtain res e' sigs where o: "HandleOffer lib (in_RoomID env) (c_UserID c) sdp e = (res, e', sigs)" by (rule prod_cases3)
    from assms c e False o obtain h1 where h1: "for_each SendMediaSignal sigs (h\<lparr>h_voice := Some e'\<rparr>) = Some h1"
      "(case res of None \<Rightarrow> Some h1 | Some err \<Rightarrow> on_client (SendEventToRoom (RTCErrorP (EngineError err)) (in_RoomID env)) a h1) = Some h'"
      by (auto simp: handleRTCOffer_def Let_def bind_eq_Some_conv)
    from h1(2) have "h_voice h' = h_voice h1" by (auto split: option.splits dest: on_client_voice)
    with signals_voice [OF h1(1)] have "h_voice h' = Some e'" by simp
    moreover have "engine_call g db c e e'"
      using call_offer [of "in_RoomID env" c g db e lib sdp] False o by simp
    ultimately show ?thesis using c e(1) by (auto simp: engine_run_def)
  qed
qed

lemma RoomJoin_voice: "handleRoomJoin g a env db h = Some h' \<Longrightarrow> h_voice h' = h_voice h"
  by (auto simp: handleRoomJoin_def bind_eq_Some_conv Let_def split: option.splits if_splits dest!: on_client_voice)

lemma ChatSend_voice: "handleChatSend marshal now g a env db h = Some (h', db') \<Longrightarrow> h_voice h' = h_voice h"
  by (auto simp: handleChatSend_def HandleChatSend_def sendChatError_def bind_eq_Some_conv Let_def
      split: option.splits if_splits sum.splits prod.splits dest!: on_client_voice)

lemma HandleMessage_engine: "HandleMessage w a data db h = Some (h', db') \<Longrightarrow> engine_run (o_gorm w 0) db a h h'"
  unfolding HandleMessage_def
  by (auto simp: Let_def split: option.splits if_splits intro: engine_run_same RoomLeave_engine VoiceMute_engine
      RTCOffer_engine RTC_engine dest: on_client_voice RoomJoin_voice ChatSend_voice)

section \<open>Who speaks in a room\<close>

lemma engine_call_reachable: "engine_call g db c e e' \<Longrightarrow> voice_reachable e \<Longrightarrow> voice_reachable e'"
  by (induction rule: engine_call.induct)
    (erule vr_step, (rule vs_leave vs_muted vs_speaking vs_answer vs_offer), (simp add: prod_eq_iff | rule prod.collapse [symmetric]))+

definition in_voice :: "engine \<Rightarrow> uint64 \<Rightarrow> uint64 \<Rightarrow> bool" where
  "in_voice e roomID userID \<longleftrightarrow> findPeer roomID userID e \<noteq> None"

lemma in_voice_cong: "(findPeer j v e' = None) = (findPeer j v e = None) \<Longrightarrow> in_voice e' j v = in_voice e j v"
  by (simp add: in_voice_def)

lemma engine_call_members:
  assumes "engine_call g db c e e'" "voice_inv e" "in_voice e' j v \<noteq> in_voice e j v"
  shows "v = c_UserID c \<and> (in_voice e' j v \<longrightarrow> IsInRoom j c \<and> IsMember g j v db)"
  using assms(1)
proof cases
  case (call_leave lib i)
  obtain e1 sigs where l: "Leave lib i (c_UserID c) e = (e1, sigs)" by fastforce
  with call_leave have e1: "e1 = e'" by simp
  have "(j, v) = (i, c_UserID c)"
    using in_voice_cong [OF Leave_members(2) [OF assms(2) l, of j v]] assms(3) e1 by blast
  moreover have "\<not> in_voice e' i (c_UserID c)" using Leave_members(1) [OF assms(2) l] e1 by (simp add: in_voice_def)
  ultimately show ?thesis by blast
next
  case (call_muted i m)
  obtain e1 sigs where "SetMuted i (c_UserID c) m e = (e1, sigs)" by fastforce
  with call_muted in_voice_cong [OF voice_change_members(1) [OF this]] assms(3) show ?thesis by simp
next
  case (call_speaking i s)
  obtain e1 sigs where "SetSpeaking i (c_UserID c) s e = (e1, sigs)" by fastforce
  with call_speaking in_voice_cong [OF voice_change_members(2) [OF this]] assms(3) show ?thesis by simp
next
  case (call_answer lib lib' i)
  obtain err e1 sigs where "HandleAnswer lib lib' i (c_UserID c) e = (err, e1, sigs)" by (rule prod_cases3)
  with call_answer in_voice_cong [OF HandleAnswer_members [OF this]] assms(3) show ?thesis by simp
next
  case (call_offer i lib sdp)
  obtain err e1 sigs where o: "HandleOffer lib i (c_UserID c) sdp e = (err, e1, sigs)" by (rule prod_cases3)
  with call_offer(1) have e1: "e1 = e'" by simp
  have "(j, v) = (i, c_UserID c)"
    using in_voice_cong [OF HandleOffer_members [OF assms(2) o, of j v]] assms(3) e1 by blast
  with call_offer show ?thesis by simp
qed


text \<open>User 1 asks for the voice of room 7.\<close>

definition demo_outside :: outside where
  "demo_outside = \<lparr>o_time = 5, o_marshal = (\<lambda>_. []), o_gorm = (\<lambda>_. mem_gorm), o_pion = quiet_lib, o_pion' = quiet_lib,
     o_timestamp = (\<lambda>_. True)\<rparr>"

definition demo_offer :: json where
  "demo_offer = JObj [(''event'', JStr ''rtc.offer''), (''room_id'', JNum 7),
     (''payload'', JObj [(''type'', JStr ''offer''), (''sdp'', JStr ''v=0'')])]"

lemma demo_offer_decoded:
  "decode_envelope (\<lambda>_. True) demo_offer = Some \<lparr>in_Event = ''rtc.offer'', in_RoomID = 7,
     in_Payload = Some (JObj [(''type'', JStr ''offer''), (''sdp'', JStr ''v=0'')])\<rparr>"
  "DecodeDescription (Some (JObj [(''type'', JStr ''offer''), (''sdp'', JStr ''v=0'')])) = Some ''v=0''"
  by code_simp+

lemma demo_offer_run:
  "\<exists>h' e'. HandleMessage demo_outside 0 (Some demo_offer) demo_db (demo_hub\<lparr>h_voice := Some (voice_New True)\<rparr>) = Some (h', demo_db) \<and>
     h_voice h' = Some e' \<and> findPeer 7 1 e' \<noteq> None"
  by (simp add: HandleMessage_def demo_outside_def demo_offer_decoded handleRTCOffer_def demo_hub_def demo_client_def
      NewClient_def IsInRoom_def IsMember_def count_or_zero_def mem_simps demo_db_def empty_db_def NewHub_def
      HandleOffer_def ensurePeer_def findPeer_def insert_peer_def voice_New_def set_room_def addExistingTracks_def
      change_peer_def quiet_lib_def emit_def broadcastParticipants_def SendMediaSignal_def on_client_def update_cell_def
      SendEventToRoom_def Let_def)


end
