(* ===== verification/System_Invariant.thy ===== *)
theory System_Invariant
  imports Db_Integrity Hub_Voice
begin

text \<open>
  The whole server as one transition system: starts and restarts of \<open>main\<close>, requests, messages, the goroutines of the
  hub, of the voice engine, of the streams and of the cleanups. In every reachable state each component is in a
  state that it can reach on its own, so the theorems about a component hold of the running server, and the tables
  of the database and of the virtual network fit together.
\<close>

section \<open>What a handler does to the hub\<close>

definition hub_follows :: "hub \<Rightarrow> hub \<Rightarrow> bool" where
  "hub_follows h h' \<longleftrightarrow> (hub_reachable h \<longrightarrow> hub_reachable h') \<and> h_voice h' = h_voice h"

lemma follows_refl [simp]: "hub_follows h h"
  by (simp add: hub_follows_def)

lemma follows_broadcast [simp]: "hub_follows h (BroadcastToRoom roomID pl ex h)"
  by (auto simp: hub_follows_def intro: hub_request)

lemma follows_user: "SendToUser userID pl h = Some h' \<Longrightarrow> hub_follows h h'"
  using hub_to_user [of h userID pl h'] on_client_voice
  by (auto simp: hub_follows_def SendToUser_def split: option.splits)

lemma follows_kick: "KickUserFromRoom roomID userID reason h = Some h' \<Longrightarrow> hub_follows h h'"
  unfolding hub_follows_def
proof (intro conjI impI)
  assume k: "KickUserFromRoom roomID userID reason h = Some h'"
  show "hub_reachable h \<Longrightarrow> hub_reachable h'" by (rule hub_kick [OF _ k])
  have user: "SendToUser userID pl h = Some h1 \<Longrightarrow> h_voice h1 = h_voice h" for pl h1
    using follows_user hub_follows_def by blast
  from k show "h_voice h' = h_voice h"
    by (auto simp: KickUserFromRoom_def bind_eq_Some_conv Let_def split: option.splits dest!: on_client_voice user)
qed

lemma follows_handlers:
  "RoomHandler_KickMember w cx roomId userId db h = Some (r, db', h') \<Longrightarrow> hub_follows h h'"
  "RoomHandler_Leave w cx roomId db h = (r, db', h') \<Longrightarrow> hub_follows h h'"
  "RoomHandler_Delete w cx roomId db h = (r, db', h') \<Longrightarrow> hub_follows h h'"
  "QQWebhook w cfg auth body db h = (r, db', h') \<Longrightarrow> hub_follows h h'"
  "IngressHandler_Create w cf cx roomId fwd host body db h = Some (r, db', h') \<Longrightarrow> hub_follows h h'"
  "IngressHandler_Delete w cx roomId ingressId reg db h = (r, db', h') \<Longrightarrow> hub_follows h h'"
  by (auto simp: RoomHandler_KickMember_def RoomHandler_Leave_def RoomHandler_Delete_def QQWebhook_def
      IngressHandler_Create_def IngressHandler_Delete_def Let_def dest: follows_kick split: answer_splits)

lemma follows_vlan:
  "VLANHandler_Join w ty dev cx roomId host body db c h = Some (r, db', c', h') \<Longrightarrow> hub_follows h h'"
  "VLANHandler_Leave w ty dev cx roomId db c h = Some (r, db', c', h') \<Longrightarrow> hub_follows h h'"
  by (auto simp: VLANHandler_Join_def VLANHandler_Leave_def Let_def split: answer_splits bind_splits)

lemma follows_friends:
  "FriendHandler_SendRequest w cx body db h = Some (r, db', h') \<Longrightarrow> hub_follows h h'"
  "FriendHandler_HandleRequest w cx requestId body db h = Some (r, db', h') \<Longrightarrow> hub_follows h h'"
  by (auto simp: FriendHandler_SendRequest_def FriendHandler_HandleRequest_def Let_def dest: follows_user
      split: answer_splits)

lemma connect_hub:
  assumes "connect w cfg up tok s = Some (reply, s')" "\<forall>a. up = Some a \<longrightarrow> h_cells (s_hub s) a = None"
  shows "hub_follows (s_hub s) (s_hub s')"
proof (cases "s' = s")
  case False
  with assms(1) obtain a u n r h' where a: "up = Some a" "s' = s\<lparr>s_hub := h'\<rparr>"
    "Run_Register a ((s_hub s)\<lparr>h_cells := (h_cells (s_hub s))(a \<mapsto> NewClient u n r)\<rparr>) = Some h'"
    by (auto simp: connect_def answered_def Let_def split: answer_splits)
  from a(3) have "h_voice h' = h_voice (s_hub s)"
    by (auto simp: Run_Register_def Let_def dest!: on_client_voice split: option.splits)
  with a assms(2) show ?thesis by (auto simp: hub_follows_def intro: hub_connect)
qed simp

lemma handle_hub:
  assumes "handle W cx e rq s = Some (reply, s')" "\<forall>a. w_upgrade W = Some a \<longrightarrow> h_cells (s_hub s) a = None"
  shows "hub_follows (s_hub s) (s_hub s')"
  using assms(1)
  by (cases e) (auto simp: handle_def on_db_def on_db_hub_def on_vlan_def answered_def Let_def
      intro: connect_hub [OF _ assms(2)] dest!: follows_handlers follows_vlan follows_friends split: answer_splits)

section \<open>What a handler does to the streams\<close>

lemma subscribe_reachable:
  "registry_Subscribe key r = Some (res, r') \<Longrightarrow> registry_reachable r \<Longrightarrow> registry_reachable r'"
  by (auto simp: registry_Subscribe_def intro: reach_step step_subscribe split: option.splits)

lemma close_reachable: "Subscription_Close c r = Some r' \<Longrightarrow> registry_reachable r \<Longrightarrow> registry_reachable r'"
  by (blast intro: reach_step step_close)

lemma ProxyStream_reachable:
  "ProxyStream wr param evs r w = Some (status, out, r') \<Longrightarrow> registry_reachable r \<Longrightarrow> registry_reachable r'"
  by (auto simp: ProxyStream_def Let_def dest!: subscribe_reachable close_reachable split: answer_splits bind_splits)

lemma Answer_reachable:
  "Answer lib key sdp r = Some (res, r') \<Longrightarrow> registry_reachable r \<Longrightarrow> registry_reachable r'"
  by (auto simp: Answer_def dest!: subscribe_reachable close_reachable split: answer_splits bind_splits)

lemma RTCPlay_reachable:
  "RTCPlay lib now body r = Some (res, r') \<Longrightarrow> registry_reachable r \<Longrightarrow> registry_reachable r'"
  by (auto simp: RTCPlay_def dest!: Answer_reachable split: answer_splits bind_splits)

lemma handle_streams:
  assumes "handle W cx e rq s = Some (reply, s')" "registry_reachable (s_streams s)"
  shows "registry_reachable (s_streams s')"
  using assms
  by (cases e) (auto simp: handle_def on_db_def on_db_hub_def on_vlan_def answered_def connect_def Let_def
      dest!: ProxyStream_reachable RTCPlay_reachable split: answer_splits)

section \<open>What a handler does to the virtual network\<close>

text \<open>Only the operations of the coordinator add a row of a peer or change one; a room that is deleted takes its rows along.\<close>

definition peers_follow :: "database \<Rightarrow> database \<Rightarrow> bool" where
  "peers_follow db db' \<longleftrightarrow> (\<exists>P. t_peers db' = filter P (t_peers db))"

lemma peers_same: "t_peers db' = t_peers db \<Longrightarrow> peers_follow db db'"
  unfolding peers_follow_def by (intro exI [of _ "\<lambda>_. True"]) simp

lemma peers_delete: "\<forall>k. gorm_ok (g k) \<Longrightarrow> Room_Delete g i db = (res, db') \<Longrightarrow> peers_follow db db'"
  using Room_Delete_cases [of g i db res db'] peers_same [of db db] by (auto simp: purge_room_def peers_follow_def)

lemma peers_repositories:
  "Room_Create rand1 rand2 g rm db = (rres, db') \<Longrightarrow> t_peers db' = t_peers db"
  "Room_Update g rm db = (ures, db') \<Longrightarrow> t_peers db' = t_peers db"
  "AddMember g roomID userID role db = (ures, db') \<Longrightarrow> t_peers db' = t_peers db"
  "RemoveMember g roomID userID db = (ures, db') \<Longrightarrow> t_peers db' = t_peers db"
  "Message_Create g m db = (mres, db') \<Longrightarrow> t_peers db' = t_peers db"
  "Ingress_Create g i db = (ires, db') \<Longrightarrow> t_peers db' = t_peers db"
  "Ingress_Delete g k db = (ures, db') \<Longrightarrow> t_peers db' = t_peers db"
  "Ingress_SetActive g k act db = (ures, db') \<Longrightarrow> t_peers db' = t_peers db"
  "Friendship_Create g f db = (fres, db') \<Longrightarrow> t_peers db' = t_peers db"
  "DeleteFriendship g a b db = (ures, db') \<Longrightarrow> t_peers db' = t_peers db"
  "UpdateStatus g now a b st db = (ures, db') \<Longrightarrow> t_peers db' = t_peers db"
  "update_users g P h db = (ures, db') \<Longrightarrow> t_peers db' = t_peers db"
  "CleanupOldMessages g cutoff days db = (cres, db') \<Longrightarrow> t_peers db' = t_peers db"
  by (auto simp: Room_Create_def Room_Update_def AddMember_def RemoveMember_def Message_Create_def Ingress_Create_def
      Ingress_Delete_def Ingress_SetActive_def Friendship_Create_def DeleteFriendship_def UpdateStatus_def
      update_users_def CleanupOldMessages_def with_rows_def Let_def split: answer_splits)

lemma peers_rooms:
  "RoomHandler_Create w cx body db = (r, db') \<Longrightarrow> t_peers db' = t_peers db"
  "RoomHandler_Join w cx body db = (r, db') \<Longrightarrow> t_peers db' = t_peers db"
  "RoomHandler_UpdateRoom w cx roomId body db = (r, db') \<Longrightarrow> t_peers db' = t_peers db"
  "RoomHandler_KickMember w cx roomId userId db h = Some (r, db', h') \<Longrightarrow> t_peers db' = t_peers db"
  "RoomHandler_Leave w cx roomId db h = (r, db', h') \<Longrightarrow> t_peers db' = t_peers db"
  "QQWebhook w cfg auth body db h = (r, db', h') \<Longrightarrow> t_peers db' = t_peers db"
  "IngressHandler_Create w cf cx roomId fwd host body db h = Some (r, db', h') \<Longrightarrow> t_peers db' = t_peers db"
  "IngressHandler_Delete w cx roomId ingressId reg db h = (r, db', h') \<Longrightarrow> t_peers db' = t_peers db"
  by (auto simp: RoomHandler_Create_def RoomHandler_Join_def RoomHandler_UpdateRoom_def RoomHandler_KickMember_def
      RoomHandler_Leave_def QQWebhook_def IngressHandler_Create_def IngressHandler_Delete_def Let_def
      dest!: peers_repositories split: answer_splits)

lemma peers_room_deleted:
  assumes "env_ok w"
  shows "RoomHandler_Delete w cx roomId db h = (r, db', h') \<Longrightarrow> peers_follow db db'"
    "AdminHandler_DeleteRoom w roomId db = (r, db') \<Longrightarrow> peers_follow db db'"
  using peers_delete [OF env_ok_later [OF assms, of 4]] peers_delete [OF assms [unfolded env_ok_def]]
  by (auto simp: RoomHandler_Delete_def AdminHandler_DeleteRoom_def Let_def intro: peers_same split: answer_splits)

lemma peers_friends:
  "FriendHandler_SendRequest w cx body db h = Some (r, db', h') \<Longrightarrow> t_peers db' = t_peers db"
  "FriendHandler_HandleRequest w cx requestId body db h = Some (r, db', h') \<Longrightarrow> t_peers db' = t_peers db"
proof -
  have delete: "t_peers (snd (DeleteFriendship g a b db)) = t_peers db" for g a b
    using peers_repositories(10) [of g a b db] by (cases "DeleteFriendship g a b db") simp
  have clear: "clear_request w a b db = Inr db1 \<Longrightarrow> t_peers db1 = t_peers db" for a b db1
    using delete by (auto simp: clear_request_def split: answer_splits)
  show "FriendHandler_SendRequest w cx body db h = Some (r, db', h') \<Longrightarrow> t_peers db' = t_peers db"
    by (auto simp: FriendHandler_SendRequest_def Let_def dest!: clear peers_repositories(9) split: answer_splits)
  show "FriendHandler_HandleRequest w cx requestId body db h = Some (r, db', h') \<Longrightarrow> t_peers db' = t_peers db"
    by (auto simp: FriendHandler_HandleRequest_def Let_def dest: peers_repositories(11) split: answer_splits)
qed

lemma peers_accounts:
  "AuthHandler_Register w au body db = (r, db') \<Longrightarrow> t_peers db' = t_peers db"
  "AuthHandler_Login w au body db = (r, db') \<Longrightarrow> t_peers db' = t_peers db"
  "UserHandler_UpdateProfile w cx body db = (r, db') \<Longrightarrow> t_peers db' = t_peers db"
  "AdminHandler_ToggleUser w userId body db = (r, db') \<Longrightarrow> t_peers db' = t_peers db"
  "UserHandler_UploadAvatar w os st cx upload db fs = (r, db', fs') \<Longrightarrow> t_peers db' = t_peers db"
proof -
  have same: "t_peers (db\<lparr>t_users := us\<rparr>) = t_peers db" for us by simp
  show "AuthHandler_Register w au body db = (r, db') \<Longrightarrow> t_peers db' = t_peers db"
    "AuthHandler_Login w au body db = (r, db') \<Longrightarrow> t_peers db' = t_peers db"
    using accounts_only_users same by metis+
  show "UserHandler_UpdateProfile w cx body db = (r, db') \<Longrightarrow> t_peers db' = t_peers db"
    "AdminHandler_ToggleUser w userId body db = (r, db') \<Longrightarrow> t_peers db' = t_peers db"
    "UserHandler_UploadAvatar w os st cx upload db fs = (r, db', fs') \<Longrightarrow> t_peers db' = t_peers db"
    by (auto simp: UserHandler_UpdateProfile_def AdminHandler_ToggleUser_def UserHandler_UploadAvatar_def
        User_UpdateProfile_def User_SetActive_def Let_def dest: peers_repositories(12) split: answer_splits)
qed

text \<open>The configuration of the coordinator stays, and the addresses of the rooms stay distinct.\<close>

definition vlan_ok :: "wg_config \<Rightarrow> 'k server \<Rightarrow> bool" where
  "vlan_ok cfg s \<longleftrightarrow> co_cfg (s_wg s) = cfg \<and> vlan_inv cfg (t_peers (s_db s))"

lemma vlan_ok_peers:
  "vlan_ok cfg s \<Longrightarrow> peers_follow (s_db s) (s_db s') \<Longrightarrow> s_wg s' = s_wg s \<Longrightarrow> vlan_ok cfg s'"
  by (auto simp: vlan_ok_def peers_follow_def intro: vlan_inv_filter)

lemma vlan_ok_same:
  "vlan_ok cfg s \<Longrightarrow> t_peers (s_db s') = t_peers (s_db s) \<Longrightarrow> s_wg s' = s_wg s \<Longrightarrow> vlan_ok cfg s'"
  by (simp add: vlan_ok_def)

lemma handle_peers:
  assumes "handle W cx e rq s = Some (reply, s')" "env_ok (w_env W)" "e \<noteq> JoinVlan" "e \<noteq> LeaveVlan"
  shows "s_wg s' = s_wg s \<and> peers_follow (s_db s) (s_db s')"
proof -
  have connected: "t_peers (s_db s') = t_peers (s_db s) \<and> s_wg s' = s_wg s"
    if "connect w au up tok s = Some (reply, s')" for w au up tok
    using that by (auto simp: connect_def answered_def Let_def split: answer_splits)
  note defs = handle_def on_db_def on_db_hub_def answered_def Let_def
  consider "e = DeleteRoom" | "e = AdminDelete" | "e \<noteq> DeleteRoom" "e \<noteq> AdminDelete" by blast
  then show ?thesis
  proof cases
    case 1
    obtain r db' h' where r: "RoomHandler_Delete (w_env W) cx (rq_param rq ''roomId'') (s_db s) (s_hub s) = (r, db', h')"
      by (rule prod_cases3)
    from peers_room_deleted(1) [OF assms(2) r] assms(1) 1 r show ?thesis by (auto simp: defs)
  next
    case 2
    obtain r db' where r: "AdminHandler_DeleteRoom (w_env W) (rq_param rq ''roomId'') (s_db s) = (r, db')" by fastforce
    from peers_room_deleted(2) [OF assms(2) r] assms(1) 2 r show ?thesis by (auto simp: defs)
  next
    case 3
    with assms(1,3,4) have "t_peers (s_db s') = t_peers (s_db s) \<and> s_wg s' = s_wg s"
      by (cases e) (auto simp: defs dest: peers_rooms peers_friends peers_accounts connected split: answer_splits)
    then show ?thesis by (simp add: peers_same)
  qed
qed

lemma join_registers:
  "VLANHandler_Join w ty dev cx roomId host body db c h = Some (r, db', c', h') \<Longrightarrow> db' = db \<and> c' = c \<or>
     (\<exists>roomID key res. RegisterPeer (later 1 (e_gorm w)) ty dev roomID (the_userID cx) key db c = Some (res, db', c'))"
  by (auto simp: VLANHandler_Join_def Let_def split: answer_splits bind_splits)

lemma leave_unregisters:
  "VLANHandler_Leave w ty dev cx roomId db c h = Some (r, db', c', h') \<Longrightarrow> db' = db \<and> c' = c \<or>
     (\<exists>roomID res. UnregisterPeer (e_gorm w) ty dev roomID (the_userID cx) db c = Some (res, db', c'))"
  by (auto simp: VLANHandler_Leave_def Let_def split: answer_splits bind_splits)

lemma handle_vlan:
  assumes "handle W cx e rq s = Some (reply, s')" "env_ok (w_env W)" "wgtypes_ok (w_keys W)" "vlan_ok cfg s"
  shows "vlan_ok cfg s'"
proof -
  note vlan = assms(4) [unfolded vlan_ok_def]
  note later1 = env_ok_later [OF assms(2), of 1]
  have kept: "vlan_inv (co_cfg (s_wg s)) (t_peers (s_db s))" using vlan by simp
  have join: "vlan_inv cfg (t_peers db') \<and> co_cfg c' = cfg"
    if "VLANHandler_Join (w_env W) (w_keys W) dev cx roomId host body (s_db s) (s_wg s) h = Some (r, db', c', h')"
    for dev cx roomId host body h r db' c' h'
    using join_registers [OF that] vlan RegisterPeer_vlan [OF later1 assms(3) kept] by metis
  have leave: "vlan_inv cfg (t_peers db') \<and> co_cfg c' = cfg"
    if "VLANHandler_Leave (w_env W) (w_keys W) dev cx roomId (s_db s) (s_wg s) h = Some (r, db', c', h')"
    for dev cx roomId h r db' c' h'
    using leave_unregisters [OF that] vlan UnregisterPeer_vlan [OF assms(2) [unfolded env_ok_def] assms(3) kept] by metis
  consider "e = JoinVlan" | "e = LeaveVlan" | "e \<noteq> JoinVlan" "e \<noteq> LeaveVlan" by blast
  then show ?thesis
  proof cases
    case 3
    with handle_peers [OF assms(1,2)] assms(4) show ?thesis by (blast intro: vlan_ok_peers)
  qed (use assms(1) in \<open>auto simp: handle_def on_vlan_def Let_def vlan_ok_def dest: join leave\<close>)
qed

section \<open>The steps of the server\<close>

text \<open>
  A start of \<open>main\<close> on an empty database, a start on what an earlier run has stored (with the same network), and the
  steps of a running server. Every database call may fail. \<open>h_cells\<close> of a new connection is a new cell.
\<close>

inductive system_step :: "'k wgtypes \<Rightarrow> 'k server \<Rightarrow> 'k server \<Rightarrow> bool" for ty :: "'k wgtypes" where
  sys_request: "env_ok (w_env (W :: ('k, bytes) world)) \<Longrightarrow> w_keys W = ty \<Longrightarrow>
    \<forall>a. w_upgrade W = Some a \<longrightarrow> h_cells (s_hub s) a = None \<Longrightarrow> serve W e rq s = Some (reply, s') \<Longrightarrow> system_step ty s s'"
| sys_message: "\<forall>k. gorm_ok (o_gorm w k) \<Longrightarrow> HandleMessage w a data (s_db s) (s_hub s) = Some (h', db') \<Longrightarrow>
    system_step ty s (s\<lparr>s_db := db', s_hub := h'\<rparr>)"
| sys_disconnect: "Run_Unregister libs a (s_hub s) = Some h' \<Longrightarrow> system_step ty s (s\<lparr>s_hub := h'\<rparr>)"
| sys_broadcast: "Run_Broadcast (s_hub s) = Some h' \<Longrightarrow> system_step ty s (s\<lparr>s_hub := h'\<rparr>)"
| sys_write: "h_cells (s_hub s) a = Some c \<Longrightarrow>
    system_step ty s (s\<lparr>s_hub := (s_hub s)\<lparr>h_cells := (h_cells (s_hub s))(a \<mapsto> snd (WritePump c))\<rparr>\<rparr>)"
| sys_voice: "\<forall>e. voice_step e (fst (f e)) \<Longrightarrow> with_voice f (s_hub s) = Some h' \<Longrightarrow> system_step ty s (s\<lparr>s_hub := h'\<rparr>)"
| sys_cleanup: "\<forall>k. gorm_ok (g k) \<Longrightarrow>
    wg_cleanup g ty dev roomID userID (s_hub s) (s_db s) (s_wg s) = Some (h', db', c') \<Longrightarrow>
    system_step ty s (s\<lparr>s_db := db', s_hub := h', s_wg := c'\<rparr>)"
| sys_stream: "\<forall>k. gorm_ok (g k) \<Longrightarrow> on_stream_state g streamKey isActive (s_db s) (s_hub s) = (db', h') \<Longrightarrow>
    system_step ty s (s\<lparr>s_db := db', s_hub := h'\<rparr>)"
| sys_registry: "registry_step (s_streams s) r' \<Longrightarrow> system_step ty s (s\<lparr>s_streams := r'\<rparr>)"
| sys_tick: "gorm_ok g \<Longrightarrow> system_step ty s (s\<lparr>s_db := cleanup_ticks [(g, cutoff)] retentionDays (s_db s)\<rparr>)"

definition same_network :: "wg_config \<Rightarrow> wg_config \<Rightarrow> bool" where
  "same_network cfg cfg' \<longleftrightarrow> vlan_net cfg' = vlan_net cfg \<and> GatewayIP cfg' = GatewayIP cfg"

inductive system_reachable :: "'k wgtypes \<Rightarrow> 'k server \<Rightarrow> bool" for ty :: "'k wgtypes" where
  sys_start: "start_server (sw :: (string, 'k, string) start_world) = Inr run \<Longrightarrow> sw_stored sw = empty_db \<Longrightarrow>
    system_reachable ty (run_server run)"
| sys_restart: "system_reachable ty s \<Longrightarrow> start_server (sw :: (string, 'k, string) start_world) = Inr run \<Longrightarrow>
    sw_stored sw = s_db s \<Longrightarrow> same_network (co_cfg (s_wg s)) (co_cfg (s_wg (run_server run))) \<Longrightarrow>
    system_reachable ty (run_server run)"
| sys_step: "system_reachable ty s \<Longrightarrow> system_step ty s s' \<Longrightarrow> system_reachable ty s'"

section \<open>Every step keeps the parts\<close>

definition hub_ok :: "hub \<Rightarrow> bool" where
  "hub_ok h \<longleftrightarrow> hub_reachable h \<and> (\<exists>e. h_voice h = Some e \<and> voice_reachable e)"

definition system_inv :: "'k server \<Rightarrow> bool" where
  "system_inv s \<longleftrightarrow> integrity (s_db s) \<and> hub_ok (s_hub s) \<and> registry_reachable (s_streams s) \<and> vlan_ok (co_cfg (s_wg s)) s"

lemma hub_ok_follows: "hub_follows h h' \<Longrightarrow> hub_ok h \<Longrightarrow> hub_ok h'"
  by (simp add: hub_follows_def hub_ok_def)

lemma hub_ok_message:
  assumes "HandleMessage w a data db h = Some (h', db')" "hub_ok h"
  shows "hub_ok h'"
proof -
  from assms(2) obtain e where e: "h_voice h = Some e" "voice_reachable e" by (auto simp: hub_ok_def)
  with HandleMessage_engine [OF assms(1)] obtain e' where "h_voice h' = Some e'" "voice_reachable e'"
    by (auto simp: engine_run_def dest: engine_call_reachable)
  with assms hub_message show ?thesis by (auto simp: hub_ok_def)
qed

lemma hub_ok_voice:
  assumes "with_voice f h = Some h'" "\<forall>e. voice_step e (fst (f e))" "hub_ok h"
  shows "hub_ok h'"
proof -
  from assms(3) obtain e where e: "hub_reachable h" "h_voice h = Some e" "voice_reachable e" by (auto simp: hub_ok_def)
  obtain e' sigs where f: "f e = (e', sigs)" by fastforce
  with assms(1) e have s: "for_each SendMediaSignal sigs (h\<lparr>h_voice := Some e'\<rparr>) = Some h'" by (simp add: with_voice_def)
  have "hub_reachable k'" if "for_each SendMediaSignal xs k = Some k'" "hub_reachable k" for xs k k'
    using that by (induction xs arbitrary: k) (auto simp: bind_eq_Some_conv intro: hub_signal)
  moreover have "hub_reachable (h\<lparr>h_voice := Some e'\<rparr>)"
    using hub_config [where h = h and v = "Some e'" and wg = "h_wg h" and cfg = "h_rtcConfig h" and provider = "h_rtcProvider h"] e(1) by simp
  ultimately have "hub_reachable h'" using s by blast
  moreover have "voice_reachable e'" using vr_step [OF e(3) spec [OF assms(2)]] f by simp
  ultimately show ?thesis using signals_voice [OF s] by (simp add: hub_ok_def)
qed

lemma deliver_voice: "deliver_to_room roomID pl ex h = Some h' \<Longrightarrow> h_voice h' = h_voice h"
  using only_sends_deliver by (auto simp: only_sends_def)

lemma hub_ok_unregister:
  assumes "Run_Unregister libs a h = Some h'" "hub_ok h"
  shows "hub_ok h'"
proof -
  from assms(1) obtain c h1 c1 where c: "h_cells h a = Some c" "with_voice (LeaveUser libs (c_UserID c)) h = Some h1"
    "h_cells h1 a = Some c1" by (auto simp: Run_Unregister_def bind_eq_Some_conv)
  let ?out = "map_of (h_Clients h1) (c_UserID c1) = Some a"
  let ?h2 = "if ?out then h1\<lparr>h_Clients := AList.delete (c_UserID c1) (h_Clients h1)\<rparr> else h1"
  from assms(1) c obtain h3 where h3: "on_client closeSend a ?h2 = Some h3"
    "for_each (notify_room (c_UserID c1)) (if ?out then GetRooms c1 else []) h3 = Some h'"
    by (auto simp: Run_Unregister_def bind_eq_Some_conv Let_def split: if_splits)
  from assms(2) have reach: "hub_reachable h" by (simp add: hub_ok_def)
  have "voice_step e (fst (LeaveUser libs (c_UserID c) e))" for e
    by (cases "LeaveUser libs (c_UserID c) e") (auto intro: vs_leave_user)
  then obtain e where e: "h_voice h1 = Some e" "voice_reachable e"
    using hub_ok_voice [OF c(2) _ assms(2)] by (auto simp: hub_ok_def)
  have rest: "h_voice k' = h_voice k" if "for_each (notify_room u) xs k = Some k'" for u xs k k'
    using that by (induction xs arbitrary: k)
      (auto simp: bind_eq_Some_conv notify_room_def scheduleWGPeerCleanup_def dest!: deliver_voice)
  have "h_voice h' = h_voice h1" using rest [OF h3(2)] on_client_voice [OF h3(1)] by simp
  with hub_disconnect [OF reach assms(1)] e show ?thesis by (simp add: hub_ok_def)
qed

lemma hub_ok_deliver:
  "deliver_to_room roomID (VlanPeerUpdateP roomID action info) ex h = Some h' \<Longrightarrow> hub_ok h \<Longrightarrow> hub_ok h'"
  using hub_cleanup deliver_voice by (fastforce simp: hub_ok_def)

lemma hub_ok_broadcast:
  assumes "Run_Broadcast h = Some h'" "hub_ok h"
  shows "hub_ok h'"
proof -
  have "h_voice h' = h_voice h"
    using assms(1) by (auto simp: Run_Broadcast_def split: list.splits dest!: deliver_voice)
  with assms hub_broadcast show ?thesis by (auto simp: hub_ok_def)
qed

lemma vlan_ok_cleanup:
  assumes "\<forall>k. gorm_ok (g k)" "wgtypes_ok ty" "vlan_ok cfg s"
    and "wg_cleanup g ty dev roomID userID (s_hub s) (s_db s) (s_wg s) = Some (h', db', c')"
  shows "vlan_inv cfg (t_peers db') \<and> co_cfg c' = cfg"
proof -
  have vlan: "vlan_inv (co_cfg (s_wg s)) (t_peers (s_db s))" "co_cfg (s_wg s) = cfg" using assms(3) by (auto simp: vlan_ok_def)
  have "db' = s_db s \<and> c' = s_wg s \<or> (\<exists>res. UnregisterPeer g ty dev roomID userID (s_db s) (s_wg s) = Some (res, db', c'))"
    using assms(4) by (auto simp: wg_cleanup_def Let_def split: answer_splits bind_splits)
  with vlan UnregisterPeer_vlan [OF assms(1,2) vlan(1)] show ?thesis by metis
qed

text \<open>A step that leaves the rows of the peers and the coordinator alone.\<close>

lemma system_invI:
  assumes "system_inv s" "t_peers (s_db s') = t_peers (s_db s)" "s_wg s' = s_wg s"
    and "integrity (s_db s')" "hub_ok (s_hub s')" "registry_reachable (s_streams s')"
  shows "system_inv s'"
  using assms by (simp add: system_inv_def vlan_ok_def)

lemma hub_ok_write:
  "h_cells h a = Some c \<Longrightarrow> hub_ok h \<Longrightarrow> hub_ok (h\<lparr>h_cells := (h_cells h)(a \<mapsto> snd (WritePump c))\<rparr>)"
  by (auto simp: hub_ok_def intro: hub_write)

lemma message_peers: "HandleMessage w a data db h = Some (h', db') \<Longrightarrow> t_peers db' = t_peers db"
  by (auto simp: HandleMessage_def handleChatSend_def HandleChatSend_def Let_def
      dest!: peers_repositories split: answer_splits bind_splits)

lemma stream_state_parts:
  assumes "on_stream_state g streamKey isActive db h = (db', h')"
  shows "t_peers db' = t_peers db" "hub_ok h \<Longrightarrow> hub_ok h'"
proof -
  have "t_peers (snd (Ingress_SetActive g1 k b db)) = t_peers db" for g1 k b
    using peers_repositories(8) [of g1 k b db] by (cases "Ingress_SetActive g1 k b db") simp
  with assms show "t_peers db' = t_peers db" by (auto simp: on_stream_state_def Let_def split: sum.splits)
  show "hub_ok h \<Longrightarrow> hub_ok h'"
    using assms hub_ok_follows [OF follows_broadcast] by (auto simp: on_stream_state_def Let_def split: sum.splits)
qed

lemma served_handle:
  "serve W e rq s = Some (reply, s') \<Longrightarrow> s' = s \<or> (\<exists>cx. handle W cx e rq s = Some (reply, s'))"
  by (auto simp: serve_def answered_def split: sum.splits)

lemma system_inv_request:
  assumes "env_ok (w_env W)" "wgtypes_ok (w_keys W)" "\<forall>a. w_upgrade W = Some a \<longrightarrow> h_cells (s_hub s) a = None"
    and "serve W e rq s = Some (reply, s')" "system_inv s"
  shows "system_inv s'"
proof -
  from served_handle [OF assms(4)] consider "s' = s" | cx where "handle W cx e rq s = Some (reply, s')" by blast
  then show ?thesis
  proof cases
    case 2
    have parts: "hub_ok (s_hub s)" "registry_reachable (s_streams s)" "vlan_ok (co_cfg (s_wg s)) s" "integrity (s_db s)"
      using assms(5) by (auto simp: system_inv_def)
    have "vlan_ok (co_cfg (s_wg s)) s'" by (rule handle_vlan [OF 2 assms(1,2) parts(3)])
    then have "vlan_ok (co_cfg (s_wg s')) s'" by (simp add: vlan_ok_def)
    with hub_ok_follows [OF handle_hub [OF 2 assms(3)] parts(1)] handle_streams [OF 2 parts(2)]
      integrity_serve [OF assms(1) parts(4) assms(4)] show ?thesis by (simp add: system_inv_def)
  qed (use assms(5) in simp)
qed

lemma system_step_inv:
  assumes "system_step ty s s'" "wgtypes_ok ty" "system_inv s"
  shows "system_inv s'"
proof -
  have parts: "hub_ok (s_hub s)" "registry_reachable (s_streams s)" "vlan_ok (co_cfg (s_wg s)) s" "integrity (s_db s)"
    using assms(3) by (auto simp: system_inv_def)
  have db: "integrity (s_db s')" if "background_step s s'" by (rule integrity_background [OF that parts(4)])
  show ?thesis
    using assms(1)
  proof cases
    case (sys_request W e rq reply)
    with system_inv_request [OF sys_request(1) _ sys_request(3,4) assms(3)] assms(2) show ?thesis by simp
  next
    case (sys_message w a data h' db')
    with message_peers [OF sys_message(3)] hub_ok_message [OF sys_message(3) parts(1)]
      integrity_HandleMessage [OF sys_message(2) parts(4) sys_message(3)] parts(2) show ?thesis
      by (intro system_invI [OF assms(3)]) simp_all
  next
    case (sys_disconnect libs a h')
    with hub_ok_unregister [OF sys_disconnect(2) parts(1)] parts show ?thesis by (intro system_invI [OF assms(3)]) simp_all
  next
    case (sys_broadcast h')
    with hub_ok_broadcast [OF sys_broadcast(2) parts(1)] parts show ?thesis by (intro system_invI [OF assms(3)]) simp_all
  next
    case (sys_write a c)
    with hub_ok_write [OF sys_write(2) parts(1)] parts show ?thesis by (intro system_invI [OF assms(3)]) simp_all
  next
    case (sys_voice f h')
    with hub_ok_voice [OF sys_voice(3,2) parts(1)] parts show ?thesis by (intro system_invI [OF assms(3)]) simp_all
  next
    case (sys_cleanup g dev roomID userID h' db' c')
    have "hub_ok h'" using cleanup_is_delivery [OF sys_cleanup(3)] hub_ok_deliver parts(1) by blast
    with vlan_ok_cleanup [OF sys_cleanup(2) assms(2) parts(3) sys_cleanup(3)] sys_cleanup parts
      integrity_wg_cleanup [OF sys_cleanup(2) parts(4) sys_cleanup(3)] show ?thesis
      by (simp add: system_inv_def vlan_ok_def)
  next
    case (sys_stream g streamKey isActive db' h')
    with stream_state_parts [OF sys_stream(3)] parts
      integrity_stream_state [OF sys_stream(2) parts(4), of streamKey isActive "s_hub s"] show ?thesis
      by (intro system_invI [OF assms(3)]) simp_all
  next
    case (sys_registry r')
    with reach_step parts show ?thesis by (intro system_invI [OF assms(3)]) auto
  next
    case (sys_tick g cutoff days)
    have "t_peers (snd (CleanupOldMessages g cutoff days (s_db s))) = t_peers (s_db s)"
      using peers_repositories(13) [of g cutoff days "s_db s"] by (cases "CleanupOldMessages g cutoff days (s_db s)") simp
    with sys_tick parts integrity_CleanupOldMessages [OF sys_tick(2) parts(4)] show ?thesis
      by (intro system_invI [OF assms(3)]) simp_all
  qed
qed

section \<open>Every state\<close>

lemma started_hub: "hub_ok (SetVoiceEngine (voice_New b) (SetRTCClientConfigProvider cfg (SetWGCoordinator NewHub)))"
proof -
  have "hub_reachable (NewHub\<lparr>h_voice := Some (voice_New b), h_wg := True, h_rtcConfig := h_rtcConfig NewHub,
      h_rtcProvider := Some cfg\<rparr>)" by (rule hub_config [OF hub_new])
  then show ?thesis by (simp add: hub_ok_def hub_setters vr_new NewHub_def)
qed

lemma started_server:
  assumes "start_server sw = Inr run"
  shows "s_db (run_server run) = sw_stored sw" "s_streams (run_server run) = NewRegistry" "hub_ok (s_hub (run_server run))"
  using assms by (auto simp: start_server_def started_hub Let_def split: sum.splits option.splits prod.splits)

lemma same_network_inv: "same_network cfg cfg' \<Longrightarrow> vlan_inv cfg' ps = vlan_inv cfg ps"
  by (simp add: same_network_def vlan_inv_def vlan_address_def)

lemma system_reachable_inv:
  assumes "system_reachable ty s" "wgtypes_ok ty"
  shows "system_inv s"
  using assms(1)
proof induction
  case (sys_start sw run)
  note st = started_server [OF sys_start(1)]
  have "t_peers (s_db (run_server run)) = []" using st(1) sys_start(2) by (simp add: empty_db_def)
  with st sys_start(2) show ?case by (simp add: system_inv_def vlan_ok_def vlan_inv_empty integrity_empty reach_new)
next
  case (sys_restart s sw run)
  note st = started_server [OF sys_restart(2)]
  from st sys_restart(3) sys_restart.IH same_network_inv [OF sys_restart(4)] show ?case
    by (auto simp: system_inv_def vlan_ok_def reach_new)
next
  case (sys_step s s')
  show ?case by (rule system_step_inv [OF sys_step(2) assms(2) sys_step.IH])
qed

text \<open>The steps are steps of the system that the theorems on the database speak of.\<close>

lemma system_step_server: "system_step ty s s' \<Longrightarrow> server_step s s'"
proof (induction rule: system_step.induct)
  case (sys_request W s e rq reply s')
  show ?case by (rule request [OF sys_request(1,4)])
next
  case (sys_message w a data s h' db')
  then show ?case by (rule background [OF message])
next
  case (sys_cleanup g dev roomID userID s h' db' c')
  then show ?case by (rule background [OF cleanup])
next
  case (sys_stream g streamKey isActive s db' h')
  then show ?case by (rule background [OF stream])
next
  case (sys_tick g s cutoff days)
  then show ?case by (rule background [OF tick])
qed (rule background [OF elsewhere], simp)+

lemma system_reachable_server:
  assumes "system_reachable ty s"
  shows "server_reachable s"
  using assms
proof induction
  case (sys_start sw run)
  with started_server(1) [OF sys_start(1)] show ?case by (simp add: start)
next
  case (sys_restart s sw run)
  with started_server(1) [OF sys_restart(2)] have "s_db (run_server run) = s_db s" by simp
  with sys_restart.IH show ?case by (blast intro: step background elsewhere)
next
  case (sys_step s s')
  then show ?case by (blast intro: step system_step_server)
qed


text \<open>A server without a WireGuard key starts, and a user makes a room.\<close>

definition demo_boot :: "(string, bool, string) start_world" where
  "demo_boot = \<lparr>sw_viper = \<lparr>ReadInConfig = (\<lambda>_ _. Inr []), Unmarshal = (\<lambda>_. Inr demo_config)\<rparr>,
     sw_sqlite = \<lparr>sq_mkdir = (\<lambda>_. None), sq_open = (\<lambda>_. None), sq_conn = None, sq_migrate = (\<lambda>_. None),
       sq_integrity = Inr ''ok'', sq_violations = Inr 0\<rparr>,
     sw_stored = empty_db, sw_files = (\<lambda>_. None), sw_probe = (\<lambda>_. Inl ''offline''), sw_interfaces = Inl ''none'',
     sw_keys = demo_keys,
     sw_os = \<lparr>RunCommand = (\<lambda>_. None), os_ReadFile = (\<lambda>_. FileError ''denied''), MkdirParent = (\<lambda>_. None),
       os_WriteFile = (\<lambda>_. None), SocketSeen = (\<lambda>_. True), wgctrl_New = None\<rparr>,
     sw_device = (\<lambda>_. None), sw_listen = (\<lambda>_. None), sw_authKey = (\<lambda>_ _ _. []), sw_turn = (\<lambda>_. None),
     sw_voice = None, sw_register = None, sw_setRange = None\<rparr>"

lemma demo_boots:
  "\<exists>run. start_server demo_boot = Inr run \<and> s_cfg (run_server run) = demo_config \<and> s_db (run_server run) = empty_db"
  by (simp add: start_server_def demo_boot_def Load_def database_Open_def Migrate_def database_Check_def resolver_New_def
      resolver_options_of_def demo_config_def TrimSpace_def trim_def trim_left_def trim_right_def rtc_New_def
      playback_options_of_def InitInterface_def loadOrCreatePrivateKey_def NewCoordinator_def demo_wg_def Let_def split: prod.split)


end
