(* ===== verification/Server_Stop.thy ===== *)
theory Server_Stop
  imports System_Invariant
begin

text \<open>
  The end of \<open>main\<close> in \<open>server/cmd/server/main.go\<close>: what ends the server, and what is closed in which order, the deferred
  calls included.
\<close>

section \<open>Code\<close>

text \<open>What the two goroutines put into the channel of the errors, if anything.\<close>

definition rtmp_goroutine :: "string option \<Rightarrow> string option" where
  "rtmp_goroutine runErr = map_option (\<lambda>err. ''RTMP server: '' @ err) runErr"

datatype listen_error = ErrServerClosed | ListenError string

definition http_goroutine :: "listen_error option \<Rightarrow> string option" where
  "http_goroutine runErr =
     (case runErr of Some (ListenError err) \<Rightarrow> Some (''HTTP server: '' @ err)
      | Some ErrServerClosed \<Rightarrow> None | None \<Rightarrow> None)"

text \<open>What \<open>main\<close> waits for: a signal, or the first error in the channel. A goroutine that ends without one is not noticed.\<close>

datatype main_event = SignalArrived | GoroutineReturned "string option"

datatype stop_cause = Quit | StoppedUnexpectedly string

fun main_wait :: "main_event list \<Rightarrow> stop_cause option" where
  "main_wait [] = None"
| "main_wait (SignalArrived # evs) = Some Quit"
| "main_wait (GoroutineReturned (Some runErr) # evs) = Some (StoppedUnexpectedly runErr)"
| "main_wait (GoroutineReturned None # evs) = main_wait evs"

datatype stop_action =
    CancelApp | CloseRTMP | ShutdownHTTP | CancelShutdown | CloseVoice | CloseTURN | CloseDatabase

text \<open>
  The errors of the closing calls are dropped or logged. \<open>None\<close> is a panic: the signals of the voice engine go to the
  clients that are still connected.
\<close>

definition main_stop ::
  "(uint64 \<times> uint64 \<Rightarrow> pion) \<Rightarrow> bool \<Rightarrow> ('k, 'key) running \<Rightarrow> rtmp_server \<Rightarrow> (rtmp_server \<times> hub \<times> stop_action list) option" where
  "main_stop libs dbHandle run rtmp =
     map_option (\<lambda>h. (rtmp_Close rtmp, h,
         [CancelApp, CloseRTMP, ShutdownHTTP] @
         [CancelShutdown, CloseVoice] @ (if run_turn run \<noteq> None then [CloseTURN] else []) @
         (if dbHandle then [CloseDatabase] else []) @ [CancelApp]))
       (with_voice (voice_Close libs) (s_hub (run_server run)))"

section \<open>Facts\<close>

text \<open>A listener that was closed on purpose does not end the server with an error.\<close>

lemma closed_on_purpose:
  "http_goroutine (Some ErrServerClosed) = None" "rtmp_goroutine (accept_failed b err (rtmp_Close s)) = None"
  by (simp_all add: http_goroutine_def rtmp_goroutine_def accept_after_close)

lemma waits_on:
  "main_wait evs = None \<longleftrightarrow> set evs \<subseteq> {GoroutineReturned None}"
  by (induction evs rule: main_wait.induct) auto

text \<open>
  After the end nobody is in a voice room, the RTMP listener is closed, and the database was closed after everything
  that may still use it.
\<close>

lemma main_stop_empties:
  assumes "main_stop libs dbHandle run rtmp = Some (rtmp', h', actions)"
    and "h_voice (s_hub (run_server run)) = Some e" "voice_reachable e" "listener rtmp"
  shows "\<exists>e'. h_voice h' = Some e' \<and> rooms e' = []"
    and "\<not> listening rtmp'" "srv_closed rtmp'"
    and "dbHandle \<Longrightarrow> \<exists>before. actions = before @ [CloseDatabase, CancelApp] \<and> CloseDatabase \<notin> set before"
proof -
  from assms(1) have h': "with_voice (voice_Close libs) (s_hub (run_server run)) = Some h'" by (auto simp: main_stop_def)
  obtain e' sigs where c: "voice_Close libs e = (e', sigs)" by fastforce
  from with_voice_engine [OF h' assms(2)] c voice_Close_empty [OF reachable_voice_inv [OF assms(3)] c]
  show "\<exists>e'. h_voice h' = Some e' \<and> rooms e' = []" by simp
  from assms(1,4) show "\<not> listening rtmp'" "srv_closed rtmp'" by (auto simp: main_stop_def rtmp_Close_def Let_def)
  from assms(1) show "dbHandle \<Longrightarrow> \<exists>before. actions = before @ [CloseDatabase, CancelApp] \<and> CloseDatabase \<notin> set before"
    by (auto simp: main_stop_def)
qed

text \<open>Whatever happened before, a stop puts everybody out of the voice rooms.\<close>

lemma stop_after_any_run:
  assumes "system_reachable ty s" "wgtypes_ok ty" "listener rtmp"
    and "main_stop libs dbHandle (run\<lparr>run_server := s\<rparr>) rtmp = Some (rtmp', h', actions)"
  shows "(\<exists>e. h_voice h' = Some e \<and> rooms e = []) \<and> \<not> listening rtmp' \<and> srv_closed rtmp'"
proof -
  from system_reachable_inv [OF assms(1,2)] obtain e where e: "h_voice (s_hub s) = Some e" "voice_reachable e"
    by (auto simp: system_inv_def hub_ok_def)
  from main_stop_empties(1-3) [OF assms(4) _ e(2) assms(3)] e(1) show ?thesis by simp
qed

end
