(* ===== verification/Go_Base64.thy ===== *)
theory Go_Base64
  imports Prelude
begin

text \<open>
  The standard encoding of Go's \<open>encoding/base64\<close>, with padding. The decoder skips line breaks and
  does not look at the unused bits of the last character.
\<close>

definition b64_char :: "nat \<Rightarrow> char" where
  "b64_char n = char_of (if n < 26 then 65 + n else if n < 52 then 71 + n
     else if n < 62 then n - 4 else if n = 62 then 43 else 47)"

definition b64_value :: "char \<Rightarrow> nat option" where
  "b64_value c =
     (let n = of_char c :: nat in
      if 65 \<le> n \<and> n \<le> 90 then Some (n - 65)
      else if 97 \<le> n \<and> n \<le> 122 then Some (n - 71)
      else if 48 \<le> n \<and> n \<le> 57 then Some (n + 4)
      else if n = 43 then Some 62 else if n = 47 then Some 63 else None)"

fun EncodeToString :: "bytes \<Rightarrow> string" where
  "EncodeToString [] = []"
| "EncodeToString [a] = [b64_char (unat a div 4), b64_char (unat a mod 4 * 16), CHR ''='', CHR ''='']"
| "EncodeToString [a, b] = [b64_char (unat a div 4), b64_char (unat a mod 4 * 16 + unat b div 16),
     b64_char (unat b mod 16 * 4), CHR ''='']"
| "EncodeToString (a # b # c # r) = b64_char (unat a div 4) # b64_char (unat a mod 4 * 16 + unat b div 16)
     # b64_char (unat b mod 16 * 4 + unat c div 64) # b64_char (unat c mod 64) # EncodeToString r"

fun decode_quads :: "string \<Rightarrow> bytes option" where
  "decode_quads [] = Some []"
| "decode_quads (w # x # y # z # r) =
     (case (b64_value w, b64_value x) of
        (Some i, Some j) \<Rightarrow>
          if y = CHR ''='' then (if z = CHR ''='' \<and> r = [] then Some [of_nat (i * 4 + j div 16)] else None)
          else (case b64_value y of None \<Rightarrow> None
            | Some k \<Rightarrow>
                if z = CHR ''='' then
                  (if r = [] then Some [of_nat (i * 4 + j div 16), of_nat (j mod 16 * 16 + k div 4)] else None)
                else (case (b64_value z, decode_quads r) of
                    (Some l, Some bs) \<Rightarrow> Some (of_nat (i * 4 + j div 16) # of_nat (j mod 16 * 16 + k div 4)
                                           # of_nat (k mod 4 * 64 + l) # bs)
                  | _ \<Rightarrow> None))
      | _ \<Rightarrow> None)"
| "decode_quads _ = None"

definition DecodeString :: "string \<Rightarrow> bytes option" where
  "DecodeString s = decode_quads (filter (\<lambda>c. c \<noteq> CHR 0x0A \<and> c \<noteq> CHR 0x0D) s)"

section \<open>Decoding what was encoded\<close>

lemma of_char_b64: "n < 64 \<Longrightarrow> (of_char (b64_char n) :: nat) =
    (if n < 26 then 65 + n else if n < 52 then 71 + n else if n < 62 then n - 4 else if n = 62 then 43 else 47)"
  by (auto simp: b64_char_def of_char_of take_bit_eq_mod)

lemma b64_value_char: "n < 64 \<Longrightarrow> b64_value (b64_char n) = Some n"
  by (auto simp: b64_value_def of_char_b64 Let_def)

lemma b64_char_plain:
  assumes "n < 64"
  shows "b64_char n \<noteq> CHR ''=''" "b64_char n \<noteq> CHR 0x0A" "b64_char n \<noteq> CHR 0x0D"
proof -
  have "(of_char (b64_char n) :: nat) \<notin> {61, 10, 13}" using of_char_b64 [OF assms] by (auto split: if_splits)
  then show "b64_char n \<noteq> CHR ''=''" "b64_char n \<noteq> CHR 0x0A" "b64_char n \<noteq> CHR 0x0D" by auto
qed

lemma byte_bound: "unat (a :: byte) < 256"
  using unsigned_less [of a] by simp

lemma sextets [simp]:
  fixes a b c :: byte
  shows "unat a div 4 < 64" "unat a mod 4 * 16 < 64" "unat a mod 4 * 16 + unat b div 16 < 64"
    "unat b mod 16 * 4 < 64" "unat b mod 16 * 4 + unat c div 64 < 64" "unat c mod 64 < 64"
  using byte_bound [of a] byte_bound [of b] byte_bound [of c] by auto

lemma sextet_parts [simp]:
  fixes b c :: byte
  shows "unat b div 16 div 16 = 0" "unat b div 16 mod 16 = unat b div 16"
    "unat c div 64 div 4 = 0" "unat c div 64 mod 4 = unat c div 64"
proof -
  have "unat b div 16 < 16" "unat c div 64 < 4" using byte_bound [of b] byte_bound [of c] by auto
  then show "unat b div 16 div 16 = 0" "unat b div 16 mod 16 = unat b div 16"
    "unat c div 64 div 4 = 0" "unat c div 64 mod 4 = unat c div 64" by simp_all
qed

lemma decode_encode_quads: "decode_quads (EncodeToString bs) = Some bs"
  by (induction bs rule: EncodeToString.induct)
    (simp_all add: b64_value_char b64_char_plain del: of_nat_add of_nat_mult)

lemma encode_no_breaks: "filter (\<lambda>c. c \<noteq> CHR 0x0A \<and> c \<noteq> CHR 0x0D) (EncodeToString bs) = EncodeToString bs"
  by (induction bs rule: EncodeToString.induct) (simp_all add: b64_char_plain)

lemma DecodeString_EncodeToString: "DecodeString (EncodeToString bs) = Some bs"
  by (simp add: DecodeString_def encode_no_breaks decode_encode_quads)

end
