(* ===== verification/Wg_Helper.thy ===== *)
theory Wg_Helper
  imports Go_Base64 Go_Json Go_Url Rtc_Play
begin

text \<open>
  \<open>client/native/wg-helper\<close>: the helper process that runs the WireGuard tunnel of a client: its
  arguments and messages (\<open>main.go\<close>), the generation of a key pair (\<open>keygen\<close>) and the tunnel
  (\<open>tunnel_windows.go\<close>). The driver of the network device, the commands that it runs and the key
  generator are parameters; what is done to the system is a list of effects.
\<close>

section \<open>Keys\<close>

record key_pair =
  kp_PrivateKey :: string
  kp_PublicKey :: string

text \<open>\<open>generate\<close> and \<open>public_of\<close> are those of \<open>wgtypes\<close>, on the bytes of a key.\<close>

definition keygen_Generate :: "string + bytes \<Rightarrow> (bytes \<Rightarrow> bytes) \<Rightarrow> string + key_pair" where
  "keygen_Generate generate public_of =
     (case generate of Inl err \<Rightarrow> Inl err
      | Inr privateKey \<Rightarrow>
          let publicKey = public_of privateKey
          in Inr \<lparr>kp_PrivateKey = EncodeToString privateKey, kp_PublicKey = EncodeToString publicKey\<rparr>)"

section \<open>Configuration\<close>

record tunnel_peer =
  tp_PublicKey :: string
  tp_Endpoint :: string
  tp_AllowedIPs :: string
  tp_PersistentKeepalive :: int

record tunnel_config =
  tu_InterfaceName :: string
  tu_PrivateKey :: string
  tu_Address :: string
  tu_DNS :: string
  tu_ListenPort :: int
  tu_Peers :: "tunnel_peer list"

definition as_int :: "int field_decoder" where
  "as_int v cur = (case v of JNull \<Rightarrow> Some cur
     | JNum n \<Rightarrow> if - (2 ^ 63) \<le> n \<and> n < 2 ^ 63 then Some n else None | _ \<Rightarrow> None)"

definition decode_peer :: "json \<Rightarrow> tunnel_peer option" where
  "decode_peer j = do {
     public_key \<leftarrow> decode_field as_string [] ''public_key'' j;
     endpoint \<leftarrow> decode_field as_string [] ''endpoint'' j;
     allowed_ips \<leftarrow> decode_field as_string [] ''allowed_ips'' j;
     keepalive \<leftarrow> decode_field as_int 0 ''persistent_keepalive'' j;
     Some \<lparr>tp_PublicKey = public_key, tp_Endpoint = endpoint, tp_AllowedIPs = allowed_ips,
           tp_PersistentKeepalive = keepalive\<rparr>
   }"

definition as_peers :: "tunnel_peer list field_decoder" where
  "as_peers v cur = (case v of JNull \<Rightarrow> Some [] | JArr js \<Rightarrow> those (map decode_peer js) | _ \<Rightarrow> None)"

definition decode_config :: "json \<Rightarrow> tunnel_config option" where
  "decode_config j = do {
     interface_name \<leftarrow> decode_field as_string [] ''interface_name'' j;
     private_key \<leftarrow> decode_field as_string [] ''private_key'' j;
     address \<leftarrow> decode_field as_string [] ''address'' j;
     dns \<leftarrow> decode_field as_string [] ''dns'' j;
     listen_port \<leftarrow> decode_field as_int 0 ''listen_port'' j;
     peers \<leftarrow> decode_field as_peers [] ''peers'' j;
     Some \<lparr>tu_InterfaceName = interface_name, tu_PrivateKey = private_key, tu_Address = address,
           tu_DNS = dns, tu_ListenPort = listen_port, tu_Peers = peers\<rparr>
   }"

text \<open>The lines of the configuration text, each ended by a line feed.\<close>

definition hex_bytes :: "bytes \<Rightarrow> string" where
  "hex_bytes bs = concat (map hex_byte bs)"

definition line :: "string \<Rightarrow> string" where
  "line s = s @ [CHR 0x0A]"

definition allowed_cidrs :: "string \<Rightarrow> string list" where
  "allowed_cidrs s = (if s = [] then [] else filter (\<lambda>cidr. cidr \<noteq> []) (map TrimSpace (Split (CHR '','') s)))"

definition peer_lines :: "tunnel_peer \<Rightarrow> string option" where
  "peer_lines p =
     (case DecodeString (tp_PublicKey p) of None \<Rightarrow> None
      | Some pubKeyBytes \<Rightarrow> Some
          (line (''public_key='' @ hex_bytes pubKeyBytes) @
           (if tp_Endpoint p \<noteq> [] then line (''endpoint='' @ tp_Endpoint p) else []) @
           concat (map (\<lambda>cidr. line (''allowed_ip='' @ cidr)) (allowed_cidrs (tp_AllowedIPs p))) @
           (if 0 < tp_PersistentKeepalive p
            then line (''persistent_keepalive_interval='' @ Itoa (tp_PersistentKeepalive p)) else [])))"

definition buildUAPIConfig :: "tunnel_config \<Rightarrow> string option" where
  "buildUAPIConfig cfg =
     (case DecodeString (tu_PrivateKey cfg) of None \<Rightarrow> None
      | Some privKeyBytes \<Rightarrow>
          (case those (map peer_lines (tu_Peers cfg)) of None \<Rightarrow> None
           | Some ps \<Rightarrow> Some
               (line (''private_key='' @ hex_bytes privKeyBytes) @
                (if 0 < tu_ListenPort cfg then line (''listen_port='' @ Itoa (tu_ListenPort cfg)) else []) @
                concat ps)))"

section \<open>The tunnel\<close>

datatype tunnel_effect =
    CreateTUN string | CloseTUN | NewDevice | CloseDevice | IpcSet string | DeviceUp | RunCommand "string list"
  | UAPIListen string | CloseUAPI

text \<open>
  The answers of the system. A command gives its output and whether it succeeded. The text of an
  IPv6 address is a parameter.
\<close>

record tunnel_os =
  to_executable :: "string option"
  to_run :: "string list \<Rightarrow> string \<times> bool"
  to_create :: "string \<Rightarrow> bool"
  to_name :: "string option"
  to_ipc :: "string \<Rightarrow> bool"
  to_up :: bool
  to_v6 :: "16 word list \<Rightarrow> string"
  to_uapi :: bool

definition show_rule :: "string \<Rightarrow> string list" where
  "show_rule name = [''netsh'', ''advfirewall'', ''firewall'', ''show'', ''rule'', ''name='' @ name]"

definition has_rule :: "tunnel_os \<Rightarrow> string \<Rightarrow> bool" where
  "has_rule os name = (case to_run os (show_rule name) of (out, ok) \<Rightarrow> ok \<and> Contains out name)"

definition firewall_rule :: "string \<Rightarrow> string \<Rightarrow> string \<Rightarrow> string list" where
  "firewall_rule name direction exePath = [''netsh'', ''advfirewall'', ''firewall'', ''add'', ''rule'', ''name='' @ name,
     ''dir='' @ direction, ''action=allow'', ''program='' @ exePath, ''protocol=UDP'', ''enable=yes'', ''profile=any'']"

definition ensureFirewallRule :: "tunnel_os \<Rightarrow> tunnel_effect list" where
  "ensureFirewallRule os =
     (let name = ''NexusRoom WireGuard Helper'' in
      case to_executable os of None \<Rightarrow> []
      | Some exePath \<Rightarrow>
          RunCommand (show_rule name) #
          (if has_rule os name then []
           else [RunCommand (firewall_rule name ''in'' exePath), RunCommand (firewall_rule name ''out'' exePath)]))"

definition ensureICMPRule :: "tunnel_os \<Rightarrow> tunnel_effect list" where
  "ensureICMPRule os =
     (let name = ''NexusRoom ICMP Allow'' in
      RunCommand (show_rule name) #
      (if has_rule os name then []
       else [RunCommand [''netsh'', ''advfirewall'', ''firewall'', ''add'', ''rule'', ''name='' @ name, ''dir=in'',
               ''action=allow'', ''protocol=ICMPv4'', ''localip=any'', ''remoteip=any'', ''enable=yes'', ''profile=any'']]))"

text \<open>\<open>ip.String()\<close>, and a CIDR as the texts of its address, its network and its mask.\<close>

fun ip_text :: "tunnel_os \<Rightarrow> ip \<Rightarrow> string" where
  "ip_text os (V4 a b c d) = dotted a b c d"
| "ip_text os (V6 gs) = (case IPv4_String (V6 gs) of Some s \<Rightarrow> s | None \<Rightarrow> to_v6 os gs)"

definition mask_text :: "tunnel_os \<Rightarrow> ip \<Rightarrow> nat \<Rightarrow> string" where
  "mask_text os i n = ip_text os (mask_ip n
     (case i of V4 _ _ _ _ \<Rightarrow> V4 255 255 255 255 | V6 _ \<Rightarrow> V6 (replicate 8 0xffff)))"

definition cidr_texts :: "tunnel_os \<Rightarrow> string \<Rightarrow> (string \<times> string \<times> string) option" where
  "cidr_texts os s = map_option (\<lambda>(i, net, n). (ip_text os i, ip_text os net, mask_text os i n)) (ParseCIDR s)"

definition configureInterface :: "tunnel_os \<Rightarrow> string \<Rightarrow> string \<Rightarrow> bool \<times> tunnel_effect list" where
  "configureInterface os ifname address =
     (case cidr_texts os address of None \<Rightarrow> (False, [])
      | Some (addr, net, netmask) \<Rightarrow>
          let cmd = [''netsh'', ''interface'', ''ip'', ''set'', ''address'', ''name='' @ ifname, ''source=static'',
                     ''addr='' @ addr, ''mask='' @ netmask]
          in (snd (to_run os cmd), [RunCommand cmd]))"

definition addRoute :: "tunnel_os \<Rightarrow> string \<Rightarrow> string \<Rightarrow> tunnel_effect list" where
  "addRoute os cidr ifname =
     (case cidr_texts os cidr of None \<Rightarrow> []
      | Some (addr, net, netmask) \<Rightarrow>
          let cmd = [''netsh'', ''interface'', ''ip'', ''add'', ''route'', ''prefix='' @ cidr, ''interface='' @ ifname]
          in RunCommand cmd #
             (if snd (to_run os cmd) then []
              else [RunCommand [''route'', ''add'', net, ''mask'', netmask, ''0.0.0.0'', ''if'', ifname]]))"

record tunnel =
  tn_uapi :: bool
  tn_name :: string

text \<open>\<open>Up\<close>: the tunnel, or \<open>None\<close> for an error, and what was done.\<close>

definition route_cidrs :: "tunnel_config \<Rightarrow> string list" where
  "route_cidrs cfg = concat (map (\<lambda>p. filter (\<lambda>cidr. cidr \<noteq> tu_Address cfg) (allowed_cidrs (tp_AllowedIPs p)))
                               (tu_Peers cfg))"

definition Up :: "tunnel_os \<Rightarrow> tunnel_config \<Rightarrow> tunnel option \<times> tunnel_effect list" where
  "Up os cfg =
     (let ifname = (if tu_InterfaceName cfg = [] then ''NexusRoom0'' else tu_InterfaceName cfg);
          e0 = ensureFirewallRule os
      in if \<not> to_create os ifname then (None, e0)
      else let e1 = e0 @ [CreateTUN ifname] in
      case to_name os of None \<Rightarrow> (None, e1 @ [CloseTUN])
      | Some realName \<Rightarrow>
     (case buildUAPIConfig cfg of None \<Rightarrow> (None, e1 @ [CloseTUN])
      | Some uapiConf \<Rightarrow>
      let e2 = e1 @ [NewDevice] in
      if \<not> to_ipc os uapiConf then (None, e2 @ [CloseDevice])
      else let e3 = e2 @ [IpcSet uapiConf] in
      if \<not> to_up os then (None, e3 @ [CloseDevice])
      else let e4 = e3 @ [DeviceUp] in
     (case configureInterface os realName (tu_Address cfg) of
        (False, cmds) \<Rightarrow> (None, e4 @ cmds @ [CloseDevice])
      | (True, cmds) \<Rightarrow>
          let e5 = e4 @ cmds @ ensureICMPRule os @
                   concat (map (\<lambda>cidr. addRoute os cidr realName) (route_cidrs cfg))
          in if to_uapi os then (Some \<lparr>tn_uapi = True, tn_name = realName\<rparr>, e5 @ [UAPIListen ifname])
             else (Some \<lparr>tn_uapi = False, tn_name = realName\<rparr>, e5))))"

text \<open>The goroutine of the socket: every connection is handed to the device until \<open>Accept\<close> fails.\<close>

fun uapi_loop :: "'c option list \<Rightarrow> 'c list" where
  "uapi_loop [] = []"
| "uapi_loop (Some conn # rest) = conn # uapi_loop rest"
| "uapi_loop (None # rest) = []"

lemma uapi_loop_prefix: "uapi_loop accepts = map the (takeWhile (\<lambda>c. c \<noteq> None) accepts)"
  by (induction accepts rule: uapi_loop.induct) simp_all

definition Name :: "tunnel \<Rightarrow> string" where [simp]:
  "Name t = tn_name t"

definition Down :: "tunnel \<Rightarrow> tunnel_effect list" where
  "Down t = (if tn_uapi t then [CloseUAPI] else []) @ [CloseDevice]"

section \<open>The process\<close>

text \<open>The last \<open>genkey\<close> or \<open>up\<close> among the arguments.\<close>

definition subcommand :: "string list \<Rightarrow> string" where
  "subcommand args = fold (\<lambda>arg cur. if arg = ''genkey'' \<or> arg = ''up'' then arg else cur) (drop 1 args) []"

text \<open>The first \<open>--port\<close> that is followed by a positive number.\<close>

fun parsePort :: "string list \<Rightarrow> int" where
  "parsePort (arg # next # args) =
     (if arg = ''--port'' then
        (case Atoi next of Some p \<Rightarrow> if 0 < p then p else parsePort (next # args) | None \<Rightarrow> parsePort (next # args))
      else parsePort (next # args))"
| "parsePort _ = 0"

datatype helper_output = UpOk string | DownOk | GenKeyOk key_pair | HelperError string

datatype helper_input = Line "json option" | InputClosed | Interrupt

definition action_of :: "json option \<Rightarrow> string option" where
  "action_of j = do {
     v \<leftarrow> j;
     action \<leftarrow> decode_field as_string [] ''action'' v;
     decode_field as_raw None ''data'' v;
     decode_field as_string [] ''error'' v;
     Some action
   }"

text \<open>Does the process stop at this input? A line that is not a message is skipped.\<close>

definition stops :: "helper_input \<Rightarrow> bool" where
  "stops i = (case i of Interrupt \<Rightarrow> True | InputClosed \<Rightarrow> True | Line j \<Rightarrow> action_of j = Some ''down'')"

text \<open>
  \<open>cmdUp\<close>: the exit status (\<open>None\<close> while it runs), the messages it wrote and the effects. A signal
  that comes before the handler is installed kills the process.
\<close>

definition cmdUp ::
  "tunnel_os \<Rightarrow> helper_input list
     \<Rightarrow> int option \<times> helper_output list \<times> tunnel_effect list" where
  "cmdUp os inputs =
     (case inputs of
        Line j # rest \<Rightarrow>
          (case Option.bind j decode_config of
             None \<Rightarrow> (Some 1, [HelperError ''invalid config JSON''], [])
           | Some cfg \<Rightarrow>
               (case Up os cfg of
                  (None, eff) \<Rightarrow> (Some 1, [HelperError ''tunnel up failed''], eff)
                | (Some tun, eff) \<Rightarrow>
                    if list_ex stops rest
                    then (Some 0, [UpOk (Name tun), DownOk], eff @ Down tun)
                    else (None, [UpOk (Name tun)], eff)))
      | InputClosed # rest \<Rightarrow> (Some 1, [HelperError ''expected tunnel config on input''], [])
      | Interrupt # rest \<Rightarrow> (Some 2, [], [])
      | [] \<Rightarrow> (None, [], []))"

definition cmdGenKey :: "string + key_pair \<Rightarrow> int \<times> helper_output list" where
  "cmdGenKey res = (case res of Inl err \<Rightarrow> (1, [HelperError ''key generation failed'']) | Inr kp \<Rightarrow> (0, [GenKeyOk kp]))"

text \<open>
  \<open>main\<close>: without a subcommand the usage goes to the error output. With \<open>--port\<close> the messages go over a
  connection to the parent; \<open>dial\<close> is the error of connecting. What is left out of a \<open>jsonMsg\<close> is not written.
\<close>

definition wg_main ::
  "tunnel_os \<Rightarrow> string + key_pair \<Rightarrow> (int \<Rightarrow> string option) \<Rightarrow> string list \<Rightarrow> helper_input list
     \<Rightarrow> int option \<times> helper_output list \<times> tunnel_effect list" where
  "wg_main os keys dial args inputs =
     (let sub = subcommand args in
      if sub = [] then (Some 1, [], [])
      else if sub = ''genkey'' then (case cmdGenKey keys of (status, outs) \<Rightarrow> (Some status, outs, []))
      else let port = parsePort args in
        if 0 < port \<and> dial port \<noteq> None then (Some 1, [], [])
        else cmdUp os inputs)"

definition helper_json :: "helper_output \<Rightarrow> json" where
  "helper_json out =
     (case out of
        UpOk name \<Rightarrow> JObj [(''action'', JStr ''up''), (''data'', JObj [(''interface'', JStr name), (''status'', JStr ''ok'')])]
      | DownOk \<Rightarrow> JObj [(''action'', JStr ''down''), (''data'', JObj [(''status'', JStr ''ok'')])]
      | GenKeyOk kp \<Rightarrow> JObj [(''action'', JStr ''genkey''),
          (''data'', JObj [(''private_key'', JStr (kp_PrivateKey kp)), (''public_key'', JStr (kp_PublicKey kp))])]
      | HelperError msg \<Rightarrow> JObj ((''action'', JStr ''error'') # (if msg = [] then [] else [(''error'', JStr msg)])))"

text \<open>The parent reads the action of every message that the helper writes.\<close>

lemma helper_json_read:
  "action_of (Some (helper_json out)) = Some (case out of UpOk name \<Rightarrow> ''up'' | DownOk \<Rightarrow> ''down'' | GenKeyOk kp \<Rightarrow> ''genkey''
     | HelperError msg \<Rightarrow> ''error'')"
proof -
  have low: "ToLower ''action'' = ''action''" "ToLower ''data'' = ''data''" "ToLower ''error'' = ''error''" by code_simp+
  show ?thesis
    by (cases out) (simp_all add: helper_json_def action_of_def decode_field_def low as_string_def as_raw_def)
qed

section \<open>What is left behind\<close>

text \<open>Is the device open, and is the configuration socket, after these effects?\<close>

fun opened :: "tunnel_effect \<Rightarrow> bool \<times> bool \<Rightarrow> bool \<times> bool" where
  "opened (CreateTUN name) (t, u) = (True, u)"
| "opened CloseTUN (t, u) = (False, u)"
| "opened CloseDevice (t, u) = (False, u)"
| "opened (UAPIListen name) (t, u) = (t, True)"
| "opened CloseUAPI (t, u) = (t, False)"
| "opened _ s = s"

definition left_open :: "tunnel_effect list \<Rightarrow> bool \<times> bool" where
  "left_open effs = fold opened effs (False, False)"

definition only_commands :: "tunnel_effect list \<Rightarrow> bool" where
  "only_commands effs \<longleftrightarrow> (\<forall>e \<in> set effs. \<exists>cmd. e = RunCommand cmd)"

lemma opened_commands: "only_commands effs \<Longrightarrow> fold opened effs s = s"
  by (induction effs) (auto simp: only_commands_def)

lemma only_commands_rules [simp]:
  "only_commands (ensureFirewallRule os)" "only_commands (ensureICMPRule os)" "only_commands (addRoute os cidr name)"
  "only_commands (concat (map (\<lambda>cidr. addRoute os cidr name) cidrs))"
  by (auto simp: only_commands_def ensureFirewallRule_def ensureICMPRule_def addRoute_def Let_def split: option.splits if_splits)

lemma only_commands_configure: "configureInterface os name address = (ok, cmds) \<Longrightarrow> only_commands cmds"
  by (auto simp: only_commands_def configureInterface_def Let_def split: option.splits)

lemma Up_opens:
  assumes "Up os cfg = (res, eff)"
  shows "left_open eff = (case res of None \<Rightarrow> (False, False) | Some t \<Rightarrow> (True, tn_uapi t))"
  using assms
  by (auto simp: Up_def left_open_def Let_def opened_commands dest!: only_commands_configure
      split: if_splits option.splits prod.splits bool.splits)


text \<open>A tunnel that comes up and is taken down by a message.\<close>

definition demo_tunnel_os :: tunnel_os where
  "demo_tunnel_os = \<lparr>to_executable = None, to_run = (\<lambda>_. ([], True)), to_create = (\<lambda>_. True), to_name = Some ''wg1'',
     to_ipc = (\<lambda>_. True), to_up = True, to_v6 = (\<lambda>_. []), to_uapi = True\<rparr>"

definition demo_tunnel_config :: json where
  "demo_tunnel_config = JObj [(''address'', JStr ''10.0.8.2/24'')]"

lemma demo_tunnel_run:
  "wg_main demo_tunnel_os (Inl []) (\<lambda>_. None) [''nexusroom-wg'', ''up''] [Line (Some demo_tunnel_config), Line (Some (JObj [(''action'', JStr ''down'')]))] =
     (Some 0, [UpOk ''wg1'', DownOk], snd (snd (wg_main demo_tunnel_os (Inl []) (\<lambda>_. None) [''nexusroom-wg'', ''up'']
       [Line (Some demo_tunnel_config), Line (Some (JObj [(''action'', JStr ''down'')]))])))"
  by code_simp


end
