(* ===== verification/Client_Session.thy ===== *)
theory Client_Session
  imports Db_Integrity
begin

text \<open>
  One connection from the upgrade to its end, as \<open>ReadPump\<close> runs it: every message is handled in turn, and when
  reading fails the client is handed to the hub. What other goroutines do in between is a run of its own; the
  invariants hold over every interleaving (\<open>hub_reachable\<close>, \<open>server_reachable\<close>).
\<close>

section \<open>Reading\<close>

text \<open>The messages that are read before the error, each with the outside at that moment; \<open>None\<close> is a panic.\<close>

fun ReadPump ::
  "(outside \<times> json option) list \<Rightarrow> (uint64 \<times> uint64 \<Rightarrow> pion) \<Rightarrow> addr \<Rightarrow> database \<Rightarrow> hub \<Rightarrow> (hub \<times> database) option" where
  "ReadPump [] libs a db h = map_option (\<lambda>h1. (h1, db)) (Run_Unregister libs a h)"
| "ReadPump ((w, data) # rest) libs a db h = do {
     (h1, db1) \<leftarrow> HandleMessage w a data db h;
     ReadPump rest libs a db1 h1
   }"

lemma ReadPump_integrity:
  assumes "\<forall>(w, data) \<in> set msgs. \<forall>k. gorm_ok (o_gorm w k)" "integrity db" "ReadPump msgs libs a db h = Some (h', db')"
  shows "integrity db'"
  using assms
proof (induction msgs arbitrary: db h)
  case (Cons m msgs)
  obtain w data where m: "m = (w, data)" by fastforce
  with Cons.prems(3) obtain h1 db1 where "HandleMessage w a data db h = Some (h1, db1)" "ReadPump msgs libs a db1 h1 = Some (h', db')"
    by (auto split: bind_splits)
  with Cons m integrity_HandleMessage [of w db a data h h1 db1] show ?case by auto
qed auto

lemma ReadPump_inv:
  assumes "hub_inv h" "ReadPump msgs libs a db h = Some (h', db')"
  shows "hub_inv h'"
  using assms
proof (induction msgs arbitrary: db h)
  case (Cons m msgs)
  obtain w data where m: "m = (w, data)" by fastforce
  with Cons.prems(2) obtain h1 db1 where "HandleMessage w a data db h = Some (h1, db1)" "ReadPump msgs libs a db1 h1 = Some (h', db')"
    by (auto split: bind_splits)
  with Cons m hub_keepsD [OF keeps_HandleMessage] show ?case by blast
qed (auto intro: Run_Unregister_inv)

end
