(* ===== verification/Account_Properties.thy ===== *)
theory Account_Properties
  imports Api_Access
begin

text \<open>
  What the answers of the API look like, what a login is worth, and which role a registration gets.
\<close>

section \<open>Answers\<close>



section \<open>Login\<close>

definition credentials :: "json option \<Rightarrow> (string \<times> string) option" where
  "credentials body = Option.bind (bind_string ''username'' body)
     (\<lambda>username. map_option (Pair username) (bind_string ''password'' body))"

definition lifetime :: "auth_config \<Rightarrow> duration" where
  "lifetime cfg = int64 (JWTExpireHours cfg * hour)"

text \<open>
  C25: A login succeeds only for an account of the database that is active, with the password that matches
  its hash, and the token that it returns is worth that account: the guard accepts it with the account's
  id, name and role until one second before it expires, and refuses it from then on. The guard asks the
  token only, so neither switching the account off nor changing it later takes this away.
\<close>

theorem login_token:
  assumes "env_ok w" "jwt_ok (e_jwt w)" "AuthHandler_Login w cfg body db = (Success d, db')"
  shows "\<exists>u password token. u \<in> set (t_users db) \<and> credentials body = Some (Username u, password) \<and>
      e_compare w (PasswordHash u) password \<and> IsActive u \<and> d = auth_json u token \<and>
      (\<forall>t cx. t < e_clock w 1 + lifetime cfg - second \<longrightarrow>
         AuthMiddleware (e_jwt w) cfg t (''Bearer '' @ token) cx =
           Inr (cx\<lparr>cx_userID := Some (u_ID u), cx_username := Some (Username u), cx_role := Some (u_Role u)\<rparr>)) \<and>
      (\<forall>t cx. e_clock w 1 + lifetime cfg \<le> t \<longrightarrow>
         AuthMiddleware (e_jwt w) cfg t (''Bearer '' @ token) cx = Inl (ErrorWithStatus 401 40101))"
proof -
  from assms(3) obtain username password u token where
    u: "credentials body = Some (username, password)" "User_FindByUsername (e_gorm w 0) username db = Inr u"
      "e_compare w (PasswordHash u) password" "IsActive u" "d = auth_json u token"
    and tok: "GenerateToken (e_jwt w) cfg (e_clock w 1) (e_clock w 2) (u_ID u) (Username u) (u_Role u) = Inr token"
    by (auto simp: AuthHandler_Login_def credentials_def Let_def split: answer_splits)
  from driver_okD(2) [OF gorm_okD(1) [OF env_okD [OF assms(1)]] u(2) [unfolded User_FindByUsername_def]]
  have "u \<in> set (t_users db)" "Username u = username" by auto
  with u token_accepted [OF assms(2) tok] token_expires [OF assms(2) tok] show ?thesis
    unfolding lifetime_def by blast
qed

theorem login_token_witness:
  "\<exists>db'. AuthHandler_Login demo_env demo_auth (Some (JObj [(''username'', JStr ''bob''), (''password'', JStr ''pw2'')])) demo_world_db
      = (Success (JObj [(''user_id'', JNum 2), (''user_display_id'', JStr ''10002''), (''token'', JStr ''token'')]), db') \<and>
    (\<exists>u token. u \<in> set (t_users demo_world_db) \<and> Username u = ''bob'' \<and> IsActive u \<and>
       AuthMiddleware demo_jwt demo_auth 0 (''Bearer '' @ token) no_context =
         Inr \<lparr>cx_userID = Some (u_ID u), cx_username = Some (Username u), cx_role = Some (u_Role u)\<rparr>)"
proof -
  let ?body = "Some (JObj [(''username'', JStr ''bob''), (''password'', JStr ''pw2'')])"
  have low: "ToLower ''username'' = ''username''" "ToLower ''password'' = ''password''" by code_simp+
  have "\<exists>db'. AuthHandler_Login demo_env demo_auth ?body demo_world_db
      = (Success (JObj [(''user_id'', JNum 2), (''user_display_id'', JStr ''10002''), (''token'', JStr ''token'')]), db')"
    by (simp add: AuthHandler_Login_def bind_string_def decode_field_def low as_string_def demo_env_def mem_simps
        User_FindByUsername_def demo_world_db_def demo_users_def empty_db_def zero_user_def User_UpdateLastLogin_def
        update_users_def with_rows_def GenerateToken_def demo_jwt_def demo_auth_def demo_claims_def hour_def
        int64_def second_def auth_json_def JUint_def)
  then obtain db' where l: "AuthHandler_Login demo_env demo_auth ?body demo_world_db
      = (Success (JObj [(''user_id'', JNum 2), (''user_display_id'', JStr ''10002''), (''token'', JStr ''token'')]), db')" by blast
  have jwt: "jwt_ok (e_jwt demo_env)" using demo_jwt_ok by (simp add: demo_env_def)
  have c: "credentials ?body = Some (''bob'', ''pw2'')"
    by (simp add: credentials_def bind_string_def decode_field_def low as_string_def)
  have pos: "0 < e_clock demo_env 1 + lifetime demo_auth - second"
    by (simp add: demo_env_def lifetime_def demo_auth_def hour_def int64_def second_def)
  from login_token [OF demo_env_ok jwt l] obtain u password token where u: "u \<in> set (t_users demo_world_db)"
    "credentials ?body = Some (Username u, password)" "IsActive u"
    and tok: "\<forall>t cx. t < e_clock demo_env 1 + lifetime demo_auth - second \<longrightarrow>
         AuthMiddleware (e_jwt demo_env) demo_auth t (''Bearer '' @ token) cx =
           Inr (cx\<lparr>cx_userID := Some (u_ID u), cx_username := Some (Username u), cx_role := Some (u_Role u)\<rparr>)"
    by blast
  have "AuthMiddleware (e_jwt demo_env) demo_auth 0 (''Bearer '' @ token) no_context =
      Inr (no_context\<lparr>cx_userID := Some (u_ID u), cx_username := Some (Username u), cx_role := Some (u_Role u)\<rparr>)"
    using tok pos by blast
  then have "AuthMiddleware demo_jwt demo_auth 0 (''Bearer '' @ token) no_context =
      Inr \<lparr>cx_userID = Some (u_ID u), cx_username = Some (Username u), cx_role = Some (u_Role u)\<rparr>"
    by (simp only: demo_env_def env.simps no_context_def gin_context.simps)
  moreover have "Username u = ''bob''" using u(2) unfolding c by simp
  ultimately show ?thesis using l u(1,3) by blast
qed

section \<open>Registration\<close>

text \<open>Only the configured token makes a super administrator; nobody else's request does.\<close>

lemma create_user_role:
  assumes "\<forall>k. gorm_ok (g k)" "u_Role u \<noteq> []" "create_user n g rand u db = (Inr u', db')"
  shows "u_Role u' = u_Role u \<and> Username u' = Username u \<and> t_users db' = t_users db @ [u']"
  using assms
proof (induction n arbitrary: g rand u)
  case (Suc n)
  show ?case
  proof (cases "dCreate (g_users (g 0)) (User_BeforeCreate (rand 0) u) (t_users db)")
    case (Inl err)
    with Suc.prems have "create_user n (later 1 g) (later 2 rand) (u\<lparr>UserDisplayID := GenerateDisplayID (rand 1)\<rparr>) db = (Inr u', db')"
      by (auto simp: User_Create_def split: if_splits)
    from Suc.IH [OF _ _ this] Suc.prems(1,2) show ?thesis by (simp add: later_def)
  next
    case (Inr p)
    obtain v us where p: "p = (v, us)" by fastforce
    from driver_okD(1) [OF gorm_okD(1) [OF spec [OF Suc.prems(1)]] Inr [unfolded p]] obtain k now where
      "us = t_users db @ [v]" "v = complete user_schema (User_BeforeCreate (rand 0) u) k now" by blast
    with Suc.prems Inr p show ?thesis by (auto simp: User_Create_def user_schema_def User_BeforeCreate_def)
  qed
qed simp

lemma register_role:
  assumes "env_ok w" "AuthHandler_Register w cfg body db = (Success d, db')"
  shows "\<exists>u req. bind_register body = Some req \<and> t_users db' = t_users db @ [u] \<and> Username u = rr_Username req \<and>
    (u_Role u = ''super_admin'' \<and> rr_AdminToken req = AdminToken cfg \<and> AdminToken cfg \<noteq> [] \<or>
     u_Role u = ''user'' \<and> rr_AdminToken req = [])"
proof -
  from assms(2) obtain req hashed u where
    u: "bind_register body = Some req"
      "create_user 3 (later 1 (e_gorm w)) (e_rand w) (zero_user\<lparr>Username := rr_Username req, PasswordHash := hashed,
         Nickname := rr_Nickname req, u_Role := if rr_AdminToken req \<noteq> [] then ''super_admin'' else ''user''\<rparr>) db = (Inr u, db')"
    and tok: "\<not> (rr_AdminToken req \<noteq> [] \<and> (AdminToken cfg = [] \<or> rr_AdminToken req \<noteq> AdminToken cfg))"
    by (auto simp: AuthHandler_Register_def Let_def split: answer_splits)
  from create_user_role [OF env_ok_later [OF assms(1)] _ u(2)] u(1) tok show ?thesis by auto
qed

end
