(* ===== verification/Room_Access.thy ===== *)
theory Room_Access
  imports Db_Integrity
begin

text \<open>
  How the members of a room change over HTTP: who gets in and how, who can be put out and by whom, and
  what is left to somebody who was put out.
\<close>

section \<open>Handlers that leave the members alone\<close>

lemma members_update_users: "t_members (snd (update_users g P f db)) = t_members db"
  by (auto simp: update_users_def with_rows_def split: sum.split)

lemma members_kept_repo:
  "Room_Update g r db = (res, db') \<Longrightarrow> t_members db' = t_members db"
  "Message_Create g m db = (resm, db') \<Longrightarrow> t_members db' = t_members db"
  "Ingress_Create g i db = (resi, db') \<Longrightarrow> t_members db' = t_members db"
  "Ingress_Delete g k db = (res, db') \<Longrightarrow> t_members db' = t_members db"
  "Peer_Create g p db = (resp, db') \<Longrightarrow> t_members db' = t_members db"
  "Peer_Update g p db = (res, db') \<Longrightarrow> t_members db' = t_members db"
  "Peer_Delete g k u db = (res, db') \<Longrightarrow> t_members db' = t_members db"
  "Friendship_Create g f db = (res, db') \<Longrightarrow> t_members db' = t_members db"
  "UpdateStatus g now a b st db = (res, db') \<Longrightarrow> t_members db' = t_members db"
  "DeleteFriendship g a b db = (res, db') \<Longrightarrow> t_members db' = t_members db"
  by (auto simp: Room_Update_def Message_Create_def Ingress_Create_def Ingress_Delete_def Peer_Create_def Peer_Update_def
      Peer_Delete_def Friendship_Create_def UpdateStatus_def DeleteFriendship_def with_rows_def
      split: sum.splits prod.splits)

lemma members_kept_user:
  "User_UpdateProfile g k nick url db = (res, db') \<Longrightarrow> t_members db' = t_members db"
  "User_SetActive g k flag db = (res, db') \<Longrightarrow> t_members db' = t_members db"
  by (auto simp: User_UpdateProfile_def User_SetActive_def update_users_def with_rows_def Let_def split: sum.splits if_splits)

lemma members_clear_request: "clear_request w a b db = Inr db' \<Longrightarrow> t_members db' = t_members db"
  using members_kept_repo(10) [of "e_gorm w 2" a b db]
  by (cases "DeleteFriendship (e_gorm w 2) a b db") (auto simp: clear_request_def split: answer_splits)

lemma members_kept:
  "RoomHandler_UpdateRoom w cx roomId body db = (r, db') \<Longrightarrow> t_members db' = t_members db"
  "QQWebhook w cfg auth body db h = (r, db', h') \<Longrightarrow> t_members db' = t_members db"
  "IngressHandler_Create w cf cx roomId fwd host body db h = Some (r, db', h') \<Longrightarrow> t_members db' = t_members db"
  "IngressHandler_Delete w cx roomId ingressId reg db h = (r, db', h') \<Longrightarrow> t_members db' = t_members db"
  "FriendHandler_SendRequest w cx body db h = Some (r, db', h') \<Longrightarrow> t_members db' = t_members db"
  "FriendHandler_HandleRequest w cx requestId body db h = Some (r, db', h') \<Longrightarrow> t_members db' = t_members db"
  "UserHandler_UpdateProfile w cx body db = (r, db') \<Longrightarrow> t_members db' = t_members db"
  "AdminHandler_ToggleUser w userId body db = (r, db') \<Longrightarrow> t_members db' = t_members db"
  "UserHandler_UploadAvatar w os st cx upload db fs = (r, db', fs') \<Longrightarrow> t_members db' = t_members db"
proof -
  show "RoomHandler_UpdateRoom w cx roomId body db = (r, db') \<Longrightarrow> t_members db' = t_members db"
    by (auto simp: RoomHandler_UpdateRoom_def Let_def dest: members_kept_repo split: answer_splits)
  show "QQWebhook w cfg auth body db h = (r, db', h') \<Longrightarrow> t_members db' = t_members db"
    by (auto simp: QQWebhook_def Let_def dest: members_kept_repo split: answer_splits)
  show "IngressHandler_Create w cf cx roomId fwd host body db h = Some (r, db', h') \<Longrightarrow> t_members db' = t_members db"
    by (auto simp: IngressHandler_Create_def Let_def dest: members_kept_repo split: answer_splits)
  show "IngressHandler_Delete w cx roomId ingressId reg db h = (r, db', h') \<Longrightarrow> t_members db' = t_members db"
    by (auto simp: IngressHandler_Delete_def dest: members_kept_repo split: answer_splits)
  show "FriendHandler_SendRequest w cx body db h = Some (r, db', h') \<Longrightarrow> t_members db' = t_members db"
    by (auto simp: FriendHandler_SendRequest_def Let_def dest: members_clear_request dest!: members_kept_repo split: answer_splits)
  show "FriendHandler_HandleRequest w cx requestId body db h = Some (r, db', h') \<Longrightarrow> t_members db' = t_members db"
    by (auto simp: FriendHandler_HandleRequest_def Let_def dest: members_kept_repo split: answer_splits)
  show "UserHandler_UpdateProfile w cx body db = (r, db') \<Longrightarrow> t_members db' = t_members db"
    by (auto simp: UserHandler_UpdateProfile_def Let_def dest: members_kept_user split: answer_splits)
  show "AdminHandler_ToggleUser w userId body db = (r, db') \<Longrightarrow> t_members db' = t_members db"
    by (auto simp: AdminHandler_ToggleUser_def Let_def dest: members_kept_user split: answer_splits)
  show "UserHandler_UploadAvatar w os st cx upload db fs = (r, db', fs') \<Longrightarrow> t_members db' = t_members db"
    by (auto simp: UserHandler_UploadAvatar_def Let_def dest: members_kept_user split: answer_splits)
qed

lemma members_RegisterPeer:
  "RegisterPeer g ty dev roomID userID key db c = Some (res, db', c') \<Longrightarrow> t_members db' = t_members db"
  "UnregisterPeer g ty dev roomID userID db c = Some (resu, db', c') \<Longrightarrow> t_members db' = t_members db"
  by (auto simp: RegisterPeer_def UnregisterPeer_def Let_def dest: members_kept_repo split: answer_splits bind_splits)

lemma members_Vlan:
  "VLANHandler_Join w ty dev cx roomId host body db c h = Some (r, db', c', h') \<Longrightarrow> t_members db' = t_members db"
  "VLANHandler_Leave w ty dev cx roomId db c h = Some (r, db', c', h') \<Longrightarrow> t_members db' = t_members db"
  by (auto simp: VLANHandler_Join_def VLANHandler_Leave_def Let_def dest: members_RegisterPeer split: answer_splits bind_splits)

lemma members_Accounts:
  "AuthHandler_Register w cfg body db = (r, db') \<Longrightarrow> t_members db' = t_members db"
  "AuthHandler_Login w cfg body db = (r, db') \<Longrightarrow> t_members db' = t_members db"
  using accounts_only_users by (metis database.select_convs(3) database.surjective database.update_convs(1))+

section \<open>Handlers that change them\<close>

text \<open>The caller owns the room, or is a super administrator.\<close>

definition manages :: "gin_context \<Rightarrow> uint64 \<Rightarrow> database \<Rightarrow> bool" where
  "manages cx i db \<longleftrightarrow> (\<exists>rm \<in> set (t_rooms db). r_ID rm = i \<and> (OwnerID rm = the_userID cx \<or> the_role cx = ''super_admin''))"

definition owned :: "uint64 \<Rightarrow> uint64 \<Rightarrow> database \<Rightarrow> bool" where
  "owned i u db \<longleftrightarrow> (\<exists>rm \<in> set (t_rooms db). r_ID rm = i \<and> OwnerID rm = u)"

lemma room_pairs_same: "t_members db' = t_members db \<Longrightarrow> room_pairs db' = room_pairs db"
  by (simp add: room_pairs_def)

lemma Create_pairs:
  assumes "env_ok w" "RoomHandler_Create w cx body db = (r, db')"
  shows "room_pairs db' = room_pairs db \<or> (\<exists>i. \<not> room_exists i db \<and> room_pairs db' = insert (i, the_userID cx) (room_pairs db))"
proof (cases "room_pairs db' = room_pairs db")
  case False
  have same: "Room_Create r1 r2 g rm db = (res, db1) \<Longrightarrow> room_pairs db1 = room_pairs db" for r1 r2 g rm res db1
    by (auto simp: Room_Create_def room_pairs_def split: sum.splits)
  from False assms(2) obtain r0 r1 db1 res where
    c: "Room_Create (e_rand w 0) (e_rand w 1) (e_gorm w 0) r0 db = (Inr r1, db1)"
    and a: "AddMember (e_gorm w 1) (r_ID r1) (the_userID cx) ''admin'' db1 = (res, db')"
    by (auto simp: RoomHandler_Create_def Let_def dest: same split: answer_splits)
  from c obtain rs where d: "dCreate (g_rooms (e_gorm w 0)) (Room_BeforeCreate (e_rand w 0) (e_rand w 1) r0) (t_rooms db) = Inr (r1, rs)"
    by (auto simp: Room_Create_def split: sum.splits)
  from driver_okD(1) [OF gorm_okD(2) [OF env_okD [OF assms(1)]] d]
  have "\<forall>x \<in> set (t_rooms db). r_ID x < r_ID r1" by (auto simp: room_schema_def)
  then have "\<not> room_exists (r_ID r1) db" by (auto simp: room_exists_def)
  with False room_members.add_pairs [OF env_okD [OF assms(1)] a] same [OF c] show ?thesis by auto
qed simp

lemma Join_pairs:
  assumes "env_ok w" "RoomHandler_Join w cx body db = (r, db')"
  shows "room_pairs db' = room_pairs db \<or> (\<exists>rm \<in> set (t_rooms db). bind_string ''invite_code'' body = Some (InviteCode rm) \<and>
    room_pairs db' = insert (r_ID rm, the_userID cx) (room_pairs db))"
proof (cases "db' = db")
  case False
  with assms(2) obtain code rm res where code: "bind_string ''invite_code'' body = Some code"
    and f: "Room_FindByInviteCode (e_gorm w 0) code db = Inr rm"
    and a: "AddMember (e_gorm w 2) (r_ID rm) (the_userID cx) ''member'' db = (res, db')"
    by (auto simp: RoomHandler_Join_def Let_def split: answer_splits)
  from driver_okD(2) [OF gorm_okD(2) [OF env_okD [OF assms(1)]] f [unfolded Room_FindByInviteCode_def]]
  have "rm \<in> set (t_rooms db)" "InviteCode rm = code" by auto
  with room_members.add_pairs [OF env_okD [OF assms(1)] a] code show ?thesis by blast
qed simp

lemma found_manages:
  assumes "env_ok w" "Room_FindByID (e_gorm w) i db = Inr v"
  shows "may_manage cx v \<Longrightarrow> manages cx i db" "owned i (OwnerID (rv_room v)) db"
  using Room_FindByID_room(1,2) [OF assms(1) [unfolded env_ok_def] assms(2)]
  by (auto simp: manages_def owned_def may_manage_def)

lemma Kick_pairs:
  assumes "env_ok w" "integrity db" "RoomHandler_KickMember w cx roomId userId db h = Some (r, db', h')"
  shows "room_pairs db' = room_pairs db \<or>
    (\<exists>i u. manages cx i db \<and> \<not> owned i u db \<and> room_pairs db' = room_pairs db - {(i, u)})"
proof (cases "db' = db")
  case False
  with assms(3) obtain i u v res where f: "Room_FindByID (e_gorm w) i db = Inr v" "may_manage cx v" "u \<noteq> OwnerID (rv_room v)"
    and rem: "RemoveMember (e_gorm w 4) i u db = (res, db')"
    by (auto simp: RoomHandler_KickMember_def Let_def split: answer_splits)
  have "\<not> owned i u db"
    using Room_FindByID_room(1,2) [OF assms(1) [unfolded env_ok_def] f(1)] f(3) assms(2)
    by (auto simp: owned_def integrity_def distinct_map dest: inj_onD)
  with found_manages(1) [OF assms(1) f(1,2)] room_members.remove_pairs [OF env_okD [OF assms(1)] rem] show ?thesis by blast
qed simp

lemma Leave_pairs:
  assumes "env_ok w" "integrity db" "RoomHandler_Leave w cx roomId db h = (r, db', h')"
  shows "room_pairs db' = room_pairs db \<or>
    (\<exists>i. \<not> owned i (the_userID cx) db \<and> room_pairs db' = room_pairs db - {(i, the_userID cx)})"
proof (cases "db' = db")
  case False
  with assms(3) obtain i v res where f: "Room_FindByID (e_gorm w) i db = Inr v" "the_userID cx \<noteq> OwnerID (rv_room v)"
    and rem: "RemoveMember (e_gorm w 5) i (the_userID cx) db = (res, db')"
    by (auto simp: RoomHandler_Leave_def Let_def split: answer_splits)
  have "\<not> owned i (the_userID cx) db"
    using Room_FindByID_room(1,2) [OF assms(1) [unfolded env_ok_def] f(1)] f(2) assms(2)
    by (auto simp: owned_def integrity_def distinct_map dest: inj_onD)
  with room_members.remove_pairs [OF env_okD [OF assms(1)] rem] show ?thesis by blast
qed simp

lemma Room_Delete_pairs:
  assumes "\<forall>k. gorm_ok (g k)" "Room_Delete g i db = (res, db')"
  shows "room_pairs db' = room_pairs db \<or> room_pairs db' = {p \<in> room_pairs db. fst p \<noteq> i}"
  using Room_Delete_cases [OF assms] by (auto simp: purge_room_def room_pairs_def)

lemma Delete_pairs:
  assumes "env_ok w" "RoomHandler_Delete w cx roomId db h = (r, db', h')"
  shows "room_pairs db' = room_pairs db \<or> (\<exists>i. manages cx i db \<and> room_pairs db' = {p \<in> room_pairs db. fst p \<noteq> i})"
proof (cases "db' = db")
  case False
  with assms(2) obtain i v res where f: "Room_FindByID (e_gorm w) i db = Inr v" "may_manage cx v"
    and del: "Room_Delete (later 4 (e_gorm w)) i db = (res, db')"
    by (auto simp: RoomHandler_Delete_def Let_def split: answer_splits)
  from found_manages(1) [OF assms(1) f] Room_Delete_pairs [OF env_ok_later [OF assms(1)] del] show ?thesis by blast
qed simp

lemma Admin_pairs:
  assumes "env_ok w" "AdminHandler_DeleteRoom w roomId db = (r, db')"
  shows "room_pairs db' = room_pairs db \<or> (\<exists>i. room_pairs db' = {p \<in> room_pairs db. fst p \<noteq> i})"
proof (cases "db' = db")
  case False
  with assms(2) obtain i res where "Room_Delete (e_gorm w) i db = (res, db')"
    by (auto simp: AdminHandler_DeleteRoom_def Let_def split: answer_splits)
  from Room_Delete_pairs [OF assms(1) [unfolded env_ok_def] this] show ?thesis by blast
qed simp

section \<open>Every request\<close>

text \<open>The caller as the guards of the route let him pass.\<close>

definition passed :: "('k, 'w) world \<Rightarrow> endpoint \<Rightarrow> request \<Rightarrow> 'k server \<Rightarrow> response + gin_context" where
  "passed W e rq s = run_guards (w_env W) (cf_Auth (s_cfg s)) (guards e) (rq_header rq ''Authorization'') no_context"

lemma handle_members_kept:
  assumes "e \<notin> {CreateRoom, JoinRoomByCode, LeaveRoomById, KickFromRoom, DeleteRoom, AdminDelete}"
    and "handle W cx e rq s = Some (reply, s')"
  shows "t_members (s_db s') = t_members (s_db s)"
  using assms
  by (cases e) (auto simp: handle_def on_db_def on_db_hub_def on_vlan_def answered_def Let_def
      dest: members_kept members_Vlan members_Accounts integrity_connect split: answer_splits)

lemma admin_guarded: "passed W AdminDelete rq s = Inr cx \<Longrightarrow> the_role cx = ''super_admin''"
  by (auto simp: passed_def guards_table middleware_def AdminMiddleware_def the_role_def split: sum.splits if_splits)

lemma membership_changes_step:
  assumes "env_ok (w_env W)" "integrity (s_db s)" "serve W e rq s = Some (reply, s')"
  defines "db \<equiv> s_db s" and "old \<equiv> room_pairs (s_db s)" and "new \<equiv> room_pairs (s_db s')"
  shows "new = old \<or> (\<exists>cx. passed W e rq s = Inr cx \<and>
    (e = CreateRoom \<and> (\<exists>i. \<not> room_exists i db \<and> new = insert (i, the_userID cx) old) \<or>
     e = JoinRoomByCode \<and> (\<exists>rm \<in> set (t_rooms db). bind_string ''invite_code'' (rq_body rq) = Some (InviteCode rm) \<and>
       new = insert (r_ID rm, the_userID cx) old) \<or>
     e = LeaveRoomById \<and> (\<exists>i. \<not> owned i (the_userID cx) db \<and> new = old - {(i, the_userID cx)}) \<or>
     e = KickFromRoom \<and> (\<exists>i u. manages cx i db \<and> \<not> owned i u db \<and> new = old - {(i, u)}) \<or>
     (\<exists>i. (e = DeleteRoom \<and> manages cx i db \<or> e = AdminDelete \<and> the_role cx = ''super_admin'') \<and>
       new = {p \<in> old. fst p \<noteq> i})))"
proof (cases "passed W e rq s")
  case (Inl r)
  with assms(3) show ?thesis by (simp add: passed_def serve_def answered_def new_def old_def)
next
  case (Inr cx)
  with assms(3) have h: "handle W cx e rq s = Some (reply, s')" by (simp add: passed_def serve_def)
  show ?thesis
  proof (cases "e \<in> {CreateRoom, JoinRoomByCode, LeaveRoomById, KickFromRoom, DeleteRoom, AdminDelete}")
    case False
    from room_pairs_same [OF handle_members_kept [OF False h]] show ?thesis by (simp add: new_def old_def)
  next
    case True
    then consider (create) "e = CreateRoom" | (join) "e = JoinRoomByCode" | (leave) "e = LeaveRoomById"
      | (kick) "e = KickFromRoom" | (delete) "e = DeleteRoom" | (admin) "e = AdminDelete" by auto
    then show ?thesis
    proof cases
      case create
      with h Create_pairs [OF assms(1)] Inr show ?thesis
        unfolding new_def old_def db_def by (fastforce simp: handle_def on_db_def Let_def split: prod.splits)
    next
      case join
      with h Join_pairs [OF assms(1)] Inr show ?thesis
        unfolding new_def old_def db_def by (fastforce simp: handle_def on_db_def Let_def split: prod.splits)
    next
      case leave
      with h Leave_pairs [OF assms(1,2)] Inr show ?thesis
        unfolding new_def old_def db_def by (fastforce simp: handle_def on_db_hub_def Let_def split: prod.splits)
    next
      case kick
      with h Kick_pairs [OF assms(1,2)] Inr show ?thesis
        unfolding new_def old_def db_def by (fastforce simp: handle_def on_db_hub_def Let_def split: prod.splits)
    next
      case delete
      with h Delete_pairs [OF assms(1)] Inr show ?thesis
        unfolding new_def old_def db_def by (fastforce simp: handle_def on_db_hub_def Let_def split: prod.splits)
    next
      case admin
      with h Admin_pairs [OF assms(1)] Inr admin_guarded show ?thesis
        unfolding new_def old_def db_def by (fastforce simp: handle_def on_db_def Let_def split: prod.splits)
    qed
  qed
qed

text \<open>
  C21: A request changes the members of rooms in six ways only, each by the caller's own doing: he becomes a
  member of a room he makes, or of a room whose invite code he sends; he leaves a room that he does not
  own; the owner of a room or a super administrator puts out somebody other than the owner, or
  disbands the room. Nobody can be added by somebody else, and the owner stays until the room goes.
\<close>

theorem membership_changes:
  assumes "env_ok (w_env W)" "integrity (s_db s)" "serve W e rq s = Some (reply, s')"
  defines "db \<equiv> s_db s" and "old \<equiv> room_pairs (s_db s)" and "new \<equiv> room_pairs (s_db s')"
  shows "new = old \<or> (\<exists>cx. passed W e rq s = Inr cx \<and>
    (e = CreateRoom \<and> (\<exists>i. \<not> room_exists i db \<and> new = insert (i, the_userID cx) old) \<or>
     e = JoinRoomByCode \<and> (\<exists>rm \<in> set (t_rooms db). bind_string ''invite_code'' (rq_body rq) = Some (InviteCode rm) \<and>
       new = insert (r_ID rm, the_userID cx) old) \<or>
     e = LeaveRoomById \<and> (\<exists>i. \<not> owned i (the_userID cx) db \<and> new = old - {(i, the_userID cx)}) \<or>
     e = KickFromRoom \<and> (\<exists>i u. manages cx i db \<and> \<not> owned i u db \<and> new = old - {(i, u)}) \<or>
     (\<exists>i. (e = DeleteRoom \<and> manages cx i db \<or> e = AdminDelete \<and> the_role cx = ''super_admin'') \<and>
       new = {p \<in> old. fst p \<noteq> i})))"
  unfolding db_def old_def new_def by (rule membership_changes_step [OF assms(1,2,3)])

lemma demo_integrity: "integrity demo_world_db"
  by (simp add: integrity_def demo_world_db_def demo_room_def demo_member_def room_exists_def empty_db_def)

lemma demo_server_sel: "s_cfg demo_server = demo_config" "s_db demo_server = demo_world_db" "w_env demo_world = demo_env"
  "cf_Auth demo_config = demo_auth"
  by (simp_all add: demo_server_def demo_world_def demo_config_def)

lemma demo_passed_server:
  assumes "guards e = [Auth]" "s_cfg s = demo_config"
  shows "passed demo_world e (demo_request ''Bearer token'' body) s = Inr demo_bob"
    "passed demo_world e (demo_request ''Bearer ann'' body) s = Inr demo_ann"
  using demo_passed assms by (simp_all add: passed_def demo_server_sel demo_request_def)

theorem membership_changes_witness:
  "\<exists>reply s'. serve demo_world JoinRoomByCode
      (demo_request ''Bearer token'' (Some (JObj [(''invite_code'', JStr ''AAAAAA'')]))) demo_server = Some (reply, s') \<and>
    (room_pairs (s_db s') = {(7, 1)} \<or> room_pairs (s_db s') = {(7, 1), (7, 2)})"
proof -
  let ?rq = "demo_request ''Bearer token'' (Some (JObj [(''invite_code'', JStr ''AAAAAA'')]))"
  obtain r db where "RoomHandler_Join demo_env demo_bob (rq_body ?rq) demo_world_db = (r, db)" by fastforce
  then have "serve demo_world JoinRoomByCode ?rq demo_server = Some (Answered r, demo_server\<lparr>s_db := db\<rparr>)"
    by (simp add: demo_serve guards_table demo_server_sel handle_def on_db_def)
  then obtain reply s' where s: "serve demo_world JoinRoomByCode ?rq demo_server = Some (reply, s')" by blast
  have env: "env_ok (w_env demo_world)" using demo_env_ok by (simp add: demo_world_def)
  have i: "integrity (s_db demo_server)" using demo_integrity by (simp add: demo_server_sel)
  have old: "room_pairs (s_db demo_server) = {(7, 1)}" "t_rooms (s_db demo_server) = [demo_room]"
    by (simp_all add: demo_server_sel room_pairs_def demo_world_db_def demo_member_def)
  have p: "passed demo_world JoinRoomByCode ?rq demo_server = Inr demo_bob"
    by (rule demo_passed_server(1)) (simp_all add: guards_table demo_server_sel)
  have "the_userID demo_bob = 2" "r_ID demo_room = 7" by (simp_all add: demo_bob_def the_userID_def demo_room_def)
  with membership_changes [OF env i s] have "room_pairs (s_db s') = {(7, 1)} \<or> room_pairs (s_db s') = {(7, 1), (7, 2)}"
    unfolding p old by (elim disjE) (simp_all add: insert_commute)
  with s show ?thesis by blast
qed

section \<open>After a removal\<close>

text \<open>
  Anything may happen, except that \<open>u\<close> makes a room or joins one. (A new room can get the key of a room that was
  deleted, so making one counts.)
\<close>

inductive away :: "uint64 \<Rightarrow> 'k server \<Rightarrow> 'k server \<Rightarrow> bool" for u :: uint64 where
  stay: "away u s s"
| request: "away u s s1 \<Longrightarrow> env_ok (w_env (W :: ('k, bytes) world)) \<Longrightarrow> serve W e rq s1 = Some (reply, s2) \<Longrightarrow>
    \<not> (e \<in> {CreateRoom, JoinRoomByCode} \<and> (\<exists>cx. passed W e rq s1 = Inr cx \<and> the_userID cx = u)) \<Longrightarrow> away u s s2"
| background: "away u s s1 \<Longrightarrow> background_step s1 s2 \<Longrightarrow> away u s s2"

lemma t_members_HandleMessage: "HandleMessage w a data db h = Some (h', db') \<Longrightarrow> t_members db' = t_members db"
proof (cases "db' = db")
  assume h: "HandleMessage w a data db h = Some (h', db')" "db' \<noteq> db"
  then obtain p where "HandleChatSend (o_marshal w) (o_time w) (o_gorm w) a p db h = Some (h', db')"
    by (auto simp: HandleMessage_def handleChatSend_def Let_def split: answer_splits)
  from chat_send_stores [OF this h(2)] show ?thesis using members_kept_repo(2) by blast
qed simp

lemma background_pairs: "background_step s s' \<Longrightarrow> room_pairs (s_db s') = room_pairs (s_db s)"
proof (induction rule: background_step.induct)
  case (message w a data s h' db')
  then show ?case using room_pairs_same [OF t_members_HandleMessage [OF message(2)]] by simp
next
  case (cleanup g ty dev roomID userID s h' db' c')
  then have "t_members db' = t_members (s_db s)"
    by (auto simp: wg_cleanup_def Let_def dest: members_RegisterPeer split: answer_splits bind_splits)
  then show ?case by (simp add: room_pairs_def)
next
  case (stream g streamKey isActive s db' h')
  then have "t_members db' = t_members (s_db s)"
    by (auto simp: on_stream_state_def Ingress_SetActive_def with_rows_def Let_def split: sum.splits)
  then show ?case by (simp add: room_pairs_def)
next
  case (tick g s cutoff retentionDays)
  then show ?case by (auto simp: room_pairs_def CleanupOldMessages_def with_rows_def split: sum.split)
qed simp

lemma away_pairs:
  assumes "away u s s'" "integrity (s_db s)"
  shows "integrity (s_db s') \<and>
    (s_db s, s_db s') \<in> {(db, db'). (i, u) \<in> room_pairs db' \<longrightarrow> (i, u) \<in> room_pairs db}\<^sup>*"
  using assms
proof (induction rule: away.induct)
  case (request s s1 W e rq reply s2)
  then have ok: "integrity (s_db s1)" by blast
  from membership_changes_step [OF request.hyps(2) ok request.hyps(3)] request.hyps(4)
  have "(i, u) \<in> room_pairs (s_db s2) \<longrightarrow> (i, u) \<in> room_pairs (s_db s1)" by auto
  with request integrity_serve [OF request.hyps(2) ok request.hyps(3)] show ?case
    by (auto intro: rtrancl_into_rtrancl)
next
  case (background s s1 s2)
  then show ?case using integrity_background [OF background(2)] background_pairs [OF background(2)]
    by (auto intro: rtrancl_into_rtrancl)
qed simp

lemma KickUserFromRoom_leaves:
  assumes "KickUserFromRoom i u reason h = Some h'" "map_of (h_Clients h') u = Some a" "h_cells h' a = Some c"
  shows "\<not> IsInRoom i c"
  using assms
  by (auto simp: KickUserFromRoom_def on_client_def update_cell_def IsInRoom_def LeaveRoom_def Let_def
      split: option.splits bind_splits)

lemma Kick_done:
  assumes "env_ok w" "integrity db" "RoomHandler_KickMember w cx roomId userId db h = Some (Success d, db', h')"
    and "ParseUint roomId = Some i" "ParseUint userId = Some u"
  shows "manages cx i db" "\<not> owned i u db" "RemoveMember (e_gorm w 4) i u db = (Inr (), db')"
    "KickUserFromRoom i u kick_reason h = Some h'"
proof -
  from assms(3-5) obtain v where f: "Room_FindByID (e_gorm w) i db = Inr v" "may_manage cx v" "u \<noteq> OwnerID (rv_room v)"
    and r: "RemoveMember (e_gorm w 4) i u db = (Inr (), db')" "KickUserFromRoom i u kick_reason h = Some h'"
    by (auto simp: RoomHandler_KickMember_def Let_def split: answer_splits)
  show "manages cx i db" by (rule found_manages(1) [OF assms(1) f(1,2)])
  show "\<not> owned i u db"
    using Room_FindByID_room(1,2) [OF assms(1) [unfolded env_ok_def] f(1)] f(3) assms(2)
    by (auto simp: owned_def integrity_def distinct_map dest: inj_onD)
  show "RemoveMember (e_gorm w 4) i u db = (Inr (), db')" "KickUserFromRoom i u kick_reason h = Some h'" by fact+
qed

lemma refused_no_success: "run_guards w cfg gs header cx = Inl r \<Longrightarrow> resp_status r \<noteq> 200"
  by (induction gs arbitrary: cx) (auto simp: middleware_def AuthMiddleware_def AdminMiddleware_def ErrorWithStatus_def
      Let_def split: answer_splits guard.splits)


text \<open>Ann puts Bob out of her room.\<close>

definition demo_kick :: request where
  "demo_kick = (demo_request ''Bearer ann'' None)\<lparr>rq_param := (\<lambda>name. if name = ''userId'' then ''2'' else ''7'')\<rparr>"

definition demo_full :: "bool server" where
  "demo_full = demo_server\<lparr>s_db := demo_world_db\<lparr>t_members := [demo_member 1, demo_member 2]\<rparr>, s_hub := NewHub\<rparr>"

lemma demo_Kick:
  "\<exists>db h. RoomHandler_KickMember demo_env demo_ann ''7'' ''2'' (s_db demo_full) NewHub = Some (Success JNull, db, h)"
proof -
  have "ParseUint ''2'' = Some 2" by (simp add: ParseUint_def parse_digits_def is_digit_def digit_value_def)
  then show ?thesis
    by (simp add: RoomHandler_KickMember_def parse_7 demo_env_def demo_full_def demo_world_db_def Room_FindByID_def mem_simps
        preload_users_def demo_room_def demo_users_def zero_user_def empty_db_def demo_member_def may_manage_def demo_ann_def
        the_userID_def RemoveMember_def with_rows_def KickUserFromRoom_def SendToUser_def NewHub_def BroadcastToRoom_def Let_def)
qed

lemma demo_full_sel: "s_cfg demo_full = demo_config" "s_hub demo_full = NewHub" "integrity (s_db demo_full)"
  by (simp_all add: demo_full_def demo_server_def integrity_def demo_world_db_def demo_room_def demo_member_def
      room_exists_def empty_db_def)


end
