(* ===== verification/Message_Pages.thy ===== *)
theory Message_Pages
  imports Db_Integrity
begin

text \<open>
  The history of a room as a client reads it page by page, against a reference: cuts of one list, the
  messages of the room in the order of their keys.
\<close>

section \<open>The reference\<close>

definition history_page :: "uint64 \<Rightarrow> uint64 \<Rightarrow> nat \<Rightarrow> message list \<Rightarrow> message list" where
  "history_page afterID beforeID n hist =
     (if 0 < afterID then take n (filter (\<lambda>m. afterID < msg_ID m) hist)
      else let ms = (if 0 < beforeID then filter (\<lambda>m. msg_ID m < beforeID) hist else hist)
           in drop (length ms - n) ms)"

lemma room_log_sorted: "sorted (map msg_ID (room_log i db))"
  by (simp add: room_log_def)

lemma room_log_distinct: "integrity db \<Longrightarrow> distinct (map msg_ID (room_log i db))"
proof -
  assume "integrity db"
  then have d: "distinct (map msg_ID (filter (\<lambda>m. msg_RoomID m = i) (t_messages db)))"
    by (simp add: integrity_def distinct_filter_map)
  have "mset (map msg_ID (room_log i db)) = mset (map msg_ID (filter (\<lambda>m. msg_RoomID m = i) (t_messages db)))"
    by (simp add: room_log_def)
  with d show ?thesis by (metis mset_eq_imp_distinct_iff)
qed

lemma filter_log:
  assumes "integrity db" "mset ys = mset (filter (\<lambda>m. msg_RoomID m = i \<and> P m) (t_messages db))" "sorted (map msg_ID ys)"
  shows "ys = filter P (room_log i db)"
proof -
  let ?xs = "filter (\<lambda>m. msg_RoomID m = i) (t_messages db)"
  have eq: "filter (\<lambda>m. msg_RoomID m = i \<and> P m) (t_messages db) = filter P ?xs" by (simp add: filter_filter)
  have d: "distinct (map msg_ID (filter P ?xs))" using assms(1) by (simp add: integrity_def distinct_filter_map)
  have "ys = sort_key msg_ID (filter P ?xs)" using sorted_by_key_unique [OF assms(2) [unfolded eq] d assms(3)] .
  moreover have "mset (filter P (room_log i db)) = mset (filter P ?xs)"
    by (simp only: room_log_def mset_filter mset_sort)
  from sorted_by_key_unique [OF this d] have "filter P (room_log i db) = sort_key msg_ID (filter P ?xs)"
    by (simp add: room_log_sorted sorted_filter)
  ultimately show ?thesis by simp
qed

section \<open>The pages\<close>

lemma page_end: "rev (take n (rev xs)) = drop (length xs - n) xs"
  by (metis length_rev rev_rev_ident rev_take)

lemma message_page_cut:
  assumes "\<forall>k. gorm_ok (g k)" "integrity db" "message_page g i a b n db = Inr ms"
  shows "map fst ms = history_page a b n (room_log i db)"
proof (cases "0 < a")
  case True
  with assms(3) have "find_messages g False n (\<lambda>m. msg_RoomID m = i \<and> a < msg_ID m) db = Inr ms"
    by (simp add: message_page_def GetMessagesAfter_def)
  from find_messages_asc [OF assms(1) this] obtain ys where
    "mset ys = mset (filter (\<lambda>m. msg_RoomID m = i \<and> a < msg_ID m) (t_messages db))"
    "map fst ms = take n ys" "sorted (map msg_ID ys)" by blast
  with filter_log [OF assms(2)] True show ?thesis by (metis history_page_def)
next
  case False
  let ?P = "\<lambda>m. 0 < b \<longrightarrow> msg_ID m < b"
  from False assms(3) obtain xs where
    x: "find_messages g True n (\<lambda>m. msg_RoomID m = i \<and> ?P m) db = Inr xs" "ms = rev xs"
    by (cases "0 < b") (auto simp: message_page_def GetMessagesBefore_def GetLatestMessages_def
        map_sum_def split: sum.splits)
  from find_messages_desc [OF assms(1) x(1)] obtain ys where
    y: "mset ys = mset (filter (\<lambda>m. msg_RoomID m = i \<and> ?P m) (t_messages db))"
    "map fst (rev xs) = rev (take n (rev ys))" "sorted (map msg_ID ys)" by blast
  have "ys = filter ?P (room_log i db)" by (rule filter_log [OF assms(2) y(1,3)])
  then have "ys = (if 0 < b then filter (\<lambda>m. msg_ID m < b) (room_log i db) else room_log i db)" by simp
  with y(2) x(2) False show ?thesis unfolding history_page_def by (simp only: page_end if_False Let_def)
qed

text \<open>A page begins where the one before ended, in both directions.\<close>

lemma filter_after_nth:
  assumes "sorted (map f xs)" "distinct (map f xs)" "k < length xs"
  shows "filter (\<lambda>x. (f (xs ! k) :: nat) < f x) xs = drop (Suc k) xs" "filter (\<lambda>x. f x < f (xs ! k)) xs = take k xs"
proof -
  have mono: "f (xs ! i) < f (xs ! j)" if "i < j" "j < length xs" for i j
    using sorted_nth_mono [OF assms(1), of i j] nth_eq_iff_index_eq [OF assms(2), of i j] that by fastforce
  have xs: "xs = take k xs @ xs ! k # drop (Suc k) xs" using assms(3) by (rule id_take_nth_drop)
  have before: "f y < f (xs ! k)" if "y \<in> set (take k xs)" for y
    using that mono assms(3) by (auto simp: in_set_conv_nth)
  have after: "f (xs ! k) < f y" if "y \<in> set (drop (Suc k) xs)" for y
    using that mono assms(3) by (auto simp: in_set_conv_nth)
  have "filter (\<lambda>x. f (xs ! k) < f x) (take k xs) = []" "filter (\<lambda>x. f (xs ! k) < f x) (drop (Suc k) xs) = drop (Suc k) xs"
    "filter (\<lambda>x. f x < f (xs ! k)) (take k xs) = take k xs" "filter (\<lambda>x. f x < f (xs ! k)) (drop (Suc k) xs) = []"
    using before after by (auto simp: filter_empty_conv filter_id_conv dest: less_asym)
  moreover have "filter Q xs = filter Q (take k xs) @ filter Q (xs ! k # drop (Suc k) xs)" for Q
    by (metis xs filter_append)
  ultimately show "filter (\<lambda>x. f (xs ! k) < f x) xs = drop (Suc k) xs" "filter (\<lambda>x. f x < f (xs ! k)) xs = take k xs"
    by simp_all
qed

lemma next_page:
  assumes "sorted (map msg_ID hist)" "distinct (map msg_ID hist)" "0 < a" "p = history_page a b n hist" "p \<noteq> []"
  shows "p @ history_page (msg_ID (last p)) b' n' hist = history_page a b (length p + n') hist"
proof -
  let ?xs = "filter (\<lambda>m. a < msg_ID m) hist"
  have p: "p = take n ?xs" using assms(3,4) by (simp add: history_page_def)
  let ?k = "length p - 1"
  have k: "?k < length ?xs" "last p = ?xs ! ?k" "Suc ?k = length p"
    using assms(5) by (auto simp: p last_conv_nth min_def)
  have s: "sorted (map msg_ID ?xs)" "distinct (map msg_ID ?xs)"
    using assms(1,2) by (simp_all add: sorted_filter distinct_filter_map)
  have a: "a < msg_ID (last p)" using k(1,2) nth_mem [OF k(1)] by simp
  have "filter (\<lambda>m. msg_ID (last p) < msg_ID m) hist = filter (\<lambda>m. msg_ID (last p) < msg_ID m) ?xs"
    using a by (auto intro!: filter_cong simp: filter_filter)
  also have "\<dots> = drop (length p) ?xs" using filter_after_nth(1) [OF s k(1)] k(2,3) by simp
  finally have "history_page (msg_ID (last p)) b' n' hist = take n' (drop (length p) ?xs)"
    using a by (simp add: history_page_def)
  moreover have "p = take (length p) ?xs" by (simp add: p min_def)
  ultimately have "p @ history_page (msg_ID (last p)) b' n' hist = take (length p) ?xs @ take n' (drop (length p) ?xs)"
    by metis
  then show ?thesis using assms(3) by (simp add: history_page_def take_add)
qed

lemma previous_page:
  assumes "sorted (map msg_ID hist)" "distinct (map msg_ID hist)" "p = history_page 0 b n hist" "p \<noteq> []" "0 < msg_ID (hd p)"
  shows "history_page 0 (msg_ID (hd p)) n' hist @ p = history_page 0 b (n' + length p) hist"
proof -
  define xs where "xs = (if 0 < b then filter (\<lambda>m. msg_ID m < b) hist else hist)"
  have p: "p = drop (length xs - n) xs" using assms(3) by (simp add: history_page_def xs_def Let_def)
  let ?k = "length xs - length p"
  have k: "?k < length xs" "hd p = xs ! ?k" "p = drop ?k xs"
    using assms(4) by (auto simp: p hd_drop_conv_nth)
  have s: "sorted (map msg_ID xs)" "distinct (map msg_ID xs)"
    using assms(1,2) by (simp_all add: xs_def sorted_filter distinct_filter_map)
  have "hd p \<in> set xs" using k(1,2) nth_mem [OF k(1)] by simp
  then have "0 < b \<longrightarrow> msg_ID (hd p) < b" by (auto simp: xs_def split: if_splits)
  then have "filter (\<lambda>m. msg_ID m < msg_ID (hd p)) hist = filter (\<lambda>m. msg_ID m < msg_ID (hd p)) xs"
    by (auto intro!: filter_cong simp: filter_filter xs_def)
  also have "\<dots> = take ?k xs" using filter_after_nth(2) [OF s k(1)] k(2) by simp
  finally have "history_page 0 (msg_ID (hd p)) n' hist = drop (?k - n') (take ?k xs)"
    using assms(5) k(1) by (simp add: history_page_def Let_def min_def)
  then have "history_page 0 (msg_ID (hd p)) n' hist @ p = drop (?k - n') (take ?k xs) @ drop ?k xs" using k(3) by simp
  also have "\<dots> = drop (?k - n') (take ?k xs @ drop ?k xs)" using k(1) by (subst drop_append) simp
  also have "\<dots> = drop (length xs - (n' + length p)) xs" by (simp add: diff_diff_eq add.commute)
  finally show ?thesis by (simp add: history_page_def xs_def Let_def)
qed

lemma page_limit_bounds: "1 \<le> page_limit q \<and> page_limit q \<le> 100"
  by (auto simp: page_limit_def Let_def)

text \<open>
  C26: A successful answer to a request for messages is, for a member only, exactly a cut of the room's
  messages in the order of their keys: the first ones after a key, the last ones before a key, or the
  latest ones, at most 100. The page that is asked with the last key of a page continues it, and the page
  asked with the first key of a page ends right before it, so reading page by page in either direction
  shows every message of the room once, whatever order the database returns rows in.
\<close>

theorem message_pages:
  assumes "env_ok w" "integrity db" "MessageHandler_GetMessages w parse cx roomId after_id before_id per_page db = Success d"
  defines "a \<equiv> ParseUint_value after_id" and "b \<equiv> ParseUint_value before_id" and "n \<equiv> page_limit per_page"
  shows "\<exists>i ms p. ParseUint roomId = Some i \<and> member i (the_userID cx) db \<and> d = JArr (map (message_json w parse) ms) \<and>
    p = map fst ms \<and> p = history_page a b n (room_log i db) \<and> length p \<le> n \<and> n \<le> 100 \<and>
    (0 < a \<and> p \<noteq> [] \<longrightarrow> (\<forall>k. p @ history_page (msg_ID (last p)) b k (room_log i db) = history_page a b (length p + k) (room_log i db))) \<and>
    (a = 0 \<and> p \<noteq> [] \<and> 0 < msg_ID (hd p) \<longrightarrow> (\<forall>k. history_page 0 (msg_ID (hd p)) k (room_log i db) @ p =
       history_page 0 b (k + length p) (room_log i db)))"
proof -
  from assms(3) obtain i ms where i: "ParseUint roomId = Some i" "IsMember (e_gorm w 0) i (the_userID cx) db"
    and m: "message_page (later 1 (e_gorm w)) i a b n db = Inr ms" "d = JArr (map (message_json w parse) ms)"
    by (auto simp: MessageHandler_GetMessages_def a_def b_def n_def split: answer_splits)
  let ?h = "room_log i db" and ?p = "map fst ms"
  have p: "?p = history_page a b n ?h" by (rule message_page_cut [OF env_ok_later [OF assms(1)] assms(2) m(1)])
  have "length ?p \<le> n" unfolding p by (auto simp: history_page_def Let_def)
  moreover have "0 < a \<and> ?p \<noteq> [] \<longrightarrow> (\<forall>k. ?p @ history_page (msg_ID (last ?p)) b k ?h = history_page a b (length ?p + k) ?h)"
    using next_page [OF room_log_sorted room_log_distinct [OF assms(2)] _ p] by blast
  moreover have "a = 0 \<and> ?p \<noteq> [] \<and> 0 < msg_ID (hd ?p) \<longrightarrow>
      (\<forall>k. history_page 0 (msg_ID (hd ?p)) k ?h @ ?p = history_page 0 b (k + length ?p) ?h)"
    using previous_page [OF room_log_sorted room_log_distinct [OF assms(2)], of ?p b n i] p by blast
  ultimately show ?thesis
    using i m(2) p IsMember_sound [OF env_okD [OF assms(1)] i(2)] page_limit_bounds [of per_page] unfolding n_def by blast
qed

text \<open>Three messages in two rooms, out of order; the latest of room 7.\<close>

definition demo_message :: "uint64 \<Rightarrow> uint64 \<Rightarrow> message" where
  "demo_message i room = \<lparr>msg_ID = i, msg_RoomID = room, SenderID = 1, msg_Type = ''text'', Content = ''hi'',
     Meta = None, msg_CreatedAt = 0\<rparr>"

definition demo_chat :: database where
  "demo_chat = demo_world_db\<lparr>t_rooms := [demo_room, demo_room\<lparr>r_ID := 8\<rparr>],
     t_messages := [demo_message 3 7, demo_message 2 8, demo_message 1 7]\<rparr>"

theorem message_pages_witness:
  "\<exists>ms. MessageHandler_GetMessages demo_env JStr demo_ann ''7'' [] [] [] demo_chat =
      Success (JArr (map (message_json demo_env JStr) ms)) \<and> map msg_ID (map fst ms) = [1, 3]"
proof -
  have ok: "integrity demo_chat"
    by (simp add: integrity_def demo_chat_def demo_world_db_def demo_room_def demo_member_def demo_message_def room_exists_def
        empty_db_def)
  have z: "ParseUint_value [] = 0" "page_limit [] = 50" by code_simp+
  have "\<exists>d. MessageHandler_GetMessages demo_env JStr demo_ann ''7'' [] [] [] demo_chat = Success d"
    by (simp add: MessageHandler_GetMessages_def parse_7 z demo_env_def demo_ann_def the_userID_def IsMember_def mem_simps
        count_or_zero_def demo_chat_def demo_world_db_def demo_member_def message_page_def GetLatestMessages_def
        find_messages_def preload_users_def later_def mem_driver_def Let_def)
  then obtain d where d: "MessageHandler_GetMessages demo_env JStr demo_ann ''7'' [] [] [] demo_chat = Success d" by blast
  from message_pages [OF demo_env_ok ok d] obtain i ms p where i: "ParseUint ''7'' = Some i"
    and m: "d = JArr (map (message_json demo_env JStr) ms)" "p = map fst ms"
      "p = history_page (ParseUint_value []) (ParseUint_value []) (page_limit []) (room_log i demo_chat)"
    by (elim exE conjE) (rule that)
  have ms: "d = JArr (map (message_json demo_env JStr) ms)" "map fst ms = history_page 0 0 50 (room_log i demo_chat)"
    using m by (simp_all only: z)
  from i have "i = 7" by (simp add: parse_7)
  have "room_log 7 demo_chat = [demo_message 1 7, demo_message 3 7]"
    by (simp add: room_log_def demo_chat_def demo_message_def)
  with \<open>i = 7\<close> have "map msg_ID (map fst ms) = [1, 3]" unfolding ms(2) by (simp add: history_page_def demo_message_def)
  moreover have "MessageHandler_GetMessages demo_env JStr demo_ann ''7'' [] [] [] demo_chat =
      Success (JArr (map (message_json demo_env JStr) ms))" using d by (simp only: ms(1))
  ultimately show ?thesis by (intro exI [of _ ms] conjI)
qed

end
