(* ===== verification/Friend_Relations.thy ===== *)
theory Friend_Relations
  imports Api_Access
begin

text \<open>
  What the friend requests promise: the rows of the table as a relation between two people, an abstract
  machine on it in which everybody acts for himself, and the handlers as its implementation.
\<close>

section \<open>The abstract machine\<close>

text \<open>The status of the request from one user to another, if there is one.\<close>

type_synonym relations = "uint64 \<times> uint64 \<Rightarrow> string option"

definition settled :: "relations \<Rightarrow> uint64 \<Rightarrow> uint64 \<Rightarrow> bool" where
  "settled R a b \<longleftrightarrow> R (a, b) \<in> {Some ''pending'', Some ''accepted''} \<or> R (b, a) \<in> {Some ''pending'', Some ''accepted''}"

definition separate :: "uint64 \<Rightarrow> uint64 \<Rightarrow> relations \<Rightarrow> relations" where
  "separate a b R = (\<lambda>p. if p = (a, b) \<or> p = (b, a) then None else R p)"

text \<open>
  One step by the user \<open>u\<close>: asking somebody with whom nothing is settled, answering what one was asked, or
  dropping an answer of no on the way to a new request that then fails.
\<close>

inductive friend_step :: "uint64 \<Rightarrow> relations \<Rightarrow> relations \<Rightarrow> bool" for u :: uint64 where
  ask: "b \<noteq> u \<Longrightarrow> \<not> settled R u b \<Longrightarrow> friend_step u R ((separate u b R)((u, b) := Some ''pending''))"
| answer: "R (a, u) = Some ''pending'' \<Longrightarrow> st \<in> {''accepted'', ''rejected''} \<Longrightarrow> friend_step u R (R((a, u) := Some st))"
| withdraw: "\<not> settled R u b \<Longrightarrow> friend_step u R (separate u b R)"

text \<open>A relation becomes a friendship only by the answer of the user who was asked, and it stays one.\<close>

lemma accepted_by_addressee:
  assumes "friend_step u R R'" "R' (a, b) = Some ''accepted''" "R (a, b) \<noteq> Some ''accepted''"
  shows "u = b \<and> R (a, b) = Some ''pending''"
  using assms by (induction rule: friend_step.induct) (auto simp: separate_def split: if_splits)

lemma accepted_stays:
  assumes "friend_step u R R'" "R (a, b) = Some ''accepted''"
  shows "R' (a, b) = Some ''accepted''"
  using assms by (induction rule: friend_step.induct) (auto simp: separate_def settled_def)

section \<open>The table\<close>

definition relations_of :: "database \<Rightarrow> relations" where
  "relations_of db = (\<lambda>(a, b). map_option Status (find (\<lambda>f. RequesterID f = a \<and> AddresseeID f = b) (t_friendships db)))"

text \<open>One row for two people, in one direction, with one of the three states.\<close>

definition one_row :: "database \<Rightarrow> bool" where
  "one_row db \<longleftrightarrow> (\<forall>f \<in> set (t_friendships db). Status f \<in> {''pending'', ''accepted'', ''rejected''}) \<and>
     (\<forall>a b. length (filter (between a b) (t_friendships db)) \<le> 1)"

lemma between_sym: "between a b f = between b a f"
  by (auto simp: between_def)

lemma find_filter: "find P xs = (case filter P xs of [] \<Rightarrow> None | x # _ \<Rightarrow> Some x)"
  by (induction xs) auto

text \<open>With one row at most, the relation between two people is that row.\<close>

lemma relations_row:
  assumes "one_row db" "f \<in> set (t_friendships db)"
  shows "relations_of db (RequesterID f, AddresseeID f) = Some (Status f)"
proof -
  let ?P = "\<lambda>x. RequesterID x = RequesterID f \<and> AddresseeID x = AddresseeID f"
  have "find ?P (t_friendships db) \<noteq> None" using assms(2) by (auto simp: find_None_iff)
  then obtain x where x: "find ?P (t_friendships db) = Some x" by blast
  then have "?P x" "x \<in> set (t_friendships db)" by (auto simp: find_Some_iff)
  let ?rows = "filter (between (RequesterID f) (AddresseeID f)) (t_friendships db)"
  have "x \<in> set ?rows" "f \<in> set ?rows" using assms(2) \<open>?P x\<close> \<open>x \<in> set (t_friendships db)\<close> by (auto simp: between_def)
  moreover have "length ?rows \<le> 1" using assms(1) by (auto simp: one_row_def)
  ultimately have "x = f" by (cases ?rows) auto
  with x show ?thesis by (simp add: relations_of_def)
qed

lemma relations_none:
  assumes "\<And>f. f \<in> set (t_friendships db) \<Longrightarrow> \<not> between a b f"
  shows "relations_of db (a, b) = None" "relations_of db (b, a) = None"
  using assms by (auto simp: relations_of_def find_None_iff between_def)

lemma relations_some:
  assumes "relations_of db (a, b) = Some st"
  shows "\<exists>f \<in> set (t_friendships db). RequesterID f = a \<and> AddresseeID f = b \<and> Status f = st"
  using assms by (auto simp: relations_of_def find_Some_iff)

lemma relations_delete:
  assumes "t_friendships db' = filter (\<lambda>f. \<not> between a b f) (t_friendships db)"
  shows "relations_of db' = separate a b (relations_of db)"
proof
  fix p :: "uint64 \<times> uint64"
  obtain x y where p: "p = (x, y)" by fastforce
  let ?P = "\<lambda>f. RequesterID f = x \<and> AddresseeID f = y"
  show "relations_of db' p = separate a b (relations_of db) p"
  proof (cases "{x, y} = {a, b}")
    case True
    then have "?P f \<Longrightarrow> between a b f" for f by (auto simp: between_def doubleton_eq_iff)
    then have "filter ?P (t_friendships db') = []" by (auto simp: assms filter_empty_conv)
    with True show ?thesis by (auto simp: relations_of_def find_filter separate_def p doubleton_eq_iff)
  next
    case False
    then have "filter ?P (t_friendships db') = filter ?P (t_friendships db)"
      unfolding assms filter_filter by (intro filter_cong) (auto simp: between_def doubleton_eq_iff)
    with False show ?thesis by (auto simp: relations_of_def find_filter separate_def p doubleton_eq_iff)
  qed
qed

lemma length_filter_conj: "length (filter (\<lambda>x. P x \<and> Q x) xs) \<le> length (filter Q xs)"
  by (induction xs) auto

lemma one_row_delete:
  assumes "one_row db" "t_friendships db' = filter P (t_friendships db)"
  shows "one_row db'"
proof -
  have "length (filter (between a b) (t_friendships db')) \<le> length (filter (between a b) (t_friendships db))" for a b
    unfolding assms(2) filter_filter by (rule length_filter_conj)
  with assms show ?thesis unfolding one_row_def by (auto intro: order_trans [OF length_filter_conj])
qed

lemma one_row_same:
  assumes "one_row db" "f \<in> set (t_friendships db)" "f' \<in> set (t_friendships db)" "between a b f" "between a b f'"
  shows "f = f'"
proof -
  let ?rows = "filter (between a b) (t_friendships db)"
  have "length ?rows \<le> 1" "f \<in> set ?rows" "f' \<in> set ?rows" using assms by (auto simp: one_row_def)
  then show ?thesis by (cases ?rows) auto
qed

lemma relations_create:
  assumes "\<And>f. f \<in> set (t_friendships db) \<Longrightarrow> \<not> between a b f" "between a b f'" "RequesterID f' = a" "AddresseeID f' = b"
    and "t_friendships db' = t_friendships db @ [f']"
  shows "relations_of db' = (relations_of db)((a, b) := Some (Status f'))"
proof
  fix p :: "uint64 \<times> uint64"
  obtain x y where p: "p = (x, y)" by fastforce
  have "filter (\<lambda>f. RequesterID f = a \<and> AddresseeID f = b) (t_friendships db) = []"
    using assms(1) by (auto simp: filter_empty_conv between_def)
  then show "relations_of db' p = ((relations_of db)((a, b) := Some (Status f'))) p"
    using assms(3-5) by (auto simp: relations_of_def find_filter p split: list.split)
qed

lemma one_row_create:
  assumes "one_row db" "\<And>f. f \<in> set (t_friendships db) \<Longrightarrow> \<not> between a b f" "RequesterID f' = a" "AddresseeID f' = b"
    and "Status f' \<in> {''pending'', ''accepted'', ''rejected''}" "t_friendships db' = t_friendships db @ [f']"
  shows "one_row db'"
proof -
  have "filter (between x y) (t_friendships db) = []" if "between x y f'" for x y
  proof -
    from that assms(3,4) have "between x y f = between a b f" for f by (auto simp: between_def)
    with assms(2) show ?thesis by (simp add: filter_empty_conv)
  qed
  with assms(1,5,6) show ?thesis by (auto simp: one_row_def)
qed

section \<open>The handlers\<close>

text \<open>The database answers the two calls whose errors the code ignores; all others may fail.\<close>

definition answering :: "env \<Rightarrow> bool" where
  "answering w \<longleftrightarrow>
     (\<forall>k P fs err. dFirst (g_friendships (e_gorm w k)) P fs = Inl err \<longrightarrow> err = RecordNotFound) \<and>
     (\<forall>k P fs. \<exists>rs. dDelete (g_friendships (e_gorm w k)) P fs = Inr rs)"

lemma clear_request_cases:
  assumes "env_ok w" "answering w" "one_row db" "clear_request w a b db = res"
  shows "(res = Inl (Error 40901) \<and> settled (relations_of db) a b) \<or>
    (\<exists>db1. res = Inr db1 \<and> \<not> settled (relations_of db) a b \<and> relations_of db1 = separate a b (relations_of db) \<and> one_row db1 \<and>
       (\<forall>f \<in> set (t_friendships db1). \<not> between a b f))"
proof (cases "FindByUsers (e_gorm w 1) a b db")
  case (Inl err)
  then have e: "dFirst (g_friendships (e_gorm w 1)) (between a b) (t_friendships db) = Inl RecordNotFound"
    using assms(2) by (auto simp: FindByUsers_def answering_def)
  have none: "\<not> between a b f" if "f \<in> set (t_friendships db)" for f
    using driver_okD(3) [OF gorm_okD(6) [OF env_okD [OF assms(1)]] e that] .
  from relations_none [OF none] have "\<not> settled (relations_of db) a b" "separate a b (relations_of db) = relations_of db"
    by (auto simp: settled_def separate_def fun_eq_iff)
  with assms(3,4) Inl none show ?thesis by (auto simp: clear_request_def)
next
  case (Inr f)
  from driver_okD(2) [OF gorm_okD(6) [OF env_okD [OF assms(1)]] Inr [unfolded FindByUsers_def]]
  have f: "f \<in> set (t_friendships db)" "between a b f" by auto
  have st: "Status f \<in> {''pending'', ''accepted'', ''rejected''}" using assms(3) f(1) by (auto simp: one_row_def)
  have row: "relations_of db (a, b) = Some (Status f) \<or> relations_of db (b, a) = Some (Status f)"
    using relations_row [OF assms(3) f(1)] f(2) by (auto simp: between_def)
  have only: "Status f = st" if "relations_of db (a, b) = Some st \<or> relations_of db (b, a) = Some st" for st
  proof -
    from that obtain g where "g \<in> set (t_friendships db)" "between a b g" "Status g = st"
      using relations_some by (fastforce simp: between_def)
    with one_row_same [OF assms(3) f(1) _ f(2)] show ?thesis by blast
  qed
  show ?thesis
  proof (cases "Status f = ''rejected''")
    case True
    from assms(2) obtain rs where rs: "dDelete (g_friendships (e_gorm w 2)) (between a b) (t_friendships db) = Inr rs"
      unfolding answering_def by blast
    let ?db1 = "db\<lparr>t_friendships := rs\<rparr>"
    have t: "t_friendships ?db1 = filter (\<lambda>f. \<not> between a b f) (t_friendships db)"
      using driver_okD(7) [OF gorm_okD(6) [OF env_okD [OF assms(1)]] rs] by simp
    have "res = Inr ?db1" using Inr True rs assms(4) by (auto simp: clear_request_def DeleteFriendship_def with_rows_def)
    moreover have "\<not> settled (relations_of db) a b" using only True by (auto simp: settled_def)
    ultimately show ?thesis using relations_delete [OF t] one_row_delete [OF assms(3) t] t by auto
  next
    case False
    with st row have "settled (relations_of db) a b" by (auto simp: settled_def)
    with st False Inr assms(4) show ?thesis by (auto simp: clear_request_def)
  qed
qed

lemma find_cong_map:
  assumes "\<And>x. P (f x) = P x"
  shows "find P (map f xs) = map_option f (find P xs)"
  by (induction xs) (simp_all add: assms)

lemma relations_update:
  assumes "t_friendships db' = map (\<lambda>f. if RequesterID f = a \<and> AddresseeID f = b then f\<lparr>Status := st, f_UpdatedAt := now\<rparr> else f) (t_friendships db)"
    and "relations_of db (a, b) \<noteq> None"
  shows "relations_of db' = (relations_of db)((a, b) := Some st)"
proof
  fix p :: "uint64 \<times> uint64"
  obtain x y where p: "p = (x, y)" by fastforce
  let ?f = "\<lambda>f. if RequesterID f = a \<and> AddresseeID f = b then f\<lparr>Status := st, f_UpdatedAt := now\<rparr> else f"
    and ?P = "\<lambda>f. RequesterID f = x \<and> AddresseeID f = y"
  have upd: "relations_of db' p = map_option (\<lambda>z. Status (?f z)) (find ?P (t_friendships db))"
    unfolding relations_of_def assms(1) p prod.case by (subst find_cong_map) (simp_all add: option.map_comp o_def)
  have old: "relations_of db p = map_option Status (find ?P (t_friendships db))" by (simp add: relations_of_def p)
  show "relations_of db' p = ((relations_of db)((a, b) := Some st)) p"
  proof (cases "find ?P (t_friendships db)")
    case None
    with upd old assms(2) show ?thesis by (auto simp: p)
  next
    case (Some z)
    then have "RequesterID z = x \<and> AddresseeID z = y" by (auto simp: find_Some_iff)
    with Some upd old show ?thesis by (simp add: p)
  qed
qed

lemma one_row_update:
  assumes "one_row db" "st \<in> {''pending'', ''accepted'', ''rejected''}"
    and "t_friendships db' = map (\<lambda>f. if P f then f\<lparr>Status := st, f_UpdatedAt := now\<rparr> else f) (t_friendships db)"
  shows "one_row db'"
proof -
  have "between x y (if P f then f\<lparr>Status := st, f_UpdatedAt := now\<rparr> else f) = between x y f" for x y f
    by (simp add: between_def)
  then show ?thesis using assms by (auto simp: one_row_def filter_map o_def)
qed

lemma SendRequest_cases:
  assumes "FriendHandler_SendRequest w cx body db h = Some (r, db', h')"
  shows "(db' = db \<and> h' = h \<and> r \<noteq> Success JNull) \<or>
    (\<exists>b db1 res. clear_request w (the_userID cx) b db = Inr db1 \<and> b \<noteq> the_userID cx \<and>
       Friendship_Create (e_gorm w 3) (new_request (the_userID cx) b) db1 = (res, db') \<and>
       (case res of Inl err \<Rightarrow> r = Error 50001 \<and> h' = h
        | Inr _ \<Rightarrow> r = Success JNull \<and> (\<exists>nickname. SendToUser b (FriendRequestP (the_userID cx) nickname) h = Some h')))"
proof (cases "\<exists>displayID target db1. bind_string ''display_id'' body = Some displayID \<and> e_valid w ''required'' (FString displayID) \<and>
    User_FindByDisplayID (e_gorm w 0) displayID db = Inr target \<and> u_ID target \<noteq> the_userID cx \<and>
    clear_request w (the_userID cx) (u_ID target) db = Inr db1")
  case True
  then obtain displayID target db1 where d: "bind_string ''display_id'' body = Some displayID" "e_valid w ''required'' (FString displayID)"
    "User_FindByDisplayID (e_gorm w 0) displayID db = Inr target" "u_ID target \<noteq> the_userID cx"
    "clear_request w (the_userID cx) (u_ID target) db = Inr db1" by blast
  obtain res db2 where f: "Friendship_Create (e_gorm w 3) (new_request (the_userID cx) (u_ID target)) db1 = (res, db2)" by fastforce
  from assms d f show ?thesis
    by (intro disjI2 exI [of _ "u_ID target"] exI [of _ db1] exI [of _ res])
      (cases res; auto simp: FriendHandler_SendRequest_def Let_def)
next
  case False
  have "clear_request w a b db \<noteq> Inl (Success JNull)" for a b
    by (auto simp: clear_request_def Success_not_Error split: answer_splits)
  with assms False show ?thesis
    by (intro disjI1) (auto simp: FriendHandler_SendRequest_def Let_def Success_not_Error split: option.splits if_splits sum.splits)
qed

lemma SendRequest_step:
  assumes "env_ok w" "answering w" "one_row db" "FriendHandler_SendRequest w cx body db h = Some (r, db', h')"
  shows "one_row db' \<and> (if r = Success JNull
    then \<exists>b. b \<noteq> the_userID cx \<and> \<not> settled (relations_of db) (the_userID cx) b \<and>
      relations_of db' = (separate (the_userID cx) b (relations_of db))((the_userID cx, b) := Some ''pending'') \<and>
      (\<exists>nickname. SendToUser b (FriendRequestP (the_userID cx) nickname) h = Some h')
    else h' = h \<and> (db' = db \<or> (\<exists>b. \<not> settled (relations_of db) (the_userID cx) b \<and>
      relations_of db' = separate (the_userID cx) b (relations_of db))))"
  using SendRequest_cases [OF assms(4)]
proof (elim disjE exE conjE)
  fix b db1 res
  assume c: "clear_request w (the_userID cx) b db = Inr db1" "b \<noteq> the_userID cx"
    and f: "Friendship_Create (e_gorm w 3) (new_request (the_userID cx) b) db1 = (res, db')"
    and r: "case res of Inl err \<Rightarrow> r = Error 50001 \<and> h' = h
       | Inr _ \<Rightarrow> r = Success JNull \<and> (\<exists>nickname. SendToUser b (FriendRequestP (the_userID cx) nickname) h = Some h')"
  from clear_request_cases [OF assms(1-3) c(1)] have
    db1: "\<not> settled (relations_of db) (the_userID cx) b" "relations_of db1 = separate (the_userID cx) b (relations_of db)" "one_row db1"
      "\<And>f. f \<in> set (t_friendships db1) \<Longrightarrow> \<not> between (the_userID cx) b f" by auto
  show ?thesis
  proof (cases "dCreate (g_friendships (e_gorm w 3)) (new_request (the_userID cx) b) (t_friendships db1)")
    case (Inl err)
    with f r db1 show ?thesis by (auto simp: Friendship_Create_def Success_not_Error)
  next
    case (Inr q)
    obtain f' fs where q: "q = (f', fs)" by fastforce
    from driver_okD(1) [OF gorm_okD(6) [OF env_okD [OF assms(1)]] Inr [unfolded q]]
    have f': "fs = t_friendships db1 @ [f']" "RequesterID f' = the_userID cx" "AddresseeID f' = b" "Status f' = ''pending''"
      by (auto simp: friendship_schema_def new_request_def)
    from f Inr q have db': "res = Inr ()" "t_friendships db' = t_friendships db1 @ [f']" by (auto simp: Friendship_Create_def f'(1))
    have "between (the_userID cx) b f'" using f' by (simp add: between_def)
    from relations_create [OF db1(4) this f'(2,3) db'(2)] one_row_create [OF db1(3,4) f'(2,3) _ db'(2)] f'(4) db1 c(2) r db'(1)
    show ?thesis by auto
  qed
qed (use assms(3) in simp)

lemma HandleRequest_step:
  assumes "env_ok w" "one_row db" "FriendHandler_HandleRequest w cx requestId body db h = Some (r, db', h')"
  shows "one_row db' \<and> (if r = Success JNull
    then \<exists>a st. relations_of db (a, the_userID cx) = Some ''pending'' \<and> st \<in> {''accepted'', ''rejected''} \<and>
      relations_of db' = (relations_of db)((a, the_userID cx) := Some st) \<and>
      (if st = ''accepted'' then \<exists>nickname. SendToUser a (FriendAcceptedP (the_userID cx) nickname) h = Some h' else h' = h)
    else h' = h \<and> db' = db)"
proof (cases "\<exists>a f action. FindByUsers (e_gorm w 0) a (the_userID cx) db = Inr f \<and> AddresseeID f = the_userID cx \<and>
    Status f = ''pending'' \<and> ParseUint requestId = Some a \<and> bind_string ''action'' body = Some action \<and>
    e_valid w ''required,oneof=accept reject'' (FString action)")
  case False
  then have "h' = h \<and> db' = db \<and> r \<noteq> Success JNull" using assms(3)
    by (auto simp: FriendHandler_HandleRequest_def Let_def Success_not_Error split: option.splits if_splits sum.splits)
  with assms(2) show ?thesis by simp
next
  case True
  then obtain a f action where f: "FindByUsers (e_gorm w 0) a (the_userID cx) db = Inr f" "AddresseeID f = the_userID cx"
    "Status f = ''pending''" "ParseUint requestId = Some a" "bind_string ''action'' body = Some action"
    "e_valid w ''required,oneof=accept reject'' (FString action)" by blast
  from driver_okD(2) [OF gorm_okD(6) [OF env_okD [OF assms(1)]] f(1) [unfolded FindByUsers_def]]
  have row: "f \<in> set (t_friendships db)" and a: "RequesterID f = a" using f(2) by (auto simp: between_def)
  from relations_row [OF assms(2) row] have pending: "relations_of db (a, the_userID cx) = Some ''pending''"
    by (simp add: a f(2,3))
  define st where "st = (if action = ''accept'' then ''accepted'' else ''rejected'')"
  have st: "st \<in> {''accepted'', ''rejected''}" by (simp add: st_def)
  obtain res db1 where u: "UpdateStatus (e_gorm w 1) (e_clock w 0) a (the_userID cx) st db = (res, db1)" by fastforce
  from with_rows_cases [OF u [unfolded UpdateStatus_def]] consider (bad) err where "res = Inl err" "db1 = db"
    | (good) rs where "dUpdate (g_friendships (e_gorm w 1)) (\<lambda>f. RequesterID f = a \<and> AddresseeID f = the_userID cx)
          (\<lambda>f. f\<lparr>Status := st, f_UpdatedAt := e_clock w 0\<rparr>) (t_friendships db) = Inr rs" "res = Inr ()" "db1 = db\<lparr>t_friendships := rs\<rparr>"
    by blast
  then show ?thesis
  proof cases
    case bad
    with f a u assms(2,3) show ?thesis
      by (auto simp: FriendHandler_HandleRequest_def Let_def st_def Success_not_Error)
  next
    case good
    have t: "t_friendships db1 = map (\<lambda>f. if RequesterID f = a \<and> AddresseeID f = the_userID cx
        then f\<lparr>Status := st, f_UpdatedAt := e_clock w 0\<rparr> else f) (t_friendships db)"
      using driver_okD(6) [OF gorm_okD(6) [OF env_okD [OF assms(1)]] good(1)] good(3) by simp
    have "relations_of db1 = (relations_of db)((a, the_userID cx) := Some st)"
      by (rule relations_update [OF t]) (simp add: pending)
    moreover have "one_row db1" by (rule one_row_update [OF assms(2) _ t]) (use st in auto)
    moreover have "db' = db1 \<and> r = Success JNull \<and> (if st = ''accepted''
        then \<exists>nickname. SendToUser a (FriendAcceptedP (the_userID cx) nickname) h = Some h' else h' = h)"
    proof -
      have "FriendHandler_HandleRequest w cx requestId body db h =
          (if st = ''accepted'' then map_option (\<lambda>h1. (Success JNull, db1, h1))
             (SendToUser a (FriendAcceptedP (the_userID cx) (nickname_of (User_FindByID (e_gorm w 2) (the_userID cx) db1))) h)
           else Some (Success JNull, db1, h))"
        using u unfolding good(2) FriendHandler_HandleRequest_def Let_def st_def by (simp add: f a)
      with assms(3) show ?thesis by (auto split: if_splits)
    qed
    ultimately have "one_row db'" "r = Success JNull" "relations_of db' = (relations_of db)((a, the_userID cx) := Some st)"
      "if st = ''accepted'' then \<exists>nickname. SendToUser a (FriendAcceptedP (the_userID cx) nickname) h = Some h' else h' = h"
      by simp_all
    with pending st show ?thesis by (simp only: if_True simp_thms) blast
  qed
qed



end
