(* ===== verification/File_Sharing.thy ===== *)
theory File_Sharing
  imports Api_Access
begin

text \<open>
  Files of a room from the upload to the download: the two handlers compute the path of a file in
  different ways, which agree, and the id that the upload hands out names the room again.
\<close>

section \<open>Clean paths\<close>

lemma Split_slash: "Split sep (s @ sep # t) = Split sep s @ Split sep t"
  by (induction s) (auto split: list.split)

text \<open>The elements that a clean path can have: no empty one, no dot, two dots only at the front and only in a relative path.\<close>

definition clean_list :: "bool \<Rightarrow> string list \<Rightarrow> bool" where
  "clean_list rooted es \<longleftrightarrow> (\<forall>e \<in> set es. e \<noteq> [] \<and> e \<noteq> ''.'' \<and> CHR ''/'' \<notin> set e) \<and> (rooted \<longrightarrow> ''..'' \<notin> set es) \<and>
     (\<exists>n ys. es = replicate n ''..'' @ ys \<and> ''..'' \<notin> set ys)"

lemma clean_list_nil: "clean_list rooted []"
  by (simp add: clean_list_def)

lemma clean_list_snoc: "clean_list rooted es \<Longrightarrow> e \<noteq> [] \<Longrightarrow> e \<noteq> ''.'' \<Longrightarrow> e \<noteq> ''..'' \<Longrightarrow> CHR ''/'' \<notin> set e \<Longrightarrow>
    clean_list rooted (es @ [e])"
proof -
  assume es: "clean_list rooted es" and e: "e \<noteq> []" "e \<noteq> ''.''" "e \<noteq> ''..''" "CHR ''/'' \<notin> set e"
  from es obtain n ys where "es = replicate n ''..'' @ ys" "''..'' \<notin> set ys" by (auto simp: clean_list_def)
  with e(3) have "es @ [e] = replicate n ''..'' @ (ys @ [e]) \<and> ''..'' \<notin> set (ys @ [e])" by simp
  then have "\<exists>n ys. es @ [e] = replicate n ''..'' @ ys \<and> ''..'' \<notin> set ys" by blast
  with es e show ?thesis unfolding clean_list_def by simp
qed

lemma clean_list_up: "clean_list False es \<Longrightarrow> es = [] \<or> last es = ''..'' \<Longrightarrow> clean_list False (es @ [''..''])"
proof -
  assume es: "clean_list False es" and l: "es = [] \<or> last es = ''..''"
  from es obtain n ys where ys: "es = replicate n ''..'' @ ys" "''..'' \<notin> set ys" by (auto simp: clean_list_def)
  have "ys = []"
  proof (rule ccontr)
    assume "ys \<noteq> []"
    then have "last es \<in> set ys" "es \<noteq> []" by (simp_all add: ys(1))
    with l ys(2) show False by simp
  qed
  then have "es @ [''..''] = replicate (Suc n) ''..'' @ []" by (simp add: ys(1) replicate_append_same)
  then have "\<exists>n zs. es @ [''..''] = replicate n ''..'' @ zs \<and> ''..'' \<notin> set zs" by (metis empty_iff list.set(1))
  with es show ?thesis unfolding clean_list_def by simp
qed

lemma clean_list_butlast: "clean_list rooted es \<Longrightarrow> clean_list rooted (butlast es)"
proof -
  assume es: "clean_list rooted es"
  then obtain n ys where ys: "es = replicate n ''..'' @ ys" "''..'' \<notin> set ys" by (auto simp: clean_list_def)
  have "\<exists>n zs. butlast es = replicate n ''..'' @ zs \<and> ''..'' \<notin> set zs"
  proof (cases "ys = []")
    case True
    then have "butlast es = replicate (n - 1) ''..'' @ []" by (cases n) (simp_all add: ys(1) replicate_append_same [symmetric])
    then show ?thesis by (metis empty_iff list.set(1))
  next
    case False
    then have "butlast es = replicate n ''..'' @ butlast ys" by (simp add: ys(1) butlast_append)
    with ys(2) show ?thesis by (metis in_set_butlastD)
  qed
  with es show ?thesis unfolding clean_list_def by (auto dest: in_set_butlastD)
qed

lemma clean_elems_append: "clean_elems rooted es (xs @ ys) = clean_elems rooted (clean_elems rooted es xs) ys"
  by (induction rooted es xs rule: clean_elems.induct) auto

lemma clean_elems_clean:
  assumes "clean_list rooted es" "\<forall>e \<in> set xs. CHR ''/'' \<notin> set e"
  shows "clean_list rooted (clean_elems rooted es xs)"
  using assms
proof (induction rooted es xs rule: clean_elems.induct)
  case (2 rooted es e xs)
  consider (skip) "e = [] \<or> e = ''.''" | (up) "e = ''..''" | (down) "e \<noteq> []" "e \<noteq> ''.''" "e \<noteq> ''..''" by blast
  then show ?case
  proof cases
    case up
    then have e: "e \<noteq> []" "e \<noteq> ''.''" by simp_all
    show ?thesis
    proof (cases "es \<noteq> [] \<and> last es \<noteq> ''..''")
      case True
      with 2 up e clean_list_butlast show ?thesis by simp
    next
      case False
      with 2 up e clean_list_up show ?thesis by (cases rooted) auto
    qed
  next
    case down
    with 2 clean_list_snoc show ?thesis by simp
  qed (use 2 in auto)
qed simp

text \<open>Cleaning clean elements changes nothing.\<close>

lemma clean_elems_again: "clean_list rooted (es @ xs) \<Longrightarrow> clean_elems rooted es xs = es @ xs"
proof (induction xs arbitrary: es)
  case (Cons e xs)
  then have e: "e \<noteq> []" "e \<noteq> ''.''" by (auto simp: clean_list_def)
  have "rooted = False \<and> (es = [] \<or> last es = ''..'')" if up: "e = ''..''"
  proof
    show "rooted = False" using Cons.prems up by (auto simp: clean_list_def)
    from Cons.prems obtain n ys where ys: "es @ e # xs = replicate n ''..'' @ ys" "''..'' \<notin> set ys" by (auto simp: clean_list_def)
    have "length es < n"
    proof (rule ccontr)
      assume "\<not> length es < n"
      then have "(es @ e # xs) ! length es \<in> set ys"
        unfolding ys(1) using arg_cong [OF ys(1), of length] by (simp add: nth_append)
      with up ys(2) show False by simp
    qed
    then have "es = replicate (length es) ''..''" using arg_cong [OF ys(1), of "take (length es)"] by simp
    then show "es = [] \<or> last es = ''..''" by (metis last_replicate length_0_conv)
  qed
  with Cons e show ?case by auto
qed simp

lemma Split_join_path: "es \<noteq> [] \<Longrightarrow> \<forall>e \<in> set es. CHR ''/'' \<notin> set e \<Longrightarrow> Split (CHR ''/'') (join_path es) = es"
proof (induction es rule: join_path.induct)
  case (3 e e' es)
  then show ?case using Split_slash [of "CHR ''/''" e "join_path (e' # es)"] by (simp add: Split_no_sep)
qed (simp_all add: Split_no_sep)

lemma HasPrefix_slash: "HasPrefix s ''/'' \<longleftrightarrow> s \<noteq> [] \<and> hd s = CHR ''/''"
  by (cases s) (auto simp: HasPrefix_def)

text \<open>Cleaning the front of a path first makes no difference.\<close>

lemma Clean_Clean:
  assumes "a \<noteq> []"
  shows "Clean (Clean a @ ''/'' @ b) = Clean (a @ ''/'' @ b)"
proof -
  let ?split = "Split (CHR ''/'')" and ?r = "HasPrefix a ''/''"
  define out where "out = clean_elems ?r [] (?split a)"
  have out: "clean_list ?r out"
    unfolding out_def using Split_parts by (intro clean_elems_clean clean_list_nil) blast
  then have plain: "\<forall>e \<in> set out. e \<noteq> [] \<and> CHR ''/'' \<notin> set e" by (auto simp: clean_list_def)
  have again: "clean_elems ?r [] out = out" using clean_elems_again [of ?r "[]" out] out by simp
  have rooted: "HasPrefix (a @ ''/'' @ b) ''/'' = ?r" using assms by (cases a) (auto simp: HasPrefix_def)
  have right: "clean_elems ?r [] (?split (a @ ''/'' @ b)) = clean_elems ?r out (?split b)"
    using Split_slash [of "CHR ''/''" a b] by (simp add: clean_elems_append out_def)
  have join: "hd (join_path out @ xs) \<noteq> CHR ''/''" "join_path out \<noteq> []" if "out \<noteq> []" for xs
    using that plain by (induction out rule: join_path.induct) (auto simp: hd_append dest: hd_in_set)
  have left: "HasPrefix (Clean a @ ''/'' @ b) ''/'' = ?r \<and>
      clean_elems ?r [] (?split (Clean a @ ''/'' @ b)) = clean_elems ?r out (?split b)"
  proof (cases "out = []")
    case True
    then have "Clean a = (if ?r then ''/'' else ''.'')"
      unfolding Clean_def Let_def out_def [symmetric] by simp
    with True Split_slash [of "CHR ''/''" "''/''" b] Split_slash [of "CHR ''/''" "''.''" b]
    show ?thesis by (auto simp: HasPrefix_def)
  next
    case False
    then have c: "Clean a = (if ?r then ''/'' else []) @ join_path out"
      using join(2) unfolding Clean_def Let_def out_def [symmetric] by simp
    have sp: "?split (join_path out @ ''/'' @ b) = out @ ?split b"
      using Split_slash [of "CHR ''/''" "join_path out" b] Split_join_path [OF False] plain by simp
    show ?thesis
    proof (cases ?r)
      case True
      with c sp again show ?thesis by (simp add: HasPrefix_def clean_elems_append)
    next
      case no: False
      with c have "Clean a = join_path out" by simp
      with no sp again join [OF False] show ?thesis by (simp add: HasPrefix_slash clean_elems_append)
    qed
  qed
  show ?thesis unfolding Clean_def [of "Clean a @ ''/'' @ b"] Clean_def [of "a @ ''/'' @ b"] Let_def
    using left right rooted by simp
qed

lemma Clean_nonempty: "Clean a \<noteq> []"
  by (simp add: Clean_def Let_def)

lemma private_path_eq:
  assumes "fileID \<noteq> []"
  shows "private_path st fileID = filepath_Join [st_Path st, ''private_files'', fileID]"
proof -
  define a where "a = (if st_Path st = [] then ''private_files'' else st_Path st @ ''/'' @ ''private_files'')"
  have "filepath_Join [st_Path st, ''private_files''] = Clean a" by (simp add: filepath_Join_def a_def)
  then have "private_path st fileID = Clean (Clean a @ ''/'' @ fileID)"
    using Clean_nonempty [of a] by (simp add: private_path_def filepath_Join_def)
  also have "\<dots> = Clean (a @ ''/'' @ fileID)" by (rule Clean_Clean) (simp add: a_def)
  also have "\<dots> = filepath_Join [st_Path st, ''private_files'', fileID]" by (simp add: filepath_Join_def a_def)
  finally show ?thesis .
qed

section \<open>The id of a file\<close>

lemma room_of_file_id:
  assumes "0 < i" "i < 2 ^ 64"
  shows "room_of_file (file_id i uuid ext) = Some i"
proof -
  have "CHR ''_'' \<notin> set (''r'' @ digits i)"
    using digits_digits [of i] by (auto simp: list_all_iff is_digit_def)
  from SplitN2_sep [OF this, of "uuid @ ext"]
  have "SplitN2 CHR ''_'' (file_id i uuid ext) = [''r'' @ digits i, uuid @ ext]" by (simp add: file_id_def)
  then show ?thesis using assms by (simp add: room_of_file_def HasPrefix_def TrimPrefix_def ParseUint_digits)
qed


text \<open>Ann uploads a text to room 7 and Bob, who is no member, does not get it.\<close>

definition demo_text :: uploaded where
  "demo_text = \<lparr>up_Filename = ''notes.TXT'', up_Size = 2, up_ContentType = ''text/plain'', up_Content = [72, 105]\<rparr>"

lemma demo_upload:
  "\<exists>d fs'. FileHandler_Upload demo_env demo_file_os (cf_Storage demo_config) demo_ann ''7'' (Some demo_text) demo_world_db (\<lambda>_. None)
     = (Success d, fs')"
proof -
  have "ToLower (Ext ''notes.TXT'') = ''.txt''" by code_simp
  moreover have "max_size (cf_Storage demo_config) = 52428800" by (simp add: max_size_def demo_config_def int64_def)
  moreover have "the_userID demo_ann = 1" by (simp add: demo_ann_def the_userID_def)
  moreover have "IsMember (e_gorm demo_env 0) 7 1 demo_world_db"
    by (simp add: demo_env_def IsMember_def mem_simps count_or_zero_def demo_world_db_def demo_member_def)
  ultimately show ?thesis
    by (simp add: FileHandler_Upload_def parse_7 demo_text_def allowedExtensions_def demo_file_os_def save_file_def Let_def)
qed


section \<open>The static route\<close>

lemma HasSuffix_last: "HasSuffix s suf \<Longrightarrow> suf \<noteq> [] \<Longrightarrow> last s = last suf"
  by (cases s rule: rev_cases; cases suf rule: rev_cases) (auto simp: HasSuffix_def HasPrefix_def)

lemma Clean_plain:
  assumes "e1 \<noteq> []" "e1 \<notin> {''.'', ''..''}" "CHR ''/'' \<notin> set e1" "e2 \<noteq> []" "e2 \<notin> {''.'', ''..''}" "CHR ''/'' \<notin> set e2"
  shows "Clean (''/'' @ (''/'' @ e1 @ ''/'' @ e2)) = ''/'' @ e1 @ ''/'' @ e2"
  using assms Split_slash [of "CHR ''/''" e1 e2]
  by (simp add: Clean_def HasPrefix_def Split_no_sep Let_def)

lemma Clean_double: "a \<noteq> [] \<Longrightarrow> Clean (a @ ''/'' @ ''/'' @ b) = Clean (a @ ''/'' @ b)"
proof -
  assume a: "a \<noteq> []"
  have split: "clean_elems r es (Split (CHR ''/'') (a @ ''/'' @ ''/'' @ b)) = clean_elems r es (Split (CHR ''/'') (a @ ''/'' @ b))" for r es
    using Split_slash [of "CHR ''/''" a "CHR ''/'' # b"] Split_slash [of "CHR ''/''" a b] by (simp add: clean_elems_append)
  have prefix: "HasPrefix (a @ xs) ''/'' = HasPrefix a ''/''" for xs using a by (cases a) (auto simp: HasPrefix_def)
  show ?thesis unfolding Clean_def Let_def by (simp only: split prefix)
qed

lemma Clean_dot: "Clean (''./'' @ b) = Clean b" if "b \<noteq> []" "\<not> HasPrefix b ''/''"
  using that Split_slash [of "CHR ''/''" "''.''" b] by (simp add: Clean_def HasPrefix_def Let_def)

lemma static_path:
  assumes "fileID \<noteq> []" "fileID \<notin> {''.'', ''..''}" "CHR ''/'' \<notin> set fileID"
  shows "filepath_Join [if st_Path st = [] then ''.'' else st_Path st, Clean (''/'' @ ''/private_files/'' @ fileID)] = private_path st fileID"
proof -
  have c: "Clean (''/'' @ ''/private_files/'' @ fileID) = ''/private_files/'' @ fileID"
    using Clean_plain [of "''private_files''" fileID] assms by simp
  have p: "private_path st fileID = filepath_Join [st_Path st, ''private_files'', fileID]" by (rule private_path_eq [OF assms(1)])
  show ?thesis
  proof (cases "st_Path st = []")
    case True
    with c p Clean_double [of "''.''" "''private_files/'' @ fileID"] Clean_dot [of "''private_files/'' @ fileID"] show ?thesis
      by (simp add: filepath_Join_def HasPrefix_def)
  next
    case False
    with c p Clean_double [of "st_Path st" "''private_files/'' @ fileID"] show ?thesis by (simp add: filepath_Join_def)
  qed
qed

text \<open>
  C28: The guards of the download handler do not protect the files: the directory of the files of rooms lies below
  the directory that \<open>/uploads\<close> serves to everybody, so a request without any token, by a stranger,
  gets the content of an uploaded file at \<open>/uploads/private_files/\<close> and its id.
\<close>

theorem private_files_public:
  assumes "FileHandler_Upload w os (cf_Storage (s_cfg s)) cx room_id (Some f) db fs = (Success d, s_files s)"
    and "CHR ''/'' \<notin> set (e_uuid w 0)" and "ParseUint room_id = Some i"
    and "rq_param rq ''filepath'' = ''/private_files/'' @ file_id i (e_uuid w 0) (ToLower (Ext (up_Filename f)))"
  shows "\<exists>path type. serve W Uploads rq s = Some (FileServed path type, s) \<and> s_files s path = Some (up_Content f)"
proof -
  let ?st = "cf_Storage (s_cfg s)" and ?ext = "ToLower (Ext (up_Filename f))"
  let ?id = "file_id i (e_uuid w 0) ?ext"
  from assms(1,3) have ext: "?ext \<in> set allowedExtensions" and fs: "s_files s = fs(private_path ?st ?id \<mapsto> up_Content f)"
    by (auto simp: FileHandler_Upload_def Let_def save_file_def split: if_splits prod.splits option.splits)
  from ext have slash: "CHR ''/'' \<notin> set ?ext" by (auto simp: allowedExtensions_def)
  have "CHR ''/'' \<notin> set (digits i)" using digits_digits [of i] by (auto simp: list_all_iff is_digit_def)
  with assms(2) slash have id: "?id \<noteq> []" "?id \<notin> {''.'', ''..''}" "CHR ''/'' \<notin> set ?id" by (auto simp: file_id_def)
  have "?ext \<noteq> [] \<and> last ?ext \<noteq> CHR ''l''" using ext by (auto simp: allowedExtensions_def)
  then have "last (''/private_files/'' @ ?id) \<noteq> last ''/index.html''" by (simp add: file_id_def)
  then have "\<not> HasSuffix (''/private_files/'' @ ?id) ''/index.html''" using HasSuffix_last by blast
  with static_path [OF id, of ?st] fs assms(4) show ?thesis
    by (auto simp: serve_def guards_table handle_def StaticFile_def Let_def)
qed

definition demo_stranger :: request where
  "demo_stranger = (demo_request [] None)\<lparr>rq_param :=
     (\<lambda>_. ''/private_files/'' @ file_id 7 (e_uuid demo_env 0) (ToLower (Ext (up_Filename demo_text))))\<rparr>"

theorem private_files_public_witness:
  "\<exists>fs path type. serve demo_world Uploads demo_stranger (demo_server\<lparr>s_files := fs\<rparr>) =
      Some (FileServed path type, demo_server\<lparr>s_files := fs\<rparr>) \<and> fs path = Some [72, 105]"
proof -
  obtain d fs where u: "FileHandler_Upload demo_env demo_file_os (cf_Storage demo_config) demo_ann ''7'' (Some demo_text) demo_world_db (\<lambda>_. None)
     = (Success d, fs)" using demo_upload by blast
  let ?s = "demo_server\<lparr>s_files := fs\<rparr>"
  have a: "FileHandler_Upload demo_env demo_file_os (cf_Storage (s_cfg ?s)) demo_ann ''7'' (Some demo_text) demo_world_db (\<lambda>_. None)
     = (Success d, s_files ?s)" using u by (simp add: demo_server_def)
  have b: "CHR ''/'' \<notin> set (e_uuid demo_env 0)"
    using digits_digits [of 0] by (auto simp: demo_env_def list_all_iff is_digit_def)
  have c: "rq_param demo_stranger ''filepath'' = ''/private_files/'' @ file_id 7 (e_uuid demo_env 0) (ToLower (Ext (up_Filename demo_text)))"
    by (simp add: demo_stranger_def)
  from private_files_public [OF a b parse_7 c, of demo_world] obtain path type where
    "serve demo_world Uploads demo_stranger ?s = Some (FileServed path type, ?s)" "fs path = Some [72, 105]"
    by (auto simp: demo_text_def)
  then show ?thesis by blast
qed

end
