(* ===== verification/Live_Rooms.thy ===== *)
theory Live_Rooms
  imports Web_Public "HOL-Library.Multiset"
begin

text \<open>
  The list of live rooms of the web page against a reference: the streams grouped by the room of their
  ingress, and a room of its own for every stream that has none.
\<close>

section \<open>The reference\<close>

definition streams_of_room :: "(string \<rightharpoonup> stream_room_ref) \<Rightarrow> uint64 \<Rightarrow> info list \<Rightarrow> (stream_room_ref \<times> info) list" where
  "streams_of_room refByKey i live = List.map_filter (\<lambda>l. case refByKey (i_Key l) of None \<Rightarrow> None
     | Some ref \<Rightarrow> if ref_RoomID ref = i then Some (ref, l) else None) live"

definition room_group :: "(string \<rightharpoonup> stream_room_ref) \<Rightarrow> uint64 \<Rightarrow> info list \<Rightarrow> web_room" where
  "room_group refByKey i live = (let xs = streams_of_room refByKey i live in
     (known_room (fst (hd xs)))\<lparr>wr_Streams := map (\<lambda>(ref, l). toWebStream l (stream_label ref l)) xs\<rparr>)"

definition live_ids :: "(string \<rightharpoonup> stream_room_ref) \<Rightarrow> info list \<Rightarrow> uint64 set" where
  "live_ids refByKey live = ref_RoomID ` {ref. \<exists>l \<in> set live. refByKey (i_Key l) = Some ref}"

definition unknown_streams :: "(string \<rightharpoonup> stream_room_ref) \<Rightarrow> info list \<Rightarrow> info list" where
  "unknown_streams refByKey live = filter (\<lambda>l. refByKey (i_Key l) = None) live"

lemma map_filter_snoc: "List.map_filter f (xs @ [x]) = List.map_filter f xs @ (case f x of None \<Rightarrow> [] | Some y \<Rightarrow> [y])"
  by (simp add: List.map_filter_def split: option.split)

lemma streams_of_room_snoc:
  "refByKey (i_Key l) = None \<Longrightarrow> streams_of_room refByKey i (live @ [l]) = streams_of_room refByKey i live"
  "refByKey (i_Key l) = Some ref \<Longrightarrow> streams_of_room refByKey i (live @ [l]) =
     streams_of_room refByKey i live @ (if ref_RoomID ref = i then [(ref, l)] else [])"
  by (simp_all add: streams_of_room_def map_filter_snoc)

lemma live_ids_snoc:
  "live_ids refByKey (live @ [l]) = live_ids refByKey live \<union> (case refByKey (i_Key l) of None \<Rightarrow> {} | Some ref \<Rightarrow> {ref_RoomID ref})"
  by (auto simp: live_ids_def split: option.splits)

lemma finite_live_ids: "finite (live_ids refByKey live)"
  by (induction live rule: rev_induct) (auto simp: live_ids_snoc live_ids_def [of _ "[]"] split: option.split)

lemma streams_of_room_nonempty: "i \<in> live_ids refByKey live \<longleftrightarrow> streams_of_room refByKey i live \<noteq> []"
  by (induction live rule: rev_induct)
    (auto simp: live_ids_snoc streams_of_room_snoc live_ids_def [of _ "[]"] streams_of_room_def [of _ _ "[]"]
      List.map_filter_def split: option.split)

lemma room_group_snoc:
  assumes "refByKey (i_Key l) = Some ref"
  shows "ref_RoomID ref \<noteq> i \<Longrightarrow> room_group refByKey i (live @ [l]) = room_group refByKey i live"
    "ref_RoomID ref = i \<Longrightarrow> i \<in> live_ids refByKey live \<Longrightarrow>
       room_group refByKey i (live @ [l]) = add_stream (toWebStream l (stream_label ref l)) (room_group refByKey i live)"
    "ref_RoomID ref = i \<Longrightarrow> i \<notin> live_ids refByKey live \<Longrightarrow>
       room_group refByKey i (live @ [l]) = add_stream (toWebStream l (stream_label ref l)) (known_room ref)"
  using assms
  by (auto simp: room_group_def streams_of_room_snoc streams_of_room_nonempty add_stream_def known_room_def Let_def)

section \<open>The loop\<close>

definition loop_inv :: "(string \<rightharpoonup> stream_room_ref) \<Rightarrow> info list \<Rightarrow> web_room list \<times> (uint64 \<rightharpoonup> nat) \<Rightarrow> bool" where
  "loop_inv refByKey live acc \<longleftrightarrow> (case acc of (rs, known) \<Rightarrow>
     dom known = live_ids refByKey live \<and>
     (\<forall>i k. known i = Some k \<longrightarrow> k < length rs \<and> rs ! k = room_group refByKey i live) \<and>
     (\<forall>i j k. known i = Some k \<longrightarrow> known j = Some k \<longrightarrow> i = j) \<and>
     mset rs = image_mset (\<lambda>i. room_group refByKey i live) (mset_set (live_ids refByKey live)) +
       mset (map virtual_room (unknown_streams refByKey live)))"

lemma loop_inv_virtual:
  assumes "loop_inv refByKey live (rs, known)" "refByKey (i_Key l) = None"
  shows "loop_inv refByKey (live @ [l]) (rs @ [virtual_room l], known)"
proof -
  have "room_group refByKey i (live @ [l]) = room_group refByKey i live" for i
    using assms(2) by (simp add: room_group_def streams_of_room_snoc)
  with assms show ?thesis
    by (auto simp: loop_inv_def live_ids_snoc unknown_streams_def nth_append intro: less_SucI)
qed

lemma loop_inv_new:
  assumes "loop_inv refByKey live (rs, known)" "refByKey (i_Key l) = Some ref" "known (ref_RoomID ref) = None"
  shows "loop_inv refByKey (live @ [l])
    (rs @ [add_stream (toWebStream l (stream_label ref l)) (known_room ref)], known(ref_RoomID ref \<mapsto> length rs))"
proof -
  let ?i = "ref_RoomID ref"
  from assms(1,3) have new: "?i \<notin> live_ids refByKey live" by (auto simp: loop_inv_def)
  have other: "room_group refByKey j (live @ [l]) = room_group refByKey j live" if "j \<noteq> ?i" for j
    using room_group_snoc(1) [of refByKey, OF assms(2)] that by simp
  have "image_mset (\<lambda>j. room_group refByKey j (live @ [l])) (mset_set (live_ids refByKey live)) =
      image_mset (\<lambda>j. room_group refByKey j live) (mset_set (live_ids refByKey live))"
    using new by (intro image_mset_cong other) (auto simp: finite_live_ids)
  with assms new other room_group_snoc(3) [of refByKey, OF assms(2) refl new] finite_live_ids [of refByKey live] show ?thesis
    by (auto simp: loop_inv_def live_ids_snoc unknown_streams_def nth_append intro: less_SucI split: if_splits)
qed

lemma loop_inv_known:
  assumes "loop_inv refByKey live (rs, known)" "refByKey (i_Key l) = Some ref" "known (ref_RoomID ref) = Some k"
  shows "loop_inv refByKey (live @ [l]) (rs[k := add_stream (toWebStream l (stream_label ref l)) (rs ! k)], known)"
proof -
  let ?i = "ref_RoomID ref" and ?ids = "live_ids refByKey live"
  let ?new = "room_group refByKey ?i (live @ [l])"
  from assms(1,3) have old: "?i \<in> ?ids" "k < length rs" "rs ! k = room_group refByKey ?i live" by (auto simp: loop_inv_def)
  have other: "room_group refByKey j (live @ [l]) = room_group refByKey j live" if "j \<noteq> ?i" for j
    using room_group_snoc(1) [of refByKey, OF assms(2)] that by simp
  have new: "add_stream (toWebStream l (stream_label ref l)) (rs ! k) = ?new"
    using room_group_snoc(2) [of refByKey, OF assms(2) refl old(1)] old(3) by simp
  have split: "mset_set ?ids = add_mset ?i (mset_set (?ids - {?i}))"
    using old(1) finite_live_ids by (simp add: mset_set.remove)
  have "image_mset (\<lambda>j. room_group refByKey j (live @ [l])) (mset_set (?ids - {?i})) =
      image_mset (\<lambda>j. room_group refByKey j live) (mset_set (?ids - {?i}))"
    using other finite_live_ids by (intro image_mset_cong) auto
  moreover have "mset (rs[k := ?new]) = add_mset ?new (mset rs - {#rs ! k#})" using old(2) by (simp add: mset_update)
  ultimately have "mset (rs[k := ?new]) = image_mset (\<lambda>i. room_group refByKey i (live @ [l])) (mset_set ?ids) +
       mset (map virtual_room (unknown_streams refByKey live))"
    using assms(1) old(3) unfolding loop_inv_def by (simp add: split)
  moreover have "live_ids refByKey (live @ [l]) = ?ids" using old(1) by (auto simp: live_ids_snoc assms(2))
  moreover have "unknown_streams refByKey (live @ [l]) = unknown_streams refByKey live" by (simp add: unknown_streams_def assms(2))
  moreover have "j < length rs \<and> (rs[k := ?new]) ! j = room_group refByKey i (live @ [l])" if "known i = Some j" for i j
  proof (cases "i = ?i")
    case True
    with that assms(3) old(2) show ?thesis by simp
  next
    case False
    with that assms(1,3) have "j \<noteq> k" unfolding loop_inv_def by blast
    with that assms(1) other [OF False] show ?thesis by (auto simp: loop_inv_def)
  qed
  ultimately show ?thesis using assms(1) unfolding new loop_inv_def by auto
qed

lemma loop_inv_fold: "loop_inv refByKey live (fold (add_live refByKey) live ([], Map.empty))"
proof (induction live rule: rev_induct)
  case Nil
  show ?case by (simp add: loop_inv_def live_ids_def unknown_streams_def)
next
  case (snoc l live)
  obtain rs known where acc: "fold (add_live refByKey) live ([], Map.empty) = (rs, known)" by fastforce
  from snoc acc have inv: "loop_inv refByKey live (rs, known)" by simp
  have step: "fold (add_live refByKey) (live @ [l]) ([], Map.empty) = add_live refByKey l (rs, known)" by (simp add: acc)
  show ?case
    using loop_inv_virtual [OF inv, of l] loop_inv_new [OF inv, of l] loop_inv_known [OF inv, of l]
    unfolding step by (auto simp: add_live_def Let_def list_update_append split: option.splits)
qed

section \<open>The list\<close>

lemma finish_room_sel:
  assumes "sorts stream_less sortStreams"
  shows "mset (wr_Streams (finish_room sortStreams r)) = mset (wr_Streams r)"
    "wr_StreamCnt (finish_room sortStreams r) = length (wr_Streams (finish_room sortStreams r))"
    "sorted_wrt (\<lambda>a b. \<not> stream_less b a) (wr_Streams (finish_room sortStreams r))"
  using assms by (simp_all add: finish_room_def sorts_def) (metis size_mset)

lemma sorts_mset: "sorts lt f \<Longrightarrow> mset (f xs) = mset xs"
  by (simp add: sorts_def)

definition all_streams :: "web_room list \<Rightarrow> web_stream multiset" where
  "all_streams rs = (\<Sum>r \<in># mset rs. mset (wr_Streams r))"

lemma all_streams_add:
  "all_streams (rs @ [r]) = all_streams rs + mset (wr_Streams r)"
  "k < length rs \<Longrightarrow> all_streams (rs[k := add_stream s (rs ! k)]) = add_mset s (all_streams rs)"
proof -
  show "all_streams (rs @ [r]) = all_streams rs + mset (wr_Streams r)" by (simp add: all_streams_def)
  assume k: "k < length rs"
  have "mset rs = add_mset (rs ! k) (mset rs - {#rs ! k#})" using k by simp
  then have "all_streams rs = mset (wr_Streams (rs ! k)) + (\<Sum>r \<in># mset rs - {#rs ! k#}. mset (wr_Streams r))"
    unfolding all_streams_def by (metis image_mset_add_mset sum_mset.insert)
  with k show "all_streams (rs[k := add_stream s (rs ! k)]) = add_mset s (all_streams rs)"
    by (simp add: all_streams_def mset_update add_stream_def)
qed

lemma room_streams:
  "wls_StreamKey (toWebStream l label) = i_Key l" "wr_Streams (add_stream s r) = wr_Streams r @ [s]"
  "wr_Streams (known_room r') = []" "wr_Streams (virtual_room l) = [toWebStream l unknown_stream]"
  by (simp_all add: toWebStream_def add_stream_def known_room_def virtual_room_def)

lemma loop_streams:
  "image_mset wls_StreamKey (all_streams (fst (fold (add_live refByKey) live ([], Map.empty)))) = image_mset i_Key (mset live)"
proof (induction live rule: rev_induct)
  case (snoc l live)
  obtain rs known where acc: "fold (add_live refByKey) live ([], Map.empty) = (rs, known)" by fastforce
  have step: "fold (add_live refByKey) (live @ [l]) ([], Map.empty) = add_live refByKey l (rs, known)" by (simp add: acc)
  from loop_inv_fold [of refByKey live] acc have bound: "known i = Some k \<Longrightarrow> k < length rs" for i k by (auto simp: loop_inv_def)
  from snoc acc have IH: "image_mset wls_StreamKey (all_streams rs) = image_mset i_Key (mset live)" by simp
  show ?case unfolding step
    by (auto simp: add_live_def Let_def IH all_streams_add room_streams bound split: option.splits)
qed (simp add: all_streams_def)

text \<open>
  C31: The list of live rooms is exactly the reference grouping: one room for every room of the database with
  a live stream, holding the streams whose ingress belongs to it under the label of the ingress, and one
  room of its own for every live stream without an ingress. Every live stream is in exactly one
  room once, the counters are right, and rooms and streams are in the order of the code, however the library sorts equal ones.
\<close>

theorem live_rooms_grouped:
  fixes live :: "info list" and refs :: "stream_room_ref list"
  assumes "sorts stream_less sortStreams" "sorts room_less sortRooms"
  defines "ref \<equiv> map_of (rev (map (\<lambda>r. (ref_StreamKey r, r)) refs))"
  defines "rs \<equiv> buildWebLiveRooms sortStreams sortRooms live refs"
  shows "mset rs = image_mset (finish_room sortStreams)
      (image_mset (\<lambda>i. room_group ref i live) (mset_set (live_ids ref live)) + mset (map virtual_room (unknown_streams ref live))) \<and>
    image_mset wls_StreamKey (\<Sum>r \<in># mset rs. mset (wr_Streams r)) = image_mset i_Key (mset live) \<and>
    sorted_wrt (\<lambda>a b. \<not> room_less b a) rs \<and>
    (\<forall>r \<in> set rs. wr_StreamCnt r = length (wr_Streams r) \<and> sorted_wrt (\<lambda>a b. \<not> stream_less b a) (wr_Streams r))"
proof -
  let ?loop = "fst (fold (add_live ref) live ([], Map.empty))"
  have rs: "rs = sortRooms (map (finish_room sortStreams) ?loop)" by (simp add: rs_def buildWebLiveRooms_def ref_def)
  then have m: "mset rs = image_mset (finish_room sortStreams) (mset ?loop)" using sorts_mset [OF assms(2)] by simp
  moreover have "mset ?loop = image_mset (\<lambda>i. room_group ref i live) (mset_set (live_ids ref live)) +
      mset (map virtual_room (unknown_streams ref live))"
    using loop_inv_fold [of ref live] by (auto simp: loop_inv_def split: prod.splits)
  moreover have "image_mset wls_StreamKey (\<Sum>r \<in># mset rs. mset (wr_Streams r)) = image_mset i_Key (mset live)"
    using loop_streams [of ref live] by (simp add: m all_streams_def finish_room_sel(1) [OF assms(1)] multiset.map_comp o_def)
  moreover have "sorted_wrt (\<lambda>a b. \<not> room_less b a) rs" using assms(2) by (simp add: rs sorts_def)
  moreover have "set rs = finish_room sortStreams ` set ?loop" by (metis m mset_map set_map set_mset_mset)
  ultimately show ?thesis using finish_room_sel(2,3) [OF assms(1)] by auto
qed

text \<open>Two live streams, one of them of an ingress of room 7, with stable sorts.\<close>

definition demo_sort_streams :: "web_stream list \<Rightarrow> web_stream list" where
  "demo_sort_streams = sort_key wls_StreamKey"

definition demo_sort_rooms :: "web_room list \<Rightarrow> web_room list" where
  "demo_sort_rooms = sort_key (\<lambda>r. (wr_Type r, wr_Name r))"

lemma sorts_sort_key: "(\<And>a b. lt a b \<longleftrightarrow> f a < (f b :: 'b :: linorder)) \<Longrightarrow> sorts lt (sort_key f)"
  using sorted_sort_key [of f] by (simp add: sorts_def sorted_map not_less)

lemma demo_sorts: "sorts stream_less demo_sort_streams" "sorts room_less demo_sort_rooms"
proof -
  show "sorts stream_less demo_sort_streams"
    unfolding demo_sort_streams_def by (rule sorts_sort_key) (simp add: stream_less_def)
  show "sorts room_less demo_sort_rooms"
    unfolding demo_sort_rooms_def by (rule sorts_sort_key) (auto simp: room_less_def)
qed

definition demo_info :: "string \<Rightarrow> info" where
  "demo_info key = \<lparr>i_Key = key, Active = True, HasAudio = False, i_HasOpus = False, Viewers = 1, BitrateKbps = 0,
     StartedAt = 0\<rparr>"

theorem live_rooms_grouped_witness:
  "\<exists>r1 r2. mset (buildWebLiveRooms demo_sort_streams demo_sort_rooms [demo_info ''b'', demo_info ''a'']
      [\<lparr>ref_StreamKey = ''a'', ref_RoomID = 7, ref_RoomName = ''Den'', ref_Label = []\<rparr>]) = {#r1, r2#} \<and>
    wr_RoomID r1 = 7 \<and> map wls_StreamKey (wr_Streams r1) = [''a''] \<and> wr_RoomID r2 = 0"
proof -
  let ?refs = "[\<lparr>ref_StreamKey = ''a'', ref_RoomID = 7, ref_RoomName = ''Den'', ref_Label = []\<rparr>]"
    and ?live = "[demo_info ''b'', demo_info ''a'']"
  let ?ref = "map_of (rev (map (\<lambda>r. (ref_StreamKey r, r)) ?refs))"
  have "live_ids ?ref ?live = {7}" by (auto simp: live_ids_def demo_info_def)
  then have "mset (buildWebLiveRooms demo_sort_streams demo_sort_rooms ?live ?refs) =
      image_mset (finish_room demo_sort_streams) {#room_group ?ref 7 ?live, virtual_room (demo_info ''b'')#}"
    using live_rooms_grouped [OF demo_sorts, of ?live ?refs] by (simp add: unknown_streams_def demo_info_def)
  then show ?thesis
    by (intro exI [of _ "finish_room demo_sort_streams (room_group ?ref 7 ?live)"]
        exI [of _ "finish_room demo_sort_streams (virtual_room (demo_info ''b''))"])
      (simp add: room_group_def streams_of_room_def List.map_filter_def demo_info_def finish_room_def known_room_def
        virtual_room_def toWebStream_def demo_sort_streams_def)
qed

end
