(* ===== verification/Rtc_Peer.thy ===== *)
theory Rtc_Peer
  imports Rtc_Play Voice_Connection
begin

text \<open>
  The end of a WebRTC playback, \<open>closePeer\<close> and what calls it in \<open>Answer\<close> of
  \<open>server/internal/media/rtcplay/engine.go\<close>: the changes of the connection, the deadline of 20 seconds and the two
  writers, which close the peer when they return.
\<close>

section \<open>Code\<close>

record playing =
  pl_sub :: addr
  pl_once :: bool

definition closePeer :: "playing \<times> registry \<Rightarrow> (playing \<times> registry) option" where
  "closePeer s =
     (case s of (p, r) \<Rightarrow>
        if pl_once p then Some (p, r)
        else map_option (Pair (p\<lparr>pl_once := True\<rparr>)) (Subscription_Close (pl_sub p) r))"

text \<open>The deadline looks at the state of the connection when it fires.\<close>

datatype peer_event = PeerState connection_state | DeadlineFired connection_state | WriterReturned

fun closes_peer :: "peer_event \<Rightarrow> bool" where
  "closes_peer (PeerState state) = (state = CsFailed \<or> state = CsClosed \<or> state = CsDisconnected)"
| "closes_peer (DeadlineFired state) = (state \<noteq> CsConnected)"
| "closes_peer WriterReturned = True"

fun peer_events :: "peer_event list \<Rightarrow> playing \<times> registry \<Rightarrow> (playing \<times> registry) option" where
  "peer_events [] s = Some s"
| "peer_events (ev # evs) s =
     Option.bind (if closes_peer ev then closePeer s else Some s) (peer_events evs)"

section \<open>Facts\<close>

lemma peer_events_closed: "pl_once p \<Longrightarrow> peer_events evs (p, r) = Some (p, r)"
  by (induction evs) (simp_all add: closePeer_def)

text \<open>However many of the calls come, the subscription is closed once, by the first.\<close>

lemma peer_events_once:
  "\<not> pl_once p \<Longrightarrow> peer_events evs (p, r) =
     (if \<exists>ev \<in> set evs. closes_peer ev
      then map_option (Pair (p\<lparr>pl_once := True\<rparr>)) (Subscription_Close (pl_sub p) r) else Some (p, r))"
proof (induction evs)
  case (Cons ev evs)
  then show ?case
    by (cases "Subscription_Close (pl_sub p) r") (simp_all add: closePeer_def peer_events_closed)
qed simp

text \<open>After any of them the registry counts the viewers as before the offer.\<close>

lemma viewer_leaves:
  assumes "registry_reachable r" "map_of (streams r) key = Some a" "entries r a = Some e"
    and "nextID e \<notin> fst ` set (subscribers e)"
    and answer: "Answer lib key offerSDP r = Some (Inr (sdp, c), r1)"
    and "ev \<in> set evs" "closes_peer ev"
  shows "\<exists>p r2. peer_events evs (\<lparr>pl_sub = c, pl_once = False\<rparr>, r1) = Some (p, r2) \<and> pl_once p \<and>
    registry_Get key now r2 = registry_Get key now r"
proof -
  from subscribe_close_round [OF reachable_registry_inv [OF assms(1)] assms(2-4)] obtain r' r2 where
    r: "registry_Subscribe key r = Some (Inr (next_addr r), r')" "Subscription_Close (next_addr r) r' = Some r2"
       "streams r2 = streams r" "entries r2 = (entries r)(a \<mapsto> e\<lparr>nextID := nextID e + 1\<rparr>)" by blast
  from answer r(1) have "c = next_addr r" "r1 = r'"
    by (auto simp: Answer_def bind_eq_Some_conv split: if_splits sum.splits)
  with r(2) assms(6,7) have "peer_events evs (\<lparr>pl_sub = c, pl_once = False\<rparr>, r1) = Some (\<lparr>pl_sub = c, pl_once = True\<rparr>, r2)"
    by (auto simp: peer_events_once)
  moreover have "registry_Get key now r2 = registry_Get key now r"
    using r(3,4) assms(2,3) by (simp add: registry_Get_def entry_info_def Let_def)
  ultimately show ?thesis by simp
qed

end
