(* ===== verification/Stun_Probe.thy ===== *)
theory Stun_Probe
  imports Public_Ip Go_Url
begin

text \<open>
  \<open>probeSTUN\<close> of \<open>server/internal/network/publicip/resolver.go\<close>: the probe that the server passes to the
  resolver. The network and the STUN library are parameters; what is done with the connection is recorded, because
  the function has to close it on every path.
\<close>

section \<open>Code\<close>

text \<open>An event of the library: a failure, or a message with what decoding its mapped address gives.\<close>

datatype stun_event = StunError string | StunMessage "string + ip option"

record stun_library =
  DialContext :: "string \<Rightarrow> string option"
  NewClient :: "string \<Rightarrow> string option"
  Do_binding :: "string \<Rightarrow> string option \<times> stun_event list"

datatype stun_call = Dialled string | DeadlineSet | ConnectionClosed | ClientClosed

definition stun_address :: "string \<Rightarrow> string" where
  "stun_address server =
     (let address = TrimPrefix (TrimSpace server) ''stun:''
      in case SplitHostPort address of
           None \<Rightarrow> JoinHostPort (Trim ''[]'' address) ''3478''
         | Some _ \<Rightarrow> address)"

text \<open>The callback: \<open>(mapped, responseErr)\<close> are the variables that it assigns.\<close>

definition stun_callback :: "stun_event \<Rightarrow> ip option \<times> string option \<Rightarrow> ip option \<times> string option" where
  "stun_callback event v =
     (case event of
        StunError err \<Rightarrow> (fst v, Some err)
      | StunMessage (Inl decodeErr) \<Rightarrow> (fst v, Some decodeErr)
      | StunMessage (Inr IP) \<Rightarrow> (IP, snd v))"

definition probeSTUN :: "stun_library \<Rightarrow> bool \<Rightarrow> string \<Rightarrow> (string + ip option) \<times> stun_call list" where
  "probeSTUN lib deadline server =
     (let address = stun_address server
      in case DialContext lib address of
           Some err \<Rightarrow> (Inl err, [])
         | None \<Rightarrow>
             (let opened = [Dialled address] @ (if deadline then [DeadlineSet] else [])
              in case NewClient lib address of
                   Some err \<Rightarrow> (Inl err, opened @ [ConnectionClosed])
                 | None \<Rightarrow>
                     (let (err, events) = Do_binding lib address;
                          (mapped, responseErr) = fold stun_callback events (None, None);
                          outcome =
                            (case err of
                               Some e \<Rightarrow> Inl e
                             | None \<Rightarrow>
                                 (case responseErr of
                                    Some e \<Rightarrow> Inl e
                                  | None \<Rightarrow>
                                      (case Option.bind mapped To4 of
                                         None \<Rightarrow> Inl ''STUN response did not contain an IPv4 address''
                                       | Some ip4 \<Rightarrow> Inr (Some ip4))))
                      in (outcome, opened @ [ClientClosed]))))"

section \<open>Facts\<close>

lemma To4_V4: "To4 i = Some j \<Longrightarrow> \<exists>a b c d. j = V4 a b c d"
  by (cases i) (auto split: if_splits)

lemma probeSTUN_IPv4: "fst (probeSTUN lib deadline server) = Inr i \<Longrightarrow> \<exists>a b c d. i = Some (V4 a b c d)"
  by (auto simp: probeSTUN_def Let_def bind_eq_Some_conv split: option.splits prod.splits dest!: To4_V4)

text \<open>A connection that was opened is closed, once and last, whatever happens in between.\<close>

lemma probeSTUN_closes:
  "snd (probeSTUN lib deadline server) = [] \<or>
   (\<exists>calls c. snd (probeSTUN lib deadline server) = Dialled (stun_address server) # calls @ [c] \<and>
      c \<in> {ConnectionClosed, ClientClosed} \<and> set calls \<subseteq> {DeadlineSet})"
  by (auto simp: probeSTUN_def Let_def split: option.splits prod.splits)

text \<open>
  The address that is dialled has a host and a port, even for an IPv6 address without a port and without
  brackets; only brackets inside a name can break it.
\<close>

lemma stun_address_splits:
  assumes "set (Trim ''[]'' (TrimPrefix (TrimSpace server) ''stun:'')) \<inter> set ''[]'' = {}"
  shows "\<exists>host port. SplitHostPort (stun_address server) = Some (host, port)"
  using SplitHostPort_JoinHostPort [OF assms, of "''3478''"]
  by (auto simp: stun_address_def Let_def split: option.split)

text \<open>With this probe a discovered address is still a public IPv4 address.\<close>

lemma probe_servers_probeSTUN: "probe_servers (\<lambda>s. fst (probeSTUN lib deadline s)) servers fs = Inr v \<Longrightarrow> public_string v"
  by (rule probe_servers_public)

end
