(* ===== verification/Publishing.thy ===== *)
theory Publishing
  imports Ingress_Handler Rtmp_Ingest
begin

text \<open>
  Who may publish a stream, and what the room hears of it: the RTMP server with the two functions that \<open>main\<close> of
  \<open>server/cmd/server/main.go\<close> gives it, \<open>newRTMPAuthorizer\<close> over the interface \<open>streamKeyLookup\<close>, and the callback of the
  state (\<open>on_stream_state\<close>).
\<close>

section \<open>Code\<close>

definition newRTMPAuthorizer :: "bool \<Rightarrow> registry \<Rightarrow> (string \<Rightarrow> bool \<times> 'e option) \<Rightarrow> string \<Rightarrow> bool" where
  "newRTMPAuthorizer allowTemporary reg ExistsByKey streamKey =
     (if active streamKey reg then False
      else case ExistsByKey streamKey of
             (present, Some err) \<Rightarrow> False
           | (present, None) \<Rightarrow> present \<or> allowTemporary)"

section \<open>The interface\<close>

text \<open>An answer without an error is the truth about the keys that are known.\<close>

locale streamKeyLookup =
  fixes ok :: "'g \<Rightarrow> bool"
    and lookup :: "'g \<Rightarrow> string \<Rightarrow> 's \<Rightarrow> bool \<times> 'e option"
    and known :: "'s \<Rightarrow> string set"
  assumes lookup_true: "ok g \<Longrightarrow> lookup g k s = (b, None) \<Longrightarrow> b \<longleftrightarrow> k \<in> known s"
begin

lemma authorized_known:
  assumes "ok g" "newRTMPAuthorizer allowTemporary reg (\<lambda>k. lookup g k s) key"
  shows "\<not> active key reg \<and> (key \<in> known s \<or> allowTemporary)"
  using assms lookup_true [OF assms(1), of key s]
  by (auto simp: newRTMPAuthorizer_def split: if_splits prod.splits option.splits)

lemma only_known_keys:
  assumes "ok g" "key \<notin> known s"
  shows "\<not> newRTMPAuthorizer False reg (\<lambda>k. lookup g k s) key"
  using authorized_known [OF assms(1), of False reg s key] assms(2) by blast

text \<open>A lookup that fails lets nobody in, also where temporary streams are allowed.\<close>

lemma failed_lookup: "lookup g key s = (b, Some err) \<Longrightarrow> \<not> newRTMPAuthorizer allowTemporary reg (\<lambda>k. lookup g k s) key"
  by (simp add: newRTMPAuthorizer_def)

end

definition stream_keys :: "database \<Rightarrow> string set" where
  "stream_keys db = StreamKey ` set (t_ingresses db)"

interpretation ingress_keys: streamKeyLookup gorm_ok ExistsByStreamKey stream_keys
proof unfold_locales
  fix g k db b
  assume g: "gorm_ok g" and answer: "ExistsByStreamKey g k db = (b, None)"
  from answer obtain n where n: "dCount (g_ingresses g) (\<lambda>x. StreamKey x = k) (t_ingresses db) = Inr n" "b = (0 < n)"
    by (auto simp: ExistsByStreamKey_def split: sum.splits)
  from driver_okD(5) [OF gorm_okD(5) [OF g] n(1)] have "n = length (filter (\<lambda>x. StreamKey x = k) (t_ingresses db))" .
  with n(2) show "b \<longleftrightarrow> k \<in> stream_keys db" by (auto simp: stream_keys_def filter_empty_conv)
qed

section \<open>What the room hears\<close>

text \<open>
  A change of the state of a key without an ingress is not heard of. Otherwise the room of the ingress is told, and at
  most the flag of this ingress changes.
\<close>

lemma on_stream_state_effect:
  assumes "\<forall>k. gorm_ok (g k)" "on_stream_state g key isActive db h = (db', h')"
  shows "(db' = db \<and> h' = h) \<or>
    (\<exists>i \<in> set (t_ingresses db). StreamKey i = key \<and>
       h' = BroadcastToRoom (ing_RoomID i) (IngressUpdateP (ing_RoomID i) ''status_changed'') 0 h \<and>
       (db' = db \<or> db' = db\<lparr>t_ingresses := map (\<lambda>x. if ing_ID x = ing_ID i then x\<lparr>ing_IsActive := isActive\<rparr> else x)
          (t_ingresses db)\<rparr>))"
proof (cases "FindByStreamKey (g 0) key db")
  case (Inl err)
  with assms(2) show ?thesis by (simp add: on_stream_state_def)
next
  case (Inr i)
  have i: "i \<in> set (t_ingresses db)" "StreamKey i = key"
    using driver_okD(2) [OF gorm_okD(5), of "g 0"] assms(1) Inr by (auto simp: FindByStreamKey_def)
  have "snd (Ingress_SetActive (g 1) (ing_ID i) isActive db) = db \<or> snd (Ingress_SetActive (g 1) (ing_ID i) isActive db) =
      db\<lparr>t_ingresses := map (\<lambda>x. if ing_ID x = ing_ID i then x\<lparr>ing_IsActive := isActive\<rparr> else x) (t_ingresses db)\<rparr>"
  proof (cases "dUpdate (g_ingresses (g 1)) (\<lambda>x. ing_ID x = ing_ID i) (\<lambda>x. x\<lparr>ing_IsActive := isActive\<rparr>) (t_ingresses db)")
    case (Inr rs)
    from driver_okD(6) [OF gorm_okD(5) Inr] assms(1) Inr show ?thesis by (simp add: Ingress_SetActive_def with_rows_def)
  qed (simp add: Ingress_SetActive_def with_rows_def)
  with i assms(2) Inr show ?thesis by (auto simp: on_stream_state_def Let_def)
qed

section \<open>A publication\<close>


text \<open>A stream of an ingress of room 7.\<close>

definition demo_ingress :: room_ingress where
  "demo_ingress = \<lparr>ing_ID = 1, ing_RoomID = 7, IngressID = ''in-1'', StreamKey = ''stream-1'', RTMPURL = [], Label = [],
     ing_IsActive = False, CreatedBy = 1, ing_CreatedAt = 0\<rparr>"

definition demo_ingresses :: database where
  "demo_ingresses = empty_db\<lparr>t_ingresses := [demo_ingress]\<rparr>"


end
