(* ===== verification/Wireguard_Race.thy ===== *)
theory Wireguard_Race
  imports Wireguard
begin

text \<open>
  Two joins at once. \<open>AllocateIP\<close> of \<open>server/internal/wg/coordinator.go\<close> takes the lock of the coordinator and gives
  it back before \<open>RegisterPeer\<close> stores the row, so another join can come in between. Here \<open>RegisterPeer\<close> of a user
  without a row is cut at this point into its two halves.
\<close>

section \<open>The two halves\<close>

text \<open>What \<open>RegisterPeer\<close> does once it has an address.\<close>

definition finish_join ::
  "(nat \<Rightarrow> gorm) \<Rightarrow> 'k wgtypes \<Rightarrow> 'k device \<Rightarrow> uint64 \<Rightarrow> uint64 \<Rightarrow> string \<Rightarrow> string \<Rightarrow> database \<Rightarrow> 'k coordinator
     \<Rightarrow> ((wg_error + wg_peer) \<times> database \<times> 'k coordinator) option" where
  "finish_join g ty dev roomID userID publicKey assignedIP db c =
     (case Peer_Create (g 2) \<lparr>p_ID = 0, p_RoomID = roomID, p_UserID = userID, PublicKey = publicKey,
             AssignedIP = assignedIP, LastHandshakeAt = None, p_CreatedAt = 0\<rparr> db of
        (Inl err, db1) \<Rightarrow> Some (Inl (CreatePeerFailed err), db1, c)
      | (Inr peer, db1) \<Rightarrow> do {
          c1 \<leftarrow> addPeerToDevice ty dev publicKey assignedIP c;
          Some (Inr peer, db1, c1)
        })"

text \<open>Without anything in between the halves are the whole.\<close>

lemma RegisterPeer_halves:
  assumes "FindByRoomAndUser (g 0) roomID userID db = Inl err"
  shows "RegisterPeer g ty dev roomID userID key db c =
    (case AllocateIP (g 1) (co_cfg c) roomID db of
       Inl e \<Rightarrow> Some (Inl e, db, c)
     | Inr ip \<Rightarrow> finish_join g ty dev roomID userID key ip db c)"
  using assms by (auto simp: RegisterPeer_def finish_join_def split: sum.split)

text \<open>The second half stores a new row with the address that it was given.\<close>

lemma finish_join_row:
  assumes "gorm_ok (g 2)" "wgtypes_ok ty" "finish_join g ty dev roomID userID key ip db c = Some (Inr p, db', c')"
  shows "t_peers db' = t_peers db @ [p]" "p_RoomID p = roomID" "p_UserID p = userID" "AssignedIP p = ip"
    "\<forall>x \<in> set (t_peers db). p_ID x < p_ID p" "co_cfg c' = co_cfg c"
proof -
  let ?p = "\<lparr>p_ID = 0, p_RoomID = roomID, p_UserID = userID, PublicKey = key, AssignedIP = ip,
      LastHandshakeAt = None, p_CreatedAt = 0\<rparr>"
  obtain r d where cr: "Peer_Create (g 2) ?p db = (r, d)" by fastforce
  obtain c1 where c1: "addPeerToDevice ty dev key ip c = Some c1" "co_cfg c1 = co_cfg c"
    using addPeer_ok [OF assms(2)] by metis
  from assms(3) cr c1 have "r = Inr p" "d = db'" "c1 = c'"
    by (auto simp: finish_join_def split: sum.splits)
  with Peer_Create_cases [OF assms(1) cr] c1 show "t_peers db' = t_peers db @ [p]" "p_RoomID p = roomID"
    "p_UserID p = userID" "AssignedIP p = ip" "\<forall>x \<in> set (t_peers db). p_ID x < p_ID p" "co_cfg c' = co_cfg c" by auto
qed

text \<open>The address depends on the rows alone.\<close>

lemma AllocateIP_same:
  assumes "gorm_ok g" "gorm_ok g'" "AllocateIP g cfg roomID db = Inr ip" "AllocateIP g' cfg roomID db = Inr ip'"
  shows "ip = ip'"
proof -
  from assms(3) obtain net u where "vlan_net cfg = Some net" "GetAllAssignedIPs g roomID db = Inr u"
    by (auto simp: AllocateIP_def vlan_net_def split: option.splits sum.splits ip.splits)
  moreover from assms(4) obtain u' where "GetAllAssignedIPs g' roomID db = Inr u'"
    by (auto simp: AllocateIP_def split: option.splits sum.splits ip.splits)
  ultimately show ?thesis
    using assms(3,4) AllocateIP_eq [OF assms(1), of cfg net roomID db u] AllocateIP_eq [OF assms(2), of cfg net roomID db u'] by simp
qed

section \<open>The collision\<close>

text \<open>
  C16: Two users who join the virtual network of a room at the same time get the same address. If both ask for an address
  before either row is stored, both rows are stored, nothing reports an error, and the invariant of the sequential runs
  is lost: the addresses of the room are not distinct any more.
\<close>

theorem concurrent_joins_collide:
  assumes "\<forall>i. gorm_ok (g i)" "\<forall>i. gorm_ok (g' i)" "wgtypes_ok ty"
    and "AllocateIP (g 1) (co_cfg c) roomID db = Inr ip" "AllocateIP (g' 1) (co_cfg c) roomID db = Inr ip'"
    and "finish_join g ty dev roomID u key ip db c = Some (Inr p, db1, c1)"
    and "finish_join g' ty dev' roomID v key' ip' db1 c1 = Some (Inr q, db2, c2)"
  shows "AssignedIP p = AssignedIP q \<and> p_ID p \<noteq> p_ID q \<and> p_UserID p = u \<and> p_UserID q = v \<and>
    {p, q} \<subseteq> set (t_peers db2) \<and> \<not> distinct (room_addresses roomID (t_peers db2))"
proof -
  note p = finish_join_row [OF spec [OF assms(1)] assms(3,6)]
  note q = finish_join_row [OF spec [OF assms(2)] assms(3,7)]
  from AllocateIP_same [OF spec [OF assms(1)] spec [OF assms(2)] assms(4,5)] have "ip = ip'" .
  moreover have "p_ID p \<noteq> p_ID q" using q(5) p(1) by auto
  ultimately show ?thesis using p q by (simp add: room_addresses_def)
qed

text \<open>Users 4 and 5 join room 7 at once.\<close>

lemma demo_finish:
  assumes "co_client c" "key \<in> {''14-key-x'', ''14-key-y''}" "list_all (\<lambda>x. p_ID x \<noteq> Suc (max_id peer_schema (t_peers db))) (t_peers db)"
  shows "\<exists>p db1 c1. finish_join (\<lambda>_. mem_gorm) demo_keys (\<lambda>_. None) 7 u key ''10.0.8.2/24'' db c = Some (Inr p, db1, c1) \<and>
    t_peers db1 = t_peers db @ [p] \<and> p_ID p = Suc (max_id peer_schema (t_peers db)) \<and> co_client c1"
  using assms by (auto simp: finish_join_def Peer_Create_def addPeerToDevice_def demo_addresses demo_keys_def mem_simps
      list_all_iff list_ex_iff Let_def)

lemma demo_race:
  "\<exists>ip p q db1 db2 c1 c2. AllocateIP mem_gorm demo_wg 7 empty_db = Inr ip \<and>
     finish_join (\<lambda>_. mem_gorm) demo_keys (\<lambda>_. None) 7 4 ''14-key-x'' ip empty_db demo_device = Some (Inr p, db1, c1) \<and>
     finish_join (\<lambda>_. mem_gorm) demo_keys (\<lambda>_. None) 7 5 ''14-key-y'' ip db1 c1 = Some (Inr q, db2, c2)"
proof -
  have none: "t_peers empty_db = []" "co_client demo_device"
    by (simp_all add: empty_db_def demo_device_def)
  obtain p db1 c1 where p: "finish_join (\<lambda>_. mem_gorm) demo_keys (\<lambda>_. None) 7 4 ''14-key-x'' ''10.0.8.2/24'' empty_db demo_device
      = Some (Inr p, db1, c1)" "t_peers db1 = [p]" "p_ID p = 1" "co_client c1"
    using demo_finish [OF none(2), of "''14-key-x''" empty_db 4] none(1) by (auto simp: max_id_def)
  then obtain q db2 c2 where "finish_join (\<lambda>_. mem_gorm) demo_keys (\<lambda>_. None) 7 5 ''14-key-y'' ''10.0.8.2/24'' db1 c1
      = Some (Inr q, db2, c2)"
    using demo_finish [OF p(4), of "''14-key-y''" db1 5] by (auto simp: max_id_def peer_schema_def)
  with p(1) demo_allocate(1) show ?thesis by blast
qed

theorem concurrent_joins_collide_witness:
  "\<exists>ip p q db1 db2 c1 c2. AllocateIP mem_gorm demo_wg 7 empty_db = Inr ip \<and>
     finish_join (\<lambda>_. mem_gorm) demo_keys (\<lambda>_. None) 7 4 ''14-key-x'' ip empty_db demo_device = Some (Inr p, db1, c1) \<and>
     finish_join (\<lambda>_. mem_gorm) demo_keys (\<lambda>_. None) 7 5 ''14-key-y'' ip db1 c1 = Some (Inr q, db2, c2) \<and>
     AssignedIP p = AssignedIP q \<and> {p_UserID p, p_UserID q} = {4, 5}"
proof -
  obtain ip p q db1 db2 c1 c2 where r: "AllocateIP mem_gorm demo_wg 7 empty_db = Inr ip"
     "finish_join (\<lambda>_. mem_gorm) demo_keys (\<lambda>_. None) 7 4 ''14-key-x'' ip empty_db demo_device = Some (Inr p, db1, c1)"
     "finish_join (\<lambda>_. mem_gorm) demo_keys (\<lambda>_. None) 7 5 ''14-key-y'' ip db1 c1 = Some (Inr q, db2, c2)"
    using demo_race by blast
  have "co_cfg demo_device = demo_wg" by (simp add: demo_device_def NewCoordinator_def)
  with concurrent_joins_collide [OF mem_gorm_all mem_gorm_all demo_keys_ok _ _ r(2,3)] r(1)
  have "AssignedIP p = AssignedIP q \<and> {p_UserID p, p_UserID q} = {4, 5}" by auto
  with r show ?thesis by blast
qed

end
