(* ===== verification/Message_Meta.thy ===== *)
theory Message_Meta
  imports Hub
begin

text \<open>
  The type \<open>JSON\<close> of \<open>server/internal/model/message.go\<close>: the metadata of a message on its way into a column of the
  database and back. \<open>encoding/json\<close> writes and parses the text; here both are parameters.
\<close>

section \<open>Code\<close>

text \<open>A map that may be nil, and the values that a database driver takes and gives.\<close>

type_synonym meta = "(string \<times> json) list option"

datatype driver_value = SqlNull | SqlBytes string | SqlText string | SqlInt int | SqlFloat rat | SqlBool bool | SqlTime time

datatype scan_error = UnsupportedValue | Malformed string | WrongType

definition JSON_Value :: "((string \<times> json) list \<Rightarrow> string + string) \<Rightarrow> meta \<Rightarrow> string + driver_value" where
  "JSON_Value marshal j =
     (case j of None \<Rightarrow> Inr SqlNull
      | Some kvs \<Rightarrow> (case marshal kvs of Inl err \<Rightarrow> Inl err | Inr t \<Rightarrow> Inr (SqlBytes t)))"

text \<open>\<open>json.Unmarshal\<close> into a map: \<open>null\<close> makes it nil, an object adds its entries to those that are there.\<close>

fun add_entries :: "(string \<times> json) list \<Rightarrow> (string \<times> json) list \<Rightarrow> (string \<times> json) list" where
  "add_entries [] m = m"
| "add_entries ((k, v) # kvs) m = add_entries kvs (AList.update k v m)"

definition unmarshal_map :: "(string \<Rightarrow> string + json) \<Rightarrow> string \<Rightarrow> meta \<Rightarrow> scan_error + meta" where
  "unmarshal_map parse t j =
     (case parse t of Inl err \<Rightarrow> Inl (Malformed err)
      | Inr v \<Rightarrow>
          (case v of JNull \<Rightarrow> Inr None
           | JObj kvs \<Rightarrow> Inr (Some (add_entries kvs (case j of None \<Rightarrow> [] | Some m \<Rightarrow> m)))
           | _ \<Rightarrow> Inl WrongType))"

definition JSON_Scan :: "(string \<Rightarrow> string + json) \<Rightarrow> driver_value \<Rightarrow> meta \<Rightarrow> scan_error + meta" where
  "JSON_Scan parse val j =
     (case val of SqlNull \<Rightarrow> Inr None
      | SqlBytes t \<Rightarrow> unmarshal_map parse t j
      | SqlText t \<Rightarrow> unmarshal_map parse t j
      | _ \<Rightarrow> Inl UnsupportedValue)"

section \<open>Facts\<close>

lemma add_new_entries:
  "distinct (map fst (m @ kvs)) \<Longrightarrow> add_entries kvs m = m @ kvs"
proof (induction kvs m rule: add_entries.induct)
  case (2 k v kvs m)
  have "AList.update k v m = m @ [(k, v)]" using 2(2) by (induction m) auto
  with 2 show ?case by simp
qed simp

text \<open>What was stored is read back, whether the driver gives the column as text or as bytes; nil stays nil.\<close>

lemma meta_stored:
  assumes "marshal kvs = Inr t" "parse t = Inr (JObj kvs)" "distinct (map fst kvs)"
  shows "JSON_Value marshal (Some kvs) = Inr (SqlBytes t)"
    "JSON_Scan parse (SqlBytes t) None = Inr (Some kvs)" "JSON_Scan parse (SqlText t) None = Inr (Some kvs)"
  using assms by (simp_all add: JSON_Value_def JSON_Scan_def unmarshal_map_def add_new_entries)

lemma nil_stored: "JSON_Value marshal None = Inr SqlNull" "JSON_Scan parse SqlNull j = Inr None"
  by (simp_all add: JSON_Value_def JSON_Scan_def)

text \<open>The row of a chat message holds what \<open>JSON_Value\<close> gives, when writing does not fail.\<close>

lemma chat_row_meta:
  "JSON_Value (\<lambda>kvs. Inr (marshal kvs)) (cs_Meta p) =
     Inr (case Meta (chat_message_row marshal now userID type p) of None \<Rightarrow> SqlNull | Some t \<Rightarrow> SqlBytes t)"
  by (simp add: JSON_Value_def chat_message_row_def split: option.split)

end
